(* ===== verification/Kernel_Service.thy ===== *)
theory Kernel_Service
  imports Prelude
begin

text \<open>
  The microkernel (\<^verbatim>\<open>crates/kernel\<close>): plugin lifecycle (\<open>boot\<close>, \<open>rollback\<close>, \<open>shutdown\<close>) and the
  middleware pipeline (\<open>accept\<close>). Hooks are state transformers over an arbitrary world \<open>'s\<close>, which
  stands for everything the plugins share and mutate; a hook that fails returns its error and the
  world it left behind. The kernel is serial: every hook is awaited before the next one runs.
\<close>

subsection \<open>Models\<close>

datatype Next = Continue | Stop | Abort

record 'e PluginError =
  pe_plugin :: rstr
  pe_source :: 'e

datatype 'e KernelError = Lifecycle rstr "'e PluginError"

record ('s, 'e) PluginPort =
  pl_name :: rstr
  pl_init :: "'s \<Rightarrow> ('e PluginError + unit) \<times> 's"
  pl_start :: "'s \<Rightarrow> ('e PluginError + unit) \<times> 's"
  pl_stop :: "'s \<Rightarrow> ('e PluginError + unit) \<times> 's"

record ('ev, 's) MiddlewarePluginPort =
  mw_name :: rstr
  mw_pre :: "'ev \<Rightarrow> 's \<Rightarrow> Next \<times> 'ev \<times> 's"
  mw_post :: "'ev \<Rightarrow> 's \<Rightarrow> 'ev \<times> 's"

text \<open>The hooks a plugin does not override.\<close>

definition default_hook :: "'s \<Rightarrow> ('e PluginError + unit) \<times> 's" where
  "default_hook s = (Inr (), s)"

definition default_pre :: "'ev \<Rightarrow> 's \<Rightarrow> Next \<times> 'ev \<times> 's" where
  "default_pre ev s = (Continue, ev, s)"

definition default_post :: "'ev \<Rightarrow> 's \<Rightarrow> 'ev \<times> 's" where
  "default_post ev s = (ev, s)"

subsection \<open>Lifecycle\<close>

text \<open>A failed \<open>stop\<close> is logged and the next plugin is still stopped.\<close>

fun stop_each :: "('s, 'e) PluginPort list \<Rightarrow> 's \<Rightarrow> 's" where
  "stop_each [] s = s"
| "stop_each (p # ps) s = (case pl_stop p s of (_, s') \<Rightarrow> stop_each ps s')"

definition rollback :: "('s, 'e) PluginPort list \<Rightarrow> nat \<Rightarrow> 's \<Rightarrow> 's" where
  "rollback ps count s = stop_each (rev (take count ps)) s"

definition shutdown :: "('s, 'e) PluginPort list \<Rightarrow> 's \<Rightarrow> 's" where
  "shutdown ps s = stop_each (rev ps) s"

text \<open>The two loops of \<open>boot\<close>; \<open>i\<close> is the loop index, the last list what is left to visit.\<close>

fun boot_init :: "('s, 'e) PluginPort list \<Rightarrow> nat \<Rightarrow> ('s, 'e) PluginPort list \<Rightarrow> 's
    \<Rightarrow> ('e KernelError + unit) \<times> 's" where
  "boot_init ps i [] s = (Inr (), s)"
| "boot_init ps i (p # rest) s =
     (case pl_init p s of
        (Inl source, s') \<Rightarrow> (Inl (Lifecycle (pl_name p) source), rollback ps i s')
      | (Inr _, s') \<Rightarrow> boot_init ps (Suc i) rest s')"

fun boot_start :: "('s, 'e) PluginPort list \<Rightarrow> nat \<Rightarrow> ('s, 'e) PluginPort list \<Rightarrow> 's
    \<Rightarrow> ('e KernelError + unit) \<times> 's" where
  "boot_start ps i [] s = (Inr (), s)"
| "boot_start ps i (p # rest) s =
     (case pl_start p s of
        (Inl source, s') \<Rightarrow> (Inl (Lifecycle (pl_name p) source), rollback ps (i + 1) s')
      | (Inr _, s') \<Rightarrow> boot_start ps (Suc i) rest s')"

definition boot :: "('s, 'e) PluginPort list \<Rightarrow> 's \<Rightarrow> ('e KernelError + unit) \<times> 's" where
  "boot ps s =
     (case boot_init ps 0 ps s of
        (Inl e, s') \<Rightarrow> (Inl e, s')
      | (Inr _, s') \<Rightarrow> boot_start ps 0 ps s')"

subsection \<open>Pipeline\<close>

text \<open>The forward loop returns \<open>(n, aborted, event, world)\<close>.\<close>

fun run_pre :: "('ev, 's) MiddlewarePluginPort list \<Rightarrow> nat \<Rightarrow> 'ev \<Rightarrow> 's \<Rightarrow> nat \<times> bool \<times> 'ev \<times> 's" where
  "run_pre [] n ev s = (n, False, ev, s)"
| "run_pre (m # ms) n ev s =
     (case mw_pre m ev s of
        (Continue, ev', s') \<Rightarrow> run_pre ms (n + 1) ev' s'
      | (Stop, ev', s') \<Rightarrow> (n + 1, False, ev', s')
      | (Abort, ev', s') \<Rightarrow> (n, True, ev', s'))"

fun run_post :: "('ev, 's) MiddlewarePluginPort list \<Rightarrow> 'ev \<Rightarrow> 's \<Rightarrow> 'ev \<times> 's" where
  "run_post [] ev s = (ev, s)"
| "run_post (m # ms) ev s = (case mw_post m ev s of (ev', s') \<Rightarrow> run_post ms ev' s')"

definition accept :: "('ev, 's) MiddlewarePluginPort list \<Rightarrow> 'ev \<Rightarrow> 's \<Rightarrow> 's" where
  "accept ms ev s =
     (case run_pre ms 0 ev s of (n, aborted, ev', s') \<Rightarrow>
        if aborted then s' else snd (run_post (rev (take n ms)) ev' s'))"

subsection \<open>Call traces\<close>

text \<open>
  To speak about which hooks ran and in which order, a plugin list is instrumented: each plugin
  additionally appends its position and the hook to a log. The instrumentation does not influence
  what the kernel does.
\<close>

datatype hook = HInit nat | HStart nat | HStop nat

definition log_hook :: "hook \<Rightarrow> ('s \<Rightarrow> 'r \<times> 's) \<Rightarrow> 's \<times> hook list \<Rightarrow> 'r \<times> 's \<times> hook list" where
  "log_hook h f = (\<lambda>(s, log). case f s of (r, s') \<Rightarrow> (r, s', log @ [h]))"

definition traced :: "nat \<Rightarrow> ('s, 'e) PluginPort \<Rightarrow> ('s \<times> hook list, 'e) PluginPort" where
  "traced i p = \<lparr> pl_name = pl_name p, pl_init = log_hook (HInit i) (pl_init p),
     pl_start = log_hook (HStart i) (pl_start p), pl_stop = log_hook (HStop i) (pl_stop p) \<rparr>"

primrec traced_from :: "nat \<Rightarrow> ('s, 'e) PluginPort list \<Rightarrow> ('s \<times> hook list, 'e) PluginPort list" where
  "traced_from i [] = []"
| "traced_from i (p # ps) = traced i p # traced_from (Suc i) ps"

lemma traced_simps [simp]:
  "pl_name (traced i p) = pl_name p"
  "pl_init (traced i p) (s, log) = (case pl_init p s of (r, s') \<Rightarrow> (r, s', log @ [HInit i]))"
  "pl_start (traced i p) (s, log) = (case pl_start p s of (r, s') \<Rightarrow> (r, s', log @ [HStart i]))"
  "pl_stop (traced i p) (s, log) = (case pl_stop p s of (r, s') \<Rightarrow> (r, s', log @ [HStop i]))"
  by (simp_all add: traced_def log_hook_def)

lemma length_traced_from [simp]: "length (traced_from i ps) = length ps"
  by (induction ps arbitrary: i) auto

lemma traced_from_append: "traced_from i (ps @ qs) = traced_from i ps @ traced_from (i + length ps) qs"
  by (induction ps arbitrary: i) auto

lemma take_traced_from: "take k (traced_from i ps) = traced_from i (take k ps)"
  by (induction ps arbitrary: i k) (auto simp: take_Cons split: nat.splits)

lemma stop_each_traced:
  "stop_each (rev (traced_from 0 ps)) (s, log)
    = (stop_each (rev ps) s, log @ map HStop (rev [0..<length ps]))"
proof (induction ps arbitrary: s log rule: rev_induct)
  case (snoc p ps)
  then show ?case by (simp add: traced_from_append split: prod.splits)
qed simp

lemma rollback_traced:
  "k \<le> length ps \<Longrightarrow>
   rollback (traced_from 0 ps) k (s, log) = (rollback ps k s, log @ map HStop (rev [0..<k]))"
  by (simp add: rollback_def take_traced_from stop_each_traced min_absorb2)

text \<open>
  What one of the two loops logs from index \<open>i\<close> on: every hook when it succeeds; up to the failing
  plugin \<open>i + k\<close> and then the reverse stops of the first \<open>i + k + x\<close> plugins when it fails.
\<close>

definition loop_trace :: "(nat \<Rightarrow> hook) \<Rightarrow> nat \<Rightarrow> nat \<Rightarrow> rstr list \<Rightarrow> 'e KernelError + unit
    \<Rightarrow> hook list \<Rightarrow> bool" where
  "loop_trace h x i names r log =
     (case r of
        Inr _ \<Rightarrow> log = map h [i..<i + length names]
      | Inl (Lifecycle n e) \<Rightarrow> (\<exists>k<length names. n = names ! k
          \<and> log = map h [i..<Suc (i + k)] @ map HStop (rev [0..<i + k + x])))"

lemma loop_trace_Cons:
  assumes "loop_trace h x (Suc i) names r log"
  shows "loop_trace h x i (n # names) r (h i # log)"
proof (cases r)
  case (Inl e)
  then obtain m e' where r: "r = Inl (Lifecycle m e')" by (cases e) auto
  with assms obtain k where k: "k < length names" "m = names ! k"
    "log = map h [Suc i..<Suc (Suc i + k)] @ map HStop (rev [0..<Suc i + k + x])"
    by (auto simp: loop_trace_def)
  then have "h i # log = map h [i..<Suc (i + Suc k)] @ map HStop (rev [0..<i + Suc k + x])"
    by (simp add: upt_conv_Cons del: upt_Suc)
  with k r show ?thesis by (auto simp: loop_trace_def intro!: exI [of _ "Suc k"])
qed (use assms in \<open>simp add: loop_trace_def upt_conv_Cons del: upt_Suc\<close>)

lemma loop_trace_fail:
  "loop_trace h x i (n # names) (Inl (Lifecycle n e)) (h i # map HStop (rev [0..<i + x]))"
  by (auto simp: loop_trace_def intro!: exI [of _ 0])

lemma boot_init_traced:
  "i + length rest = length ps \<Longrightarrow>
   \<exists>log'. boot_init (traced_from 0 ps) i (traced_from i rest) (s, log)
      = (fst (boot_init ps i rest s), snd (boot_init ps i rest s), log @ log')
    \<and> loop_trace HInit 0 i (map pl_name rest) (fst (boot_init ps i rest s)) log'"
proof (induction rest arbitrary: i s log)
  case Nil
  then show ?case by (simp add: loop_trace_def)
next
  case (Cons p rest)
  obtain r s' where r: "pl_init p s = (r, s')" by fastforce
  show ?case
  proof (cases r)
    case (Inl e)
    with r Cons.prems show ?thesis
      using loop_trace_fail [of HInit 0 i "pl_name p" "map pl_name rest" e] by (simp add: rollback_traced)
  next
    case (Inr u)
    from Cons.prems have "Suc i + length rest = length ps" by simp
    from Cons.IH [OF this, of s' "log @ [HInit i]"] r Inr show ?thesis
      by (auto dest: loop_trace_Cons [of HInit 0 i _ _ _ "pl_name p"])
  qed
qed

lemma boot_start_traced:
  "i + length rest = length ps \<Longrightarrow>
   \<exists>log'. boot_start (traced_from 0 ps) i (traced_from i rest) (s, log)
      = (fst (boot_start ps i rest s), snd (boot_start ps i rest s), log @ log')
    \<and> loop_trace HStart 1 i (map pl_name rest) (fst (boot_start ps i rest s)) log'"
proof (induction rest arbitrary: i s log)
  case Nil
  then show ?case by (simp add: loop_trace_def)
next
  case (Cons p rest)
  obtain r s' where r: "pl_start p s = (r, s')" by fastforce
  show ?case
  proof (cases r)
    case (Inl e)
    with r Cons.prems show ?thesis
      using loop_trace_fail [of HStart 1 i "pl_name p" "map pl_name rest" e]
      by (simp add: rollback_traced)
  next
    case (Inr u)
    from Cons.prems have "Suc i + length rest = length ps" by simp
    from Cons.IH [OF this, of s' "log @ [HStart i]"] r Inr show ?thesis
      by (auto dest: loop_trace_Cons [of HStart "Suc 0" i _ _ _ "pl_name p"])
  qed
qed

text \<open>
  The lifecycle contract of \<open>boot\<close>, on the log of hook calls. A successful boot initialises every
  plugin in registration order and only then starts every plugin in order. A failing boot reports
  the name of the plugin \<open>k\<close> whose hook failed and has stopped, in reverse order and exactly once,
  the plugins initialised before it (failed \<open>init\<close>) or the plugins started up to and including it
  (failed \<open>start\<close>); no hook runs after the failure but these stops.
\<close>

theorem boot_call_trace:
  "\<exists>log. boot (traced_from 0 ps) (s, []) = (fst (boot ps s), snd (boot ps s), log)
    \<and> (case fst (boot ps s) of
         Inr _ \<Rightarrow> log = map HInit [0..<length ps] @ map HStart [0..<length ps]
       | Inl (Lifecycle n e) \<Rightarrow> (\<exists>k. k < length ps \<and> n = pl_name (ps ! k)
           \<and> (log = map HInit [0..<Suc k] @ map HStop (rev [0..<k])
              \<or> log = map HInit [0..<length ps] @ map HStart [0..<Suc k] @ map HStop (rev [0..<Suc k]))))"
proof -
  obtain log1 where b1: "boot_init (traced_from 0 ps) 0 (traced_from 0 ps) (s, [])
      = (fst (boot_init ps 0 ps s), snd (boot_init ps 0 ps s), log1)"
    and t1: "loop_trace HInit 0 0 (map pl_name ps) (fst (boot_init ps 0 ps s)) log1"
    using boot_init_traced [of 0 ps ps s "[]"] by auto
  obtain r s' where r: "boot_init ps 0 ps s = (r, s')" by fastforce
  show ?thesis
  proof (cases r)
    case (Inl e)
    with r b1 t1 show ?thesis
      by (auto simp: boot_def loop_trace_def split: KernelError.splits)
  next
    case (Inr u)
    with r t1 have l1: "log1 = map HInit [0..<length ps]" by (simp add: loop_trace_def)
    obtain log2 where b2: "boot_start (traced_from 0 ps) 0 (traced_from 0 ps) (s', log1)
        = (fst (boot_start ps 0 ps s'), snd (boot_start ps 0 ps s'), log1 @ log2)"
      and t2: "loop_trace HStart 1 0 (map pl_name ps) (fst (boot_start ps 0 ps s')) log2"
      using boot_start_traced [of 0 ps ps s' log1] by auto
    from r Inr b1 b2 t2 l1 show ?thesis
      by (auto simp: boot_def loop_trace_def split: sum.splits KernelError.splits)
  qed
qed

subsection \<open>The pipeline as nested calls\<close>

text \<open>
  The reference semantics of a middleware chain: each step wraps the rest of the chain. The flag
  says whether some step aborted.
\<close>

fun onion :: "('ev, 's) MiddlewarePluginPort list \<Rightarrow> 'ev \<Rightarrow> 's \<Rightarrow> bool \<times> 'ev \<times> 's" where
  "onion [] ev s = (False, ev, s)"
| "onion (m # ms) ev s =
     (case mw_pre m ev s of
        (Abort, ev', s') \<Rightarrow> (True, ev', s')
      | (Stop, ev', s') \<Rightarrow> (False, mw_post m ev' s')
      | (Continue, ev', s') \<Rightarrow>
          (case onion ms ev' s' of
             (True, r) \<Rightarrow> (True, r)
           | (False, ev'', s'') \<Rightarrow> (False, mw_post m ev'' s'')))"

lemma run_pre_shift:
  "run_pre ms n ev s = (case run_pre ms 0 ev s of (k, r) \<Rightarrow> (n + k, r))"
proof (induction ms arbitrary: n ev s)
  case (Cons m ms)
  obtain v ev' s' where p: "mw_pre m ev s = (v, ev', s')" by (cases "mw_pre m ev s") auto
  show ?case
    using Cons [of "n + 1" ev' s'] Cons [of 1 ev' s'] p
    by (cases v) (auto split: prod.splits)
qed simp

lemma run_post_append:
  "run_post (xs @ ys) ev s = (case run_post xs ev s of (ev', s') \<Rightarrow> run_post ys ev' s')"
  by (induction xs arbitrary: ev s) (auto split: prod.splits)

lemma onion_two_loops:
  "onion ms ev s = (case run_pre ms 0 ev s of (n, aborted, ev', s') \<Rightarrow>
     if aborted then (True, ev', s') else (False, run_post (rev (take n ms)) ev' s'))"
proof (induction ms arbitrary: ev s)
  case (Cons m ms)
  obtain v ev' s' where p: "mw_pre m ev s = (v, ev', s')" by (cases "mw_pre m ev s") auto
  show ?case
  proof (cases v)
    case Continue
    obtain n a e2 s2 where r: "run_pre ms 0 ev' s' = (n, a, e2, s2)"
      by (cases "run_pre ms 0 ev' s'") auto
    with run_pre_shift [of ms 1 ev' s'] have "run_pre ms (Suc 0) ev' s' = (Suc n, a, e2, s2)" by simp
    with p Continue r Cons [of ev' s'] show ?thesis
      by (auto simp: run_post_append split: prod.splits)
  qed (use p in \<open>auto split: prod.splits\<close>)
qed simp

text \<open>
  C33. The kernel's two loops with the \<open>ran\<close> counter compute the nested middleware semantics: a
  \<open>post\<close> hook runs exactly for the steps whose \<open>pre\<close> let the event through, innermost first, a \<open>Stop\<close>
  still unwinds through the stopping step itself, and an \<open>Abort\<close> unwinds through nothing.
\<close>

theorem accept_onion: "accept ms ev s = snd (snd (onion ms ev s))"
  by (simp add: accept_def onion_two_loops split: prod.splits)

subsection \<open>Invariants of the pipeline\<close>

text \<open>A property of the world that every hook keeps is kept by the kernel.\<close>

locale pipeline_invariant =
  fixes ms :: "('ev, 's) MiddlewarePluginPort list"
    and inv :: "'s \<Rightarrow> bool"
  assumes pre_keeps: "m \<in> set ms \<Longrightarrow> inv s \<Longrightarrow> mw_pre m ev s = (v, ev', s') \<Longrightarrow> inv s'"
    and post_keeps: "m \<in> set ms \<Longrightarrow> inv s \<Longrightarrow> mw_post m ev s = (ev', s') \<Longrightarrow> inv s'"
begin

lemma run_pre_keeps:
  "set xs \<subseteq> set ms \<Longrightarrow> inv s \<Longrightarrow> run_pre xs n ev s = (k, a, ev', s') \<Longrightarrow> inv s'"
proof (induction xs arbitrary: n ev s)
  case (Cons m xs)
  obtain v e1 s1 where p: "mw_pre m ev s = (v, e1, s1)" by (cases "mw_pre m ev s") auto
  with Cons.prems have "inv s1" by (auto intro: pre_keeps)
  with p Cons show ?case by (cases v) auto
qed simp

lemma run_post_keeps:
  "set xs \<subseteq> set ms \<Longrightarrow> inv s \<Longrightarrow> run_post xs ev s = (ev', s') \<Longrightarrow> inv s'"
proof (induction xs arbitrary: ev s)
  case (Cons m xs)
  obtain e1 s1 where p: "mw_post m ev s = (e1, s1)" by fastforce
  with Cons.prems have "inv s1" by (auto intro: post_keeps)
  with p Cons show ?case by auto
qed simp

lemma accept_keeps: "inv s \<Longrightarrow> inv (accept ms ev s)"
proof -
  assume "inv s"
  obtain n a e1 s1 where p: "run_pre ms 0 ev s = (n, a, e1, s1)"
    by (cases "run_pre ms 0 ev s") auto
  with \<open>inv s\<close> have "inv s1" by (auto intro: run_pre_keeps)
  obtain e2 s2 where q: "run_post (rev (take n ms)) e1 s1 = (e2, s2)" by fastforce
  have "inv s2" using run_post_keeps [OF _ \<open>inv s1\<close> q] by (simp add: set_take_subset)
  with p q \<open>inv s1\<close> show ?thesis by (simp add: accept_def)
qed

lemma accept_list_keeps: "inv s \<Longrightarrow> inv (fold (accept ms) evs s)"
  by (induction evs arbitrary: s) (auto intro: accept_keeps)

end

end
