(* ===== verification/Driver_Wire.thy ===== *)
theory Driver_Wire
  imports Prelude
begin

text \<open>
  The decoder of the kernel driver's record stream (\<^verbatim>\<open>crates/protocol/src/driver_wire.rs\<close>). The input
  bytes are hostile; every read is bounds-checked and every failure is a value of \<open>DecodeError\<close>.
  Byte strings are \<open>u8 list\<close>, offsets and lengths (\<open>usize\<close>) are \<open>nat\<close>: sums of a 16-bit and a 32-bit
  quantity do not overflow a 64-bit \<open>usize\<close>.
\<close>

subsection \<open>Constants\<close>

definition WIRE_MAGIC :: u16 where "WIRE_MAGIC = 0x5346"
definition WIRE_VERSION :: u8 where "WIRE_VERSION = 2"
definition HEADER_SIZE :: nat where "HEADER_SIZE = 48"
definition MAX_RECORD_BYTES :: nat where "MAX_RECORD_BYTES = 64 * 1024"

definition NT_DELAY_EXECUTION :: u32 where "NT_DELAY_EXECUTION = 1"
definition NT_CREATE_FILE :: u32 where "NT_CREATE_FILE = 2"
definition NT_WRITE_FILE :: u32 where "NT_WRITE_FILE = 3"
definition NT_CREATE_THREAD_EX :: u32 where "NT_CREATE_THREAD_EX = 4"
definition NT_DELETE_FILE :: u32 where "NT_DELETE_FILE = 5"
definition NT_SET_VALUE_KEY :: u32 where "NT_SET_VALUE_KEY = 6"
definition NT_SET_VALUE_KEY_RUN_KEY :: u32 where "NT_SET_VALUE_KEY_RUN_KEY = 7"
definition NT_ALLOCATE_VM_CROSS_PROCESS :: u32 where "NT_ALLOCATE_VM_CROSS_PROCESS = 8"
definition NT_WRITE_VM_CROSS_PROCESS :: u32 where "NT_WRITE_VM_CROSS_PROCESS = 9"
definition NT_DELETE_FILE_SHADOW_COPY :: u32 where "NT_DELETE_FILE_SHADOW_COPY = 10"
definition LDR_LOAD_DLL :: u32 where "LDR_LOAD_DLL = 11"
definition CRYPT_ENCRYPT :: u32 where "CRYPT_ENCRYPT = 12"
definition SHELL_EXECUTE_EX :: u32 where "SHELL_EXECUTE_EX = 13"
definition WIN_EXEC :: u32 where "WIN_EXEC = 14"

lemmas behavior_api_defs = NT_DELAY_EXECUTION_def NT_CREATE_FILE_def NT_WRITE_FILE_def
  NT_CREATE_THREAD_EX_def NT_DELETE_FILE_def NT_SET_VALUE_KEY_def NT_SET_VALUE_KEY_RUN_KEY_def
  NT_ALLOCATE_VM_CROSS_PROCESS_def NT_WRITE_VM_CROSS_PROCESS_def NT_DELETE_FILE_SHADOW_COPY_def
  LDR_LOAD_DLL_def CRYPT_ENCRYPT_def SHELL_EXECUTE_EX_def WIN_EXEC_def

subsection \<open>Records\<close>

datatype RecordKind =
    KProcessCreated | KProcessExited | KThreadCreated | KThreadExited | KImageLoaded
  | KRegistryKeyCreated | KRegistryKeyDeleted | KRegistrySetValue
  | KFileCreated | KFileWritten | KFileCleanedUp | KFileDeleted | KFileRenamed
  | KDropCaptured | KBehaviorCall | KProtectionEvent

definition from_wire :: "u16 \<Rightarrow> RecordKind option" where
  "from_wire raw =
     (if raw = 1 then Some KProcessCreated
      else if raw = 2 then Some KProcessExited
      else if raw = 3 then Some KThreadCreated
      else if raw = 4 then Some KThreadExited
      else if raw = 5 then Some KImageLoaded
      else if raw = 6 then Some KRegistryKeyCreated
      else if raw = 7 then Some KRegistryKeyDeleted
      else if raw = 8 then Some KRegistrySetValue
      else if raw = 9 then Some KFileCreated
      else if raw = 10 then Some KFileWritten
      else if raw = 11 then Some KFileCleanedUp
      else if raw = 12 then Some KFileDeleted
      else if raw = 13 then Some KFileRenamed
      else if raw = 14 then Some KDropCaptured
      else if raw = 15 then Some KBehaviorCall
      else if raw = 16 then Some KProtectionEvent
      else None)"

datatype DecodeError =
    Truncated nat nat          \<comment> \<open>available, needed\<close>
  | BadMagic u16
  | BadVersion u8
  | BadHeaderSize u16
  | BadSize u32 nat            \<comment> \<open>size, available\<close>
  | Oversize u32
  | UnknownType u16
  | BadString nat nat nat      \<comment> \<open>offset, bytes, record size\<close>

datatype WirePayload =
    ProcessCreated u32 "rstr option" "rstr option"   \<comment> \<open>parent pid, command line, image name\<close>
  | ProcessExited
  | Thread u32
  | ImageLoaded u64 u32 "rstr option"                \<comment> \<open>base, size, name\<close>
  | RegistryKeyCreated rstr
  | RegistryKeyDeleted rstr
  | RegistrySetValue rstr rstr u32 "u8 list"         \<comment> \<open>key path, value name, type, data\<close>
  | FileCreated rstr
  | FileWritten u64 u32 rstr                         \<comment> \<open>offset, bytes, path\<close>
  | FileCleanedUp rstr
  | FileDeleted rstr
  | FileRenamed rstr rstr                            \<comment> \<open>old path, new path\<close>
  | DropCaptured rstr rstr u32                       \<comment> \<open>path, stored name, method\<close>
  | BehaviorCall u32 u32 u64 u64 u64 u64             \<comment> \<open>thread, api, arguments\<close>
  | ProtectionEvent u32 u64 bool u64 u64             \<comment> \<open>pid, create time, is thread, original, stripped\<close>

record Record =
  r_kind :: RecordKind
  r_pid :: u32
  r_sequence :: u64
  r_time :: u64
  r_process_create_time :: u64
  r_trunc_flags :: u8
  r_payload :: WirePayload

subsection \<open>Bounded little-endian readers\<close>

definition trunc :: "nat \<Rightarrow> nat \<Rightarrow> DecodeError" where
  "trunc needed available = Truncated available needed"

definition u8_at :: "u8 list \<Rightarrow> nat \<Rightarrow> DecodeError + u8" where
  "u8_at buf i = ok_or (trunc (i + 1) (length buf)) (get buf i)"

definition u16_at :: "u8 list \<Rightarrow> nat \<Rightarrow> DecodeError + u16" where
  "u16_at buf i =
     bind_r (u8_at buf i) (\<lambda>lo.
     bind_r (u8_at buf (i + 1)) (\<lambda>hi.
     Inr (from_le_bytes [lo, hi])))"

definition u32_at :: "u8 list \<Rightarrow> nat \<Rightarrow> DecodeError + u32" where
  "u32_at buf i =
     bind_r (u8_at buf i) (\<lambda>b0.
     bind_r (u8_at buf (i + 1)) (\<lambda>b1.
     bind_r (u8_at buf (i + 2)) (\<lambda>b2.
     bind_r (u8_at buf (i + 3)) (\<lambda>b3.
     Inr (from_le_bytes [b0, b1, b2, b3])))))"

text \<open>The loop of \<open>u64_at\<close> over the \<open>k\<close> slots still to be filled.\<close>

fun bytes_at :: "u8 list \<Rightarrow> nat \<Rightarrow> nat \<Rightarrow> DecodeError + u8 list" where
  "bytes_at buf i 0 = Inr []"
| "bytes_at buf i (Suc k) =
     bind_r (u8_at buf i) (\<lambda>b. bind_r (bytes_at buf (i + 1) k) (\<lambda>bs. Inr (b # bs)))"

definition u64_at :: "u8 list \<Rightarrow> nat \<Rightarrow> DecodeError + u64" where
  "u64_at buf i = bind_r (bytes_at buf i 8) (\<lambda>bs. Inr (from_le_bytes bs))"

text \<open>\<open>String::from_utf16_lossy\<close>: unpaired surrogates become the replacement character.\<close>

fun from_utf16_lossy :: "nat list \<Rightarrow> rstr" where
  "from_utf16_lossy [] = []"
| "from_utf16_lossy (u # us) =
     (if u < 0xD800 \<or> 0xE000 \<le> u then u # from_utf16_lossy us
      else if 0xDC00 \<le> u then 0xFFFD # from_utf16_lossy us
      else (case us of
              [] \<Rightarrow> [0xFFFD]
            | v # vs \<Rightarrow>
                if 0xDC00 \<le> v \<and> v < 0xE000
                then (0x10000 + (u - 0xD800) * 0x400 + (v - 0xDC00)) # from_utf16_lossy vs
                else 0xFFFD # from_utf16_lossy us))"

text \<open>\<open>as_chunks::<2>().0\<close> with each pair read as a little-endian code unit.\<close>

fun utf16_units :: "u8 list \<Rightarrow> nat list" where
  "utf16_units (lo # hi # rest) = unat (from_le_bytes [lo, hi] :: u16) # utf16_units rest"
| "utf16_units _ = []"

definition str_field :: "u8 list \<Rightarrow> nat \<Rightarrow> nat \<Rightarrow> DecodeError + rstr" where
  "str_field buf offset bytes =
     (if bytes mod 2 \<noteq> 0 then Inl (BadString offset bytes (length buf))
      else if bytes = 0 then Inr []
      else bind_r (ok_or (BadString offset bytes (length buf)) (get_range buf offset (offset + bytes)))
             (\<lambda>slice. Inr (from_utf16_lossy (utf16_units slice))))"

definition string_at :: "u8 list \<Rightarrow> nat \<Rightarrow> nat \<Rightarrow> DecodeError + rstr" where
  "string_at buf offset bytes = str_field buf offset bytes"

text \<open>\<open>if bytes == 0 { None } else { Some(string_at(..)?) }\<close>\<close>

definition opt_string_at :: "u8 list \<Rightarrow> nat \<Rightarrow> nat \<Rightarrow> DecodeError + rstr option" where
  "opt_string_at buf offset bytes =
     (if bytes = 0 then Inr None else bind_r (string_at buf offset bytes) (\<lambda>s. Inr (Some s)))"

text \<open>\<open>u16_at(..)? as usize\<close> and \<open>u32_at(..)? as usize\<close>\<close>

definition u16_usize_at :: "u8 list \<Rightarrow> nat \<Rightarrow> DecodeError + nat" where
  "u16_usize_at buf i = bind_r (u16_at buf i) (\<lambda>w. Inr (unat w))"

definition u32_usize_at :: "u8 list \<Rightarrow> nat \<Rightarrow> DecodeError + nat" where
  "u32_usize_at buf i = bind_r (u32_at buf i) (\<lambda>w. Inr (unat w))"

subsection \<open>Payloads\<close>

fun min_size :: "RecordKind \<Rightarrow> nat" where
  "min_size KProcessExited = 48"
| "min_size KProcessCreated = 60"
| "min_size KDropCaptured = 60"
| "min_size KFileRenamed = 56"
| "min_size KThreadCreated = 52"
| "min_size KThreadExited = 52"
| "min_size KRegistryKeyCreated = 52"
| "min_size KRegistryKeyDeleted = 52"
| "min_size KFileCreated = 52"
| "min_size KFileCleanedUp = 52"
| "min_size KFileDeleted = 52"
| "min_size KImageLoaded = 64"
| "min_size KRegistrySetValue = 64"
| "min_size KFileWritten = 64"
| "min_size KBehaviorCall = 88"
| "min_size KProtectionEvent = 80"

definition parse_registry_set_value :: "u8 list \<Rightarrow> nat \<Rightarrow> DecodeError + WirePayload" where
  "parse_registry_set_value record sz =
     bind_r (u16_usize_at record 48) (\<lambda>key_offset.
     bind_r (u16_usize_at record 50) (\<lambda>key_bytes.
     bind_r (u16_usize_at record 52) (\<lambda>value_offset.
     bind_r (u16_usize_at record 54) (\<lambda>value_bytes.
     bind_r (u32_at record 56) (\<lambda>data_type.
     bind_r (u32_usize_at record 60) (\<lambda>data_bytes.
     bind_r (string_at record key_offset key_bytes) (\<lambda>key_path.
     bind_r (string_at record value_offset value_bytes) (\<lambda>value_name.
     bind_r (ok_or (BadString (value_offset + value_bytes) data_bytes sz)
               (get_range record (value_offset + value_bytes) (value_offset + value_bytes + data_bytes)))
       (\<lambda>data. Inr (RegistrySetValue key_path value_name data_type data))))))))))"

definition parse_drop_captured :: "u8 list \<Rightarrow> DecodeError + WirePayload" where
  "parse_drop_captured record =
     bind_r (u16_usize_at record 48) (\<lambda>path_offset.
     bind_r (u16_usize_at record 50) (\<lambda>path_bytes.
     bind_r (u16_usize_at record 52) (\<lambda>stored_offset.
     bind_r (u16_usize_at record 54) (\<lambda>stored_bytes.
     bind_r (u32_at record 56) (\<lambda>method.
     bind_r (string_at record path_offset path_bytes) (\<lambda>path.
     bind_r (string_at record stored_offset stored_bytes) (\<lambda>stored_name.
     Inr (DropCaptured path stored_name method))))))))"

definition parse_protection_event :: "u8 list \<Rightarrow> DecodeError + WirePayload" where
  "parse_protection_event record =
     bind_r (u32_at record 48) (\<lambda>protected_pid.
     bind_r (u8_at record 52) (\<lambda>is_thread.
     bind_r (u64_at record 56) (\<lambda>protected_create_time.
     bind_r (u64_at record 64) (\<lambda>original_access.
     bind_r (u64_at record 72) (\<lambda>stripped_access.
     Inr (ProtectionEvent protected_pid protected_create_time (is_thread \<noteq> 0)
            original_access stripped_access))))))"

definition parse_behavior_call :: "u8 list \<Rightarrow> DecodeError + WirePayload" where
  "parse_behavior_call record =
     bind_r (u32_at record 48) (\<lambda>thread_id.
     bind_r (u32_at record 52) (\<lambda>api.
     bind_r (u64_at record 56) (\<lambda>arg0.
     bind_r (u64_at record 64) (\<lambda>arg1.
     bind_r (u64_at record 72) (\<lambda>arg2.
     bind_r (u64_at record 80) (\<lambda>arg3.
     Inr (BehaviorCall thread_id api arg0 arg1 arg2 arg3)))))))"

text \<open>The \<open>(offset, bytes)\<close> pair at 48 of the single-path records.\<close>

definition path_48 :: "u8 list \<Rightarrow> DecodeError + rstr" where
  "path_48 record =
     bind_r (u16_usize_at record 48) (\<lambda>path_offset.
     bind_r (u16_usize_at record 50) (\<lambda>path_bytes.
     string_at record path_offset path_bytes))"

definition payload_of :: "RecordKind \<Rightarrow> u8 list \<Rightarrow> nat \<Rightarrow> u32 \<Rightarrow> DecodeError + WirePayload" where
  "payload_of kind record sz size_raw =
     (if sz < min_size kind then Inl (BadSize size_raw (length record)) else
      (case kind of
         KProcessCreated \<Rightarrow>
           bind_r (u32_at record 48) (\<lambda>parent_pid.
           bind_r (u16_usize_at record 52) (\<lambda>cmd_offset.
           bind_r (u16_usize_at record 54) (\<lambda>cmd_bytes.
           bind_r (u16_usize_at record 56) (\<lambda>image_offset.
           bind_r (u16_usize_at record 58) (\<lambda>image_bytes.
           bind_r (opt_string_at record cmd_offset cmd_bytes) (\<lambda>command_line.
           bind_r (opt_string_at record image_offset image_bytes) (\<lambda>image_name.
           Inr (ProcessCreated parent_pid command_line image_name))))))))
       | KProcessExited \<Rightarrow> Inr ProcessExited
       | KThreadCreated \<Rightarrow> bind_r (u32_at record 48) (\<lambda>thread_id. Inr (Thread thread_id))
       | KThreadExited \<Rightarrow> bind_r (u32_at record 48) (\<lambda>thread_id. Inr (Thread thread_id))
       | KImageLoaded \<Rightarrow>
           bind_r (u64_at record 48) (\<lambda>base.
           bind_r (u32_at record 56) (\<lambda>img_size.
           bind_r (u16_usize_at record 60) (\<lambda>name_offset.
           bind_r (u16_usize_at record 62) (\<lambda>name_bytes.
           bind_r (opt_string_at record name_offset name_bytes) (\<lambda>name.
           Inr (ImageLoaded base img_size name))))))
       | KRegistryKeyCreated \<Rightarrow> bind_r (path_48 record) (\<lambda>path. Inr (RegistryKeyCreated path))
       | KRegistryKeyDeleted \<Rightarrow> bind_r (path_48 record) (\<lambda>path. Inr (RegistryKeyDeleted path))
       | KRegistrySetValue \<Rightarrow> parse_registry_set_value record sz
       | KFileCreated \<Rightarrow> bind_r (path_48 record) (\<lambda>path. Inr (FileCreated path))
       | KFileCleanedUp \<Rightarrow> bind_r (path_48 record) (\<lambda>path. Inr (FileCleanedUp path))
       | KFileDeleted \<Rightarrow> bind_r (path_48 record) (\<lambda>path. Inr (FileDeleted path))
       | KFileWritten \<Rightarrow>
           bind_r (u64_at record 48) (\<lambda>offset.
           bind_r (u32_at record 56) (\<lambda>bytes.
           bind_r (u16_usize_at record 60) (\<lambda>path_offset.
           bind_r (u16_usize_at record 62) (\<lambda>path_bytes.
           bind_r (string_at record path_offset path_bytes) (\<lambda>path.
           Inr (FileWritten offset bytes path))))))
       | KFileRenamed \<Rightarrow>
           bind_r (u16_usize_at record 48) (\<lambda>old_offset.
           bind_r (u16_usize_at record 50) (\<lambda>old_bytes.
           bind_r (u16_usize_at record 52) (\<lambda>new_offset.
           bind_r (u16_usize_at record 54) (\<lambda>new_bytes.
           bind_r (string_at record old_offset old_bytes) (\<lambda>old_path.
           bind_r (string_at record new_offset new_bytes) (\<lambda>new_path.
           Inr (FileRenamed old_path new_path)))))))
       | KDropCaptured \<Rightarrow> parse_drop_captured record
       | KBehaviorCall \<Rightarrow> parse_behavior_call record
       | KProtectionEvent \<Rightarrow> parse_protection_event record))"

subsection \<open>Records and batches\<close>

definition decode :: "u8 list \<Rightarrow> DecodeError + Record" where
  "decode buf =
     (if length buf < HEADER_SIZE then Inl (Truncated (length buf) HEADER_SIZE) else
     bind_r (u16_at buf 0) (\<lambda>magic.
     if magic \<noteq> WIRE_MAGIC then Inl (BadMagic magic) else
     bind_r (u8_at buf 2) (\<lambda>version.
     if version \<noteq> WIRE_VERSION then Inl (BadVersion version) else
     bind_r (u8_at buf 3) (\<lambda>trunc_flags.
     bind_r (u16_at buf 4) (\<lambda>raw_type.
     bind_r (u16_at buf 6) (\<lambda>header_size.
     if unat header_size \<noteq> HEADER_SIZE then Inl (BadHeaderSize header_size) else
     bind_r (u32_at buf 8) (\<lambda>pid.
     bind_r (u64_at buf 16) (\<lambda>sequence.
     bind_r (u64_at buf 24) (\<lambda>time.
     bind_r (u64_at buf 32) (\<lambda>process_create_time.
     bind_r (u32_at buf 40) (\<lambda>size_raw.
     if unat size_raw < HEADER_SIZE \<or> unat size_raw > length buf
     then Inl (BadSize size_raw (length buf))
     else if unat size_raw > MAX_RECORD_BYTES then Inl (Oversize size_raw)
     else
     bind_r (ok_or (trunc (unat size_raw) (length buf)) (get_range buf 0 (unat size_raw))) (\<lambda>record.
     bind_r (ok_or (UnknownType raw_type) (from_wire raw_type)) (\<lambda>kind.
     bind_r (payload_of kind record (unat size_raw) size_raw) (\<lambda>payload.
     Inr \<lparr> r_kind = kind, r_pid = pid, r_sequence = sequence, r_time = time,
           r_process_create_time = process_create_time, r_trunc_flags = trunc_flags,
           r_payload = payload \<rparr>))))))))))))))"

definition record_size :: "u8 list \<Rightarrow> DecodeError + nat" where
  "record_size buf =
     bind_r (u32_at buf 40) (\<lambda>size_raw.
     if unat size_raw < HEADER_SIZE \<or> unat size_raw > length buf
     then Inl (BadSize size_raw (length buf)) else Inr (unat size_raw))"

lemma record_size_bounds: "record_size buf = Inr n \<Longrightarrow> HEADER_SIZE \<le> n \<and> n \<le> length buf"
  by (auto simp: record_size_def bind_r_eq_Inr split: if_splits)

text \<open>The drain loop of \<open>decode_all\<close>; it ends because every record is at least a header long.\<close>

function decode_all_from :: "u8 list \<Rightarrow> Record list \<Rightarrow> DecodeError + Record list" where
  "decode_all_from rest records =
     (if rest = [] then Inr records else
     bind_r (decode rest) (\<lambda>record.
     bind_r (record_size rest) (\<lambda>consumed.
     bind_r (ok_or (trunc consumed (length rest)) (get_range rest consumed (length rest))) (\<lambda>rest'.
     decode_all_from rest' (records @ [record])))))"
  by pat_completeness auto
termination
  by (relation "measure (\<lambda>(rest, _). length rest)")
     (auto simp: get_range_def HEADER_SIZE_def dest!: record_size_bounds split: if_splits)

declare decode_all_from.simps [simp del]

definition decode_all :: "u8 list \<Rightarrow> DecodeError + Record list" where
  "decode_all buf = decode_all_from buf []"

subsection \<open>The readers\<close>

lemma bind_r_assoc: "bind_r (bind_r r f) g = bind_r r (\<lambda>x. bind_r (f x) g)"
  by (cases r) auto

lemma u8_at_ok [wire_simps]: "i < length buf \<Longrightarrow> u8_at buf i = Inr (buf ! i)"
  by (simp add: u8_at_def get_def)

lemma bytes_at_ok: "i + k \<le> length buf \<Longrightarrow> bytes_at buf i k = Inr (take k (drop i buf))"
proof (induction k arbitrary: i)
  case (Suc k)
  then have "drop i buf = buf ! i # drop (Suc i) buf" by (simp add: Cons_nth_drop_Suc)
  with Suc show ?case by (simp add: u8_at_ok)
qed simp

lemma u16_at_bytes: "u16_at buf i = bind_r (bytes_at buf i 2) (\<lambda>bs. Inr (from_le_bytes bs))"
  by (simp add: u16_at_def numeral_2_eq_2 bind_r_assoc)

lemma u32_at_bytes: "u32_at buf i = bind_r (bytes_at buf i 4) (\<lambda>bs. Inr (from_le_bytes bs))"
  by (simp add: u32_at_def eval_nat_numeral bind_r_assoc)

lemma u16_at_ok [wire_simps]:
    "i + 2 \<le> length buf \<Longrightarrow> u16_at buf i = Inr (from_le_bytes (take 2 (drop i buf)))"
  and u32_at_ok [wire_simps]:
    "i + 4 \<le> length buf \<Longrightarrow> u32_at buf i = Inr (from_le_bytes (take 4 (drop i buf)))"
  and u64_at_ok [wire_simps]:
    "i + 8 \<le> length buf \<Longrightarrow> u64_at buf i = Inr (from_le_bytes (take 8 (drop i buf)))"
  by (simp_all add: u16_at_bytes u32_at_bytes u64_at_def bytes_at_ok)

lemma u16_usize_at_ok [wire_simps]:
    "i + 2 \<le> length buf \<Longrightarrow>
     u16_usize_at buf i = Inr (unat (from_le_bytes (take 2 (drop i buf)) :: u16))"
  and u32_usize_at_ok [wire_simps]:
    "i + 4 \<le> length buf \<Longrightarrow>
     u32_usize_at buf i = Inr (unat (from_le_bytes (take 4 (drop i buf)) :: u32))"
  by (simp_all add: u16_usize_at_def u32_usize_at_def wire_simps)

subsection \<open>No read leaves the record\<close>

definition no_trunc :: "DecodeError + 'a \<Rightarrow> bool" where
  "no_trunc r \<longleftrightarrow> (\<forall>a n. r \<noteq> Inl (Truncated a n))"

lemma no_trunc_Inr [simp]: "no_trunc (Inr x)"
  by (simp add: no_trunc_def)

lemma no_trunc_bind: "no_trunc r \<Longrightarrow> (\<And>x. no_trunc (f x)) \<Longrightarrow> no_trunc (bind_r r f)"
  by (cases r) (auto simp: no_trunc_def)

lemma no_trunc_string_at: "no_trunc (string_at buf off n)"
  by (auto simp: string_at_def str_field_def no_trunc_def bind_r_eq_Inl ok_or_def split: option.splits)

lemma no_trunc_opt_string_at: "no_trunc (opt_string_at buf off n)"
  by (auto simp: opt_string_at_def intro!: no_trunc_bind no_trunc_string_at)

lemma no_trunc_ok_or: "no_trunc (ok_or (BadString a b c) x)"
  by (cases x) (auto simp: no_trunc_def)

lemmas no_trunc_rules = no_trunc_bind no_trunc_string_at no_trunc_opt_string_at no_trunc_ok_or

lemma payload_of_no_trunc:
  assumes "length record = sz"
  shows "no_trunc (payload_of kind record sz size_raw)"
proof (cases "sz < min_size kind")
  case True
  then show ?thesis by (simp add: payload_of_def no_trunc_def)
next
  case False
  with assms show ?thesis
    by (cases kind)
       (simp_all add: payload_of_def parse_registry_set_value_def parse_drop_captured_def
          parse_protection_event_def parse_behavior_call_def path_48_def wire_simps no_trunc_rules)
qed

lemma payload_of_take_no_trunc:
  "n \<le> length buf \<Longrightarrow> payload_of kind (take n buf) n raw \<noteq> Inl (Truncated a b)"
  using payload_of_no_trunc [of "take n buf" n kind raw] by (simp add: no_trunc_def)

lemma decode_no_trunc: "HEADER_SIZE \<le> length buf \<Longrightarrow> no_trunc (decode buf)"
  unfolding decode_def HEADER_SIZE_def
  by (auto simp: wire_simps get_range_def no_trunc_def bind_r_eq_Inl ok_or_def
        payload_of_take_no_trunc split: option.splits)

subsection \<open>Which buffers decode\<close>

abbreviation field :: "nat \<Rightarrow> nat \<Rightarrow> u8 list \<Rightarrow> 'a::len word" where
  "field i k buf \<equiv> from_le_bytes (take k (drop i buf))"

definition declared_size :: "u8 list \<Rightarrow> nat" where
  "declared_size buf = unat (field 40 4 buf :: u32)"

definition good_header :: "u8 list \<Rightarrow> bool" where
  "good_header buf \<longleftrightarrow> HEADER_SIZE \<le> length buf \<and> field 0 2 buf = WIRE_MAGIC
     \<and> buf ! 2 = WIRE_VERSION \<and> unat (field 6 2 buf :: u16) = HEADER_SIZE
     \<and> HEADER_SIZE \<le> declared_size buf \<and> declared_size buf \<le> length buf
     \<and> declared_size buf \<le> MAX_RECORD_BYTES"

definition mk_record :: "u8 list \<Rightarrow> RecordKind \<Rightarrow> WirePayload \<Rightarrow> Record" where
  "mk_record buf kind p = \<lparr> r_kind = kind, r_pid = field 8 4 buf, r_sequence = field 16 8 buf,
     r_time = field 24 8 buf, r_process_create_time = field 32 8 buf, r_trunc_flags = buf ! 3,
     r_payload = p \<rparr>"

lemma decode_eq_Inr:
  "decode buf = Inr r \<longleftrightarrow> good_header buf \<and>
     (\<exists>kind p. from_wire (field 4 2 buf) = Some kind
       \<and> payload_of kind (take (declared_size buf) buf) (declared_size buf) (field 40 4 buf) = Inr p
       \<and> r = mk_record buf kind p)"
proof (cases "HEADER_SIZE \<le> length buf")
  case True
  then show ?thesis
    unfolding decode_def good_header_def mk_record_def declared_size_def HEADER_SIZE_def
    by (auto simp: wire_simps get_range_def bind_r_eq_Inr)
next
  case False
  then show ?thesis by (simp add: decode_def good_header_def)
qed

lemma record_size_eq: "HEADER_SIZE \<le> length buf \<Longrightarrow> record_size buf =
  (if declared_size buf < HEADER_SIZE \<or> declared_size buf > length buf
   then Inl (BadSize (field 40 4 buf) (length buf)) else Inr (declared_size buf))"
  by (simp add: record_size_def declared_size_def HEADER_SIZE_def wire_simps)

lemma good_header_record_size: "good_header buf \<Longrightarrow> record_size buf = Inr (declared_size buf)"
  by (simp add: record_size_eq good_header_def)

text \<open>Two buffers that agree on a whole record decode to the same one.\<close>

lemma take_drop_header: "i + k \<le> HEADER_SIZE \<Longrightarrow> HEADER_SIZE \<le> n \<Longrightarrow>
  take k (drop i (take n buf)) = take k (drop i buf)"
  by (simp add: drop_take min_absorb1)

lemma header_take:
  assumes "HEADER_SIZE \<le> n" "n \<le> length buf"
  shows "declared_size (take n buf) = declared_size buf"
    and "from_wire (field 4 2 (take n buf)) = from_wire (field 4 2 buf)"
    and "mk_record (take n buf) = mk_record buf"
    and "field 40 4 (take n buf) = (field 40 4 buf :: u32)"
    and "good_header (take n buf) \<longleftrightarrow> good_header buf \<and> declared_size buf \<le> n"
proof -
  note H = take_drop_header [OF _ assms(1), of _ _ buf]
  have nth: "take n buf ! 2 = buf ! 2" "take n buf ! 3 = buf ! 3"
    using assms by (simp_all add: HEADER_SIZE_def)
  show "declared_size (take n buf) = declared_size buf"
    "from_wire (field 4 2 (take n buf)) = from_wire (field 4 2 buf)"
    "mk_record (take n buf) = mk_record buf"
    "field 40 4 (take n buf) = (field 40 4 buf :: u32)"
    by (simp_all add: declared_size_def mk_record_def fun_eq_iff HEADER_SIZE_def H nth)
  then show "good_header (take n buf) \<longleftrightarrow> good_header buf \<and> declared_size buf \<le> n"
    using assms nth H [of 0 2] H [of 6 2]
    by (auto simp: good_header_def HEADER_SIZE_def)
qed

lemma decode_take:
  assumes "decode buf = Inr r" "declared_size buf \<le> n" "n \<le> length buf"
  shows "decode (take n buf) = Inr r"
proof -
  from assms(1) have g: "good_header buf" by (simp add: decode_eq_Inr)
  with assms(2) have n: "HEADER_SIZE \<le> n" by (simp add: good_header_def)
  from assms g show ?thesis
    by (auto simp: decode_eq_Inr header_take [OF n assms(3)] min_absorb1)
qed

lemma decode_append:
  assumes "decode buf = Inr r"
  shows "decode (buf @ trail) = Inr r" "declared_size (buf @ trail) = declared_size buf"
proof -
  let ?n = "length buf"
  from assms have g: "good_header buf" by (simp add: decode_eq_Inr)
  then have n: "HEADER_SIZE \<le> ?n" by (simp add: good_header_def)
  note T = header_take [OF n, of "buf @ trail", simplified]
  from g have "declared_size buf \<le> ?n" by (simp add: good_header_def)
  with assms show "decode (buf @ trail) = Inr r" by (auto simp: decode_eq_Inr T)
  show "declared_size (buf @ trail) = declared_size buf" by (simp add: T)
qed

subsection \<open>Decoding never reads past the header unchecked\<close>

text \<open>
  Once the 48 header bytes are there, the decoder never runs out of bytes: the minimum sizes of
  \<open>min_size\<close> cover every fixed field each record kind reads, so a record that is too short is
  reported as \<open>BadSize\<close> or \<open>BadString\<close>, never as a truncated read in the middle of a field.
\<close>

theorem decode_never_truncates_inside:
  assumes "HEADER_SIZE \<le> length buf"
  shows "decode buf \<noteq> Inl (Truncated a n)"
  using decode_no_trunc [OF assms] by (simp add: no_trunc_def)

theorem decode_never_truncates_inside_witness:
  "HEADER_SIZE \<le> length (replicate 48 (0 :: u8)) \<and> decode (replicate 48 0) \<noteq> Inl (Truncated 48 50)"
proof -
  have h: "HEADER_SIZE \<le> length (replicate 48 (0 :: u8))" by (simp add: HEADER_SIZE_def)
  show ?thesis using h decode_never_truncates_inside [OF h, of 48 50] by blast
qed

subsection \<open>Batches\<close>

text \<open>One complete record: the buffer decodes and is exactly as long as the record says.\<close>

definition is_frame :: "u8 list \<Rightarrow> Record \<Rightarrow> bool" where
  "is_frame buf r \<longleftrightarrow> decode buf = Inr r \<and> record_size buf = Inr (length buf)"

lemma is_frame_nonempty: "is_frame buf r \<Longrightarrow> buf \<noteq> []"
  by (auto simp: is_frame_def decode_eq_Inr good_header_def HEADER_SIZE_def)

lemma is_frame_declared: "is_frame buf r \<Longrightarrow> declared_size buf = length buf"
  by (auto simp: is_frame_def decode_eq_Inr good_header_record_size)

lemma decode_record_size: "decode buf = Inr r \<Longrightarrow> record_size buf = Inr (declared_size buf)"
  by (auto simp: decode_eq_Inr good_header_record_size)

lemma is_frame_take: "decode buf = Inr r \<Longrightarrow> is_frame (take (declared_size buf) buf) r"
proof -
  assume d: "decode buf = Inr r"
  then have g: "HEADER_SIZE \<le> declared_size buf" "declared_size buf \<le> length buf"
    by (auto simp: decode_eq_Inr good_header_def)
  from decode_take [OF d order_refl g(2)] g show ?thesis
    by (simp add: is_frame_def decode_record_size header_take(1) [OF g])
qed

lemma decode_all_from_step:
  assumes "is_frame buf r"
  shows "decode_all_from (buf @ rest) acc = decode_all_from rest (acc @ [r])"
proof -
  from assms have d: "decode (buf @ rest) = Inr r" and "declared_size (buf @ rest) = length buf"
    by (simp_all add: decode_append is_frame_def is_frame_declared [OF assms])
  then have "record_size (buf @ rest) = Inr (length buf)" by (simp add: decode_record_size)
  with d is_frame_nonempty [OF assms] show ?thesis
    by (subst decode_all_from.simps) (simp add: get_range_def)
qed

lemma decode_all_from_frames:
  "list_all2 is_frame bufs rs \<Longrightarrow> decode_all_from (concat bufs) acc = Inr (acc @ rs)"
proof (induction bufs rs arbitrary: acc rule: list_all2_induct)
  case Nil
  then show ?case by (simp add: decode_all_from.simps)
next
  case (Cons b bs r rs)
  then show ?case by (simp add: decode_all_from_step)
qed

lemma decode_all_from_complete:
  "decode_all_from buf acc = Inr out \<Longrightarrow>
   \<exists>bufs rs. buf = concat bufs \<and> list_all2 is_frame bufs rs \<and> out = acc @ rs"
proof (induction buf acc arbitrary: out rule: decode_all_from.induct)
  case (1 buf acc)
  show ?case
  proof (cases "buf = []")
    case True
    with "1.prems" show ?thesis
      by (simp add: decode_all_from.simps)
  next
    case False
    with "1.prems" obtain r n rest where d: "decode buf = Inr r" and n: "record_size buf = Inr n"
      and rest: "get_range buf n (length buf) = Some rest"
      and rec: "decode_all_from rest (acc @ [r]) = Inr out"
      by (auto simp: decode_all_from.simps [of buf] bind_r_eq_Inr)
    from d n have n': "n = declared_size buf" by (simp add: decode_record_size)
    from rest have "rest = drop n buf" by (auto simp: get_range_def split: if_splits)
    then have buf: "buf = take n buf @ rest" by simp
    from rest have "ok_or (trunc n (length buf)) (get_range buf n (length buf)) = Inr rest" by simp
    from "1.IH" [OF False d n this rec] obtain bufs rs
      where "rest = concat bufs" "list_all2 is_frame bufs rs" "out = (acc @ [r]) @ rs" by blast
    with buf is_frame_take [OF d] n' show ?thesis
      by (intro exI [of _ "take n buf # bufs"] exI [of _ "r # rs"]) auto
  qed
qed

text \<open>
  C9. A drain buffer decodes to a list of records exactly when it is a concatenation of complete
  records: \<open>decode_all\<close> splits a batch at the declared sizes, keeps the order, and accepts no
  buffer with a malformed or partial record anywhere in it.
\<close>

theorem decode_all_iff_frames:
  "decode_all buf = Inr rs \<longleftrightarrow> (\<exists>bufs. buf = concat bufs \<and> list_all2 is_frame bufs rs)"
  using decode_all_from_complete [of buf "[]" rs]
  by (auto simp: decode_all_def decode_all_from_frames)

text \<open>
  Trailing bytes are ignored: what a record decodes to, and how far it extends, does not change
  when further records (or anything else) follow it in the buffer.
\<close>

theorem decode_ignores_trailing_bytes:
  assumes "decode buf = Inr r"
  shows "decode (buf @ trail) = Inr r \<and> record_size (buf @ trail) = record_size buf"
  using assms by (auto simp: decode_append decode_record_size)

subsection \<open>The layout the driver writes\<close>

text \<open>
  The 48-byte header as the layout contract fixes it: magic, version, truncation flags, type, header
  size, pid, padding, sequence, time, process creation time, total size, padding.
\<close>

definition header_bytes :: "u8 \<Rightarrow> u16 \<Rightarrow> u32 \<Rightarrow> u64 \<Rightarrow> u64 \<Rightarrow> u64 \<Rightarrow> u32 \<Rightarrow> u8 list" where
  "header_bytes flags raw_type pid sequence time create_time sz =
     to_le_bytes WIRE_MAGIC @ [WIRE_VERSION, flags] @ to_le_bytes raw_type @ to_le_bytes (48 :: u16)
     @ to_le_bytes pid @ [0, 0, 0, 0] @ to_le_bytes sequence @ to_le_bytes time
     @ to_le_bytes create_time @ to_le_bytes sz @ [0, 0, 0, 0]"

lemma length_header_bytes [simp]: "length (header_bytes f t p s ti c z) = 48"
  by (simp add: header_bytes_def)

lemma le_bytes_words [simp]:
  "from_le_bytes (to_le_bytes w2) = (w2 :: u16)"
  "from_le_bytes (to_le_bytes w4) = (w4 :: u32)"
  "from_le_bytes (to_le_bytes w8) = (w8 :: u64)"
  by (simp_all add: from_to_le_bytes)

lemma header_fields:
  fixes flags raw_type pid sequence time ct sz
  defines "h \<equiv> header_bytes flags raw_type pid sequence time ct sz"
  shows "from_le_bytes (take 2 h) = WIRE_MAGIC" "h ! 2 = WIRE_VERSION" "h ! 3 = flags"
    "field 4 2 h = raw_type" "field 6 2 h = (48 :: u16)" "field 8 4 h = pid"
    "field 16 8 h = sequence" "field 24 8 h = time" "field 32 8 h = ct" "field 40 4 h = sz"
  by (simp_all add: h_def header_bytes_def nth_append)

lemma decode_header_bytes:
  assumes "unat sz = 48 + length body" "unat sz \<le> MAX_RECORD_BYTES" "from_wire raw_type = Some kind"
    and "payload_of kind (header_bytes flags raw_type pid sequence time ct sz @ body) (unat sz) sz = Inr p"
  shows "decode (header_bytes flags raw_type pid sequence time ct sz @ body) =
    Inr \<lparr> r_kind = kind, r_pid = pid, r_sequence = sequence, r_time = time,
      r_process_create_time = ct, r_trunc_flags = flags, r_payload = p \<rparr>"
  using assms
  by (auto simp: decode_eq_Inr good_header_def mk_record_def header_fields HEADER_SIZE_def
        declared_size_def nth_append)

text \<open>
  Round trip of a sensor report: a behavior-call record written with the pinned layout decodes to
  exactly the identity, timing, flags, thread, API id and raw argument values that were written.
\<close>

theorem decode_behavior_call_roundtrip:
  "decode (header_bytes flags 15 pid sequence time ct 88 @ to_le_bytes tid @ to_le_bytes api
       @ to_le_bytes a0 @ to_le_bytes a1 @ to_le_bytes a2 @ to_le_bytes a3) =
   Inr \<lparr> r_kind = KBehaviorCall, r_pid = pid, r_sequence = sequence, r_time = time,
     r_process_create_time = ct, r_trunc_flags = flags,
     r_payload = BehaviorCall tid api a0 a1 a2 a3 \<rparr>"
  by (rule decode_header_bytes)
     (simp_all add: MAX_RECORD_BYTES_def from_wire_def payload_of_def parse_behavior_call_def wire_simps)

definition minimal_rename_fixture :: "u8 list" where
  "minimal_rename_fixture = [70, 83, 2, 192, 13, 0, 48, 0, 236, 3, 0, 0, 0, 0, 0, 0, 1, 0, 0, 0, 0, 0,
     0, 0, 1, 0, 0, 0, 0, 0, 217, 1, 236, 3, 0, 0, 0, 0, 200, 1, 56, 0, 0, 0, 0, 0, 0, 0, 0, 0, 0, 0,
     0, 0, 0, 0]"

lemma decode_minimal_rename_fixture:
  "decode minimal_rename_fixture = Inr \<lparr> r_kind = KFileRenamed, r_pid = 1004, r_sequence = 1,
     r_time = 0x1D9000000000001, r_process_create_time = 0x1C80000000003EC, r_trunc_flags = 192,
     r_payload = FileRenamed [] [] \<rparr>"
  by (simp add: minimal_rename_fixture_def decode_def WIRE_MAGIC_def WIRE_VERSION_def HEADER_SIZE_def
        MAX_RECORD_BYTES_def wire_simps from_le_bytes_def get_range_def from_wire_def payload_of_def
        string_at_def str_field_def)

theorem decode_ignores_trailing_bytes_witness:
  "(\<exists>r. decode minimal_rename_fixture = Inr r \<and> decode (minimal_rename_fixture @ [1, 2, 3]) = Inr r)"
  using decode_ignores_trailing_bytes [OF decode_minimal_rename_fixture, of "[1, 2, 3]"]
    decode_minimal_rename_fixture by blast

end
