(* ===== verification/Ipc_Frame.thy ===== *)
theory Ipc_Frame
  imports Prelude
begin

text \<open>
  The frame schema of the agent/user-actor pipe (\<^verbatim>\<open>crates/protocol/src/ipc\<close>): the 8-byte header, the
  screenshot payload, and reading a frame off a byte stream as both peers do it. A locale states what
  a fixed-width codec promises; the header codec is an instance, and the stream lemmas are proved
  once from the contract.
\<close>

subsection \<open>Header\<close>

definition HEADER_LEN :: nat where "HEADER_LEN = 8"
definition MAX_PAYLOAD_LEN :: nat where "MAX_PAYLOAD_LEN = 16 * 1024 * 1024"

definition HELLO :: u16 where "HELLO = 0x0001"
definition WELCOME :: u16 where "WELCOME = 0x0002"
definition GET_CONFIG :: u16 where "GET_CONFIG = 0x0003"
definition SCREENSHOT :: u16 where "SCREENSHOT = 0x0010"
definition ERROR :: u16 where "ERROR = 0x007F"

lemmas message_type_defs = HELLO_def WELCOME_def GET_CONFIG_def SCREENSHOT_def ERROR_def

definition is_known :: "u16 \<Rightarrow> bool" where
  "is_known value \<longleftrightarrow> value = HELLO \<or> value = WELCOME \<or> value = GET_CONFIG \<or> value = SCREENSHOT
     \<or> value = ERROR"

record FrameHeader =
  fh_payload_len :: u32
  fh_message_type :: u16
  fh_flags :: u16

datatype FrameError =
    FrameTruncated nat
  | PayloadTooLong u32
  | FrameUnknownType u16
  | ReservedFlags u16
  | MalformedScreenshot nat nat

definition to_bytes :: "FrameHeader \<Rightarrow> u8 list" where
  "to_bytes h = to_le_bytes (fh_payload_len h) @ to_le_bytes (fh_message_type h) @ to_le_bytes (fh_flags h)"

text \<open>
  \<open>try_into\<close> turns a slice into a fixed-size array and fails when the length differs. The flags
  slice is everything after byte 6, so it has two bytes exactly when the input has eight.
\<close>

definition try_into :: "nat \<Rightarrow> FrameError \<Rightarrow> u8 list \<Rightarrow> FrameError + u8 list" where
  "try_into n e bs = (if length bs = n then Inr bs else Inl e)"

definition from_bytes :: "u8 list \<Rightarrow> FrameError + FrameHeader" where
  "from_bytes bs =
     (if length bs < HEADER_LEN then Inl (FrameTruncated (length bs)) else
      let len_bytes = take 4 bs; rest = drop 4 bs; mt_bytes = take 2 rest; fl_bytes = drop 2 rest in
      bind_r (try_into 4 (FrameTruncated (length bs)) len_bytes) (\<lambda>lb.
      let payload_len = from_le_bytes lb in
      bind_r (try_into 2 (FrameTruncated (length bs)) mt_bytes) (\<lambda>mb.
      let message_type = from_le_bytes mb in
      bind_r (try_into 2 (FrameTruncated (length bs)) fl_bytes) (\<lambda>fb.
      let flags = from_le_bytes fb in
      if unat payload_len > MAX_PAYLOAD_LEN then Inl (PayloadTooLong payload_len)
      else if \<not> is_known message_type then Inl (FrameUnknownType message_type)
      else if flags \<noteq> 0 then Inl (ReservedFlags flags)
      else Inr \<lparr> fh_payload_len = payload_len, fh_message_type = message_type, fh_flags = flags \<rparr>))))"

definition valid_header :: "FrameHeader \<Rightarrow> bool" where
  "valid_header h \<longleftrightarrow> unat (fh_payload_len h) \<le> MAX_PAYLOAD_LEN \<and> is_known (fh_message_type h)
     \<and> fh_flags h = 0"

subsection \<open>Screenshot payload\<close>

definition SCREENSHOT_SEQ_LEN :: nat where "SCREENSHOT_SEQ_LEN = 4"

definition encode_screenshot :: "u32 \<Rightarrow> u8 list \<Rightarrow> u8 list" where
  "encode_screenshot seq jpeg = to_le_bytes seq @ jpeg"

definition decode_screenshot :: "u8 list \<Rightarrow> FrameError + (u32 \<times> u8 list)" where
  "decode_screenshot payload =
     (if length payload < SCREENSHOT_SEQ_LEN
      then Inl (MalformedScreenshot SCREENSHOT_SEQ_LEN (length payload)) else
      let seq_bytes = take SCREENSHOT_SEQ_LEN payload; jpeg = drop SCREENSHOT_SEQ_LEN payload in
      bind_r (try_into 4 (MalformedScreenshot SCREENSHOT_SEQ_LEN (length payload)) seq_bytes) (\<lambda>sb.
      Inr (from_le_bytes sb, jpeg)))"

subsection \<open>Fixed-width codecs\<close>

locale fixed_codec =
  fixes width :: nat
    and enc :: "'a \<Rightarrow> u8 list"
    and dec :: "u8 list \<Rightarrow> 'e + 'a"
    and valid :: "'a \<Rightarrow> bool"
  assumes enc_width: "length (enc x) = width"
    and dec_enc: "valid x \<Longrightarrow> dec (enc x) = Inr x"
    and enc_dec: "dec bs = Inr x \<Longrightarrow> valid x \<and> bs = enc x"
begin

lemma dec_iff: "dec bs = Inr x \<longleftrightarrow> valid x \<and> bs = enc x"
  using dec_enc enc_dec by blast

lemma enc_inj: "valid x \<Longrightarrow> valid y \<Longrightarrow> enc x = enc y \<Longrightarrow> x = y"
  by (metis dec_enc sum.inject(2))

lemma enc_prefix_free:
  "valid x \<Longrightarrow> valid y \<Longrightarrow> enc x @ bs = enc y @ cs \<Longrightarrow> x = y \<and> bs = cs"
  using enc_inj enc_width by (metis append_eq_append_conv)

end

lemma from_bytes_to_bytes: "valid_header h \<Longrightarrow> from_bytes (to_bytes h) = Inr h"
  by (simp add: from_bytes_def to_bytes_def valid_header_def HEADER_LEN_def try_into_def from_to_le_bytes
        not_less)

lemma from_bytes_Inr:
  assumes "from_bytes bs = Inr h"
  shows "valid_header h" "bs = to_bytes h"
proof -
  from assms have len: "length bs = 8"
    by (auto simp: from_bytes_def HEADER_LEN_def try_into_def Let_def bind_r_eq_Inr split: if_splits)
  with assms show "valid_header h"
    by (auto simp: from_bytes_def HEADER_LEN_def try_into_def Let_def valid_header_def split: if_splits)
  from assms len have "fh_payload_len h = from_le_bytes (take 4 bs)"
    "fh_message_type h = from_le_bytes (take 2 (drop 4 bs))" "fh_flags h = from_le_bytes (drop 6 bs)"
    by (auto simp: from_bytes_def HEADER_LEN_def try_into_def Let_def split: if_splits)
  with len have "to_bytes h = take 4 bs @ take 2 (drop 4 bs) @ drop 6 bs"
    by (simp add: to_bytes_def to_le_bytes_from_le_bytes)
  also have "\<dots> = bs"
    using append_take_drop_id [of 4 bs] append_take_drop_id [of 2 "drop 4 bs"] by simp
  finally show "bs = to_bytes h" by simp
qed

interpretation header: fixed_codec HEADER_LEN to_bytes from_bytes valid_header
proof
  show "length (to_bytes h) = HEADER_LEN" for h by (simp add: to_bytes_def HEADER_LEN_def)
qed (auto simp: from_bytes_to_bytes dest: from_bytes_Inr)

subsection \<open>Frames on a byte stream\<close>

text \<open>
  What \<open>send_frame\<close> writes, and reading one frame off the bytes the peer has sent
  (\<open>read_frame_or_disconnect\<close>): a stream that ends inside a frame is a disconnect (\<open>Inr None\<close>); a
  header that does not parse, or declares more than the cap, is an error found before any payload
  byte is consumed.
\<close>

datatype ReadError = Protocol FrameError | OverCap u32 nat

definition send_frame :: "u16 \<Rightarrow> u8 list \<Rightarrow> u8 list option" where
  "send_frame message_type payload =
     (if length payload < 2 ^ 32
      then Some (to_bytes \<lparr> fh_payload_len = of_nat (length payload),
                            fh_message_type = message_type, fh_flags = 0 \<rparr> @ payload)
      else None)"

definition read_frame :: "nat \<Rightarrow> u8 list \<Rightarrow> ReadError + ((FrameHeader \<times> u8 list) \<times> u8 list) option" where
  "read_frame payload_cap bytes =
     (if length bytes < HEADER_LEN then Inr None else
      (case from_bytes (take HEADER_LEN bytes) of
         Inl e \<Rightarrow> Inl (Protocol e)
       | Inr frame \<Rightarrow>
           if unat (fh_payload_len frame) > payload_cap then Inl (OverCap (fh_payload_len frame) payload_cap)
           else let rest = drop HEADER_LEN bytes; n = unat (fh_payload_len frame) in
             if length rest < n then Inr None
             else Inr (Some ((frame, take n rest), drop n rest))))"

lemma read_send_frame:
  assumes "is_known t" "length payload \<le> cap" "length payload \<le> MAX_PAYLOAD_LEN"
    and "send_frame t payload = Some bs"
  shows "read_frame cap (bs @ rest) =
    Inr (Some ((\<lparr> fh_payload_len = of_nat (length payload), fh_message_type = t, fh_flags = 0 \<rparr>, payload), rest))"
proof -
  let ?h = "\<lparr> fh_payload_len = of_nat (length payload) :: u32, fh_message_type = t, fh_flags = 0 \<rparr>"
  from assms have bs: "bs = to_bytes ?h @ payload" and n: "unat (of_nat (length payload) :: u32) = length payload"
    by (auto simp: send_frame_def unat_of_nat take_bit_eq_mod split: if_splits)
  then have "valid_header ?h" using assms by (simp add: valid_header_def)
  then have "from_bytes (to_bytes ?h) = Inr ?h" by (rule header.dec_enc)
  then show ?thesis using assms(2) n by (simp add: bs read_frame_def header.enc_width)
qed

text \<open>
  Frame round trip: a frame of a known type and legal size that one peer sends is read back by
  the other as the same type and payload, with nothing of what follows on the stream consumed.
\<close>

theorem frame_roundtrip:
  assumes "is_known t" "length payload \<le> MAX_PAYLOAD_LEN"
  shows "\<exists>bs h. send_frame t payload = Some bs \<and> fh_message_type h = t
    \<and> read_frame MAX_PAYLOAD_LEN (bs @ rest) = Inr (Some ((h, payload), rest))"
proof -
  from assms have "\<exists>bs. send_frame t payload = Some bs"
    by (simp add: send_frame_def MAX_PAYLOAD_LEN_def)
  then obtain bs where "send_frame t payload = Some bs" ..
  with read_send_frame [OF assms(1,2,2) this, of rest] show ?thesis by fastforce
qed

theorem frame_roundtrip_witness:
  "is_known SCREENSHOT \<and> (\<exists>bs h. send_frame SCREENSHOT [1, 2, 3] = Some bs \<and> fh_message_type h = SCREENSHOT
     \<and> read_frame MAX_PAYLOAD_LEN (bs @ [9]) = Inr (Some ((h, [1, 2, 3]), [9])))"
proof -
  have k: "is_known SCREENSHOT" by (simp add: is_known_def)
  have l: "length [1, 2, 3 :: u8] \<le> MAX_PAYLOAD_LEN" by (simp add: MAX_PAYLOAD_LEN_def)
  show ?thesis using k frame_roundtrip [OF k l, of "[9]"] by blast
qed

text \<open>
  The header decoder accepts exactly the eight-byte encodings of headers with a known type, zero
  flags and a payload length within the 16 MiB cap; it rejects everything else.
\<close>

theorem from_bytes_accepts_exactly:
  "from_bytes bs = Inr h \<longleftrightarrow>
     unat (fh_payload_len h) \<le> MAX_PAYLOAD_LEN \<and> is_known (fh_message_type h) \<and> fh_flags h = 0
     \<and> bs = to_bytes h"
  by (auto simp: header.dec_iff valid_header_def)

text \<open>
  No attacker-chosen allocation: whatever bytes a peer sends, a frame that \<open>read_frame\<close> delivers
  has exactly the payload length its header declares, within both the caller's cap and the protocol
  cap, and the delivered frame followed by the unread rest is the input.
\<close>

theorem read_frame_bounded:
  assumes "read_frame cap bytes = Inr (Some ((h, payload), rest))"
  shows "length payload = unat (fh_payload_len h) \<and> length payload \<le> min cap MAX_PAYLOAD_LEN
    \<and> bytes = to_bytes h @ payload @ rest"
proof -
  let ?n = "unat (fh_payload_len h)"
  from assms have f: "from_bytes (take HEADER_LEN bytes) = Inr h" and c: "?n \<le> cap"
    and l: "?n \<le> length (drop HEADER_LEN bytes)" and p: "payload = take ?n (drop HEADER_LEN bytes)"
    and r: "rest = drop ?n (drop HEADER_LEN bytes)"
    by (auto simp: read_frame_def Let_def split: if_splits sum.splits)
  from header.enc_dec [OF f] have v: "valid_header h" and h: "take HEADER_LEN bytes = to_bytes h" by auto
  have "bytes = take HEADER_LEN bytes @ drop HEADER_LEN bytes" by simp
  also have "\<dots> = to_bytes h @ payload @ rest" by (simp add: h p r del: drop_drop)
  finally have "bytes = to_bytes h @ payload @ rest" .
  moreover have "length payload = ?n" using l p by simp
  ultimately show ?thesis using v c by (simp add: valid_header_def)
qed

theorem read_frame_bounded_witness:
  "\<exists>h. read_frame 4096 (to_bytes \<lparr> fh_payload_len = 1, fh_message_type = HELLO, fh_flags = 0 \<rparr> @ [7, 8])
       = Inr (Some ((h, [7]), [8]))
     \<and> length [7 :: u8] = unat (fh_payload_len h) \<and> length [7 :: u8] \<le> min 4096 MAX_PAYLOAD_LEN
     \<and> to_bytes \<lparr> fh_payload_len = 1, fh_message_type = HELLO, fh_flags = 0 \<rparr> @ [7, 8] = to_bytes h @ [7] @ [8]"
proof -
  let ?h = "\<lparr> fh_payload_len = 1, fh_message_type = HELLO, fh_flags = 0 \<rparr>"
  have "read_frame 4096 (to_bytes ?h @ [7, 8]) = Inr (Some ((?h, [7]), [8]))"
    using read_send_frame [of HELLO "[7]" 4096 _ "[8]"]
    by (simp add: send_frame_def is_known_def MAX_PAYLOAD_LEN_def)
  from read_frame_bounded [OF this] this show ?thesis by blast
qed

text \<open>
  An input longer than a header is refused as \<open>FrameTruncated\<close>, although it is not too short:
  the flags slice keeps everything after byte six.
\<close>

theorem from_bytes_longer_input_truncated:
  assumes "HEADER_LEN < length bs"
  shows "from_bytes bs = Inl (FrameTruncated (length bs))"
  using assms by (auto simp: from_bytes_def try_into_def HEADER_LEN_def Let_def)

theorem from_bytes_longer_input_truncated_witness:
  "from_bytes (replicate 9 0) = Inl (FrameTruncated 9)"
  using from_bytes_longer_input_truncated [of "replicate 9 0"] by (simp add: HEADER_LEN_def)

text \<open>
  Screenshot payload round trip, and the only payloads refused are those without the four
  sequence bytes.
\<close>

theorem screenshot_roundtrip:
  "decode_screenshot (encode_screenshot seq jpeg) = Inr (seq, jpeg)
   \<and> (\<forall>payload. (\<exists>e. decode_screenshot payload = Inl e) \<longleftrightarrow> length payload < SCREENSHOT_SEQ_LEN)"
  by (auto simp: decode_screenshot_def encode_screenshot_def SCREENSHOT_SEQ_LEN_def try_into_def
        from_to_le_bytes Let_def)

end
