(* ===== verification/Path_Text.thy ===== *)
theory Path_Text
  imports Prelude
begin

text \<open>
  The agent's pure text helpers on attacker-chosen Windows paths (\<^verbatim>\<open>crates/agent/src/domain\<close>:
  \<^verbatim>\<open>image_name.rs\<close>, \<^verbatim>\<open>marker.rs\<close>, \<^verbatim>\<open>drop_filter.rs\<close>, \<^verbatim>\<open>drop_copy.rs\<close>). Byte offsets of the sources
  are positions in the code-point list; every offset used is next to an ASCII character, so both
  views cut the string at the same place.
\<close>

subsection \<open>Image names and extensions\<close>

definition is_sep :: "nat \<Rightarrow> bool" where
  "is_sep c \<longleftrightarrow> c = slash \<or> c = backslash"

text \<open>\<open>path.rsplit(['/', '\']).next()\<close>: the part after the last separator.\<close>

definition image_name :: "rstr \<Rightarrow> rstr" where
  "image_name path = rev (takeWhile (\<lambda>c. \<not> is_sep c) (rev path))"

text \<open>\<open>str::rfind\<close> of one character.\<close>

definition rfind :: "nat \<Rightarrow> rstr \<Rightarrow> nat option" where
  "rfind c s = (if c \<in> set s then Some (length s - 1 - length (takeWhile (\<lambda>d. d \<noteq> c) (rev s))) else None)"

definition extension_of :: "rstr \<Rightarrow> rstr option" where
  "extension_of path =
     (let component = image_name path in
      case rfind dot component of
        None \<Rightarrow> None
      | Some d \<Rightarrow> if d = 0 then None else get_range component (d + 1) (length component))"

text \<open>The source looks at the second byte, which is the second character exactly when the first
  one is a single byte long.\<close>

definition is_absolute_path :: "rstr \<Rightarrow> bool" where
  "is_absolute_path path \<longleftrightarrow> starts_with path [backslash] \<or> starts_with path [slash]
     \<or> (path \<noteq> [] \<and> hd path < 128 \<and> get path 1 = Some colon)"

text \<open>\<open>dir.join(name)\<close> for a relative path.\<close>

definition path_join :: "rstr \<Rightarrow> rstr \<Rightarrow> rstr" where
  "path_join dir name = (if dir = [] then name else if is_sep (last dir) then dir @ name
     else dir @ [backslash] @ name)"

subsection \<open>Marker process\<close>

definition strip_exe :: "rstr \<Rightarrow> rstr" where
  "strip_exe value =
     (if 4 \<le> length value \<and> eq_ignore_ascii_case (drop (length value - 4) value) (utf ''.exe'')
      then take (length value - 4) value else value)"

definition is_marker_process :: "rstr \<Rightarrow> rstr \<Rightarrow> bool" where
  "is_marker_process configured observed \<longleftrightarrow>
     (if configured = [] \<or> observed = [] then False
      else eq_ignore_ascii_case (strip_exe observed) (strip_exe configured))"

subsection \<open>Drop filter\<close>

datatype Rule = All | Extensionless | Extension rstr

type_synonym DropFilter = "Rule list"

definition trim_start_dots :: "rstr \<Rightarrow> rstr" where
  "trim_start_dots s = dropWhile (\<lambda>c. c = dot) s"

definition parse_rule :: "(rstr \<Rightarrow> rstr) \<Rightarrow> rstr \<Rightarrow> Rule option" where
  "parse_rule lc raw =
     (let token = lc (trim raw) in
      if token = [] then None
      else if token = utf ''*'' then Some All
      else if token = utf ''none'' then Some Extensionless
      else Some (Extension (trim_start_dots token)))"

definition DropFilter_new :: "(rstr \<Rightarrow> rstr) \<Rightarrow> rstr list \<Rightarrow> DropFilter" where
  "DropFilter_new lc extensions = List.map_filter (parse_rule lc) extensions"

definition rule_matches :: "rstr option \<Rightarrow> Rule \<Rightarrow> bool" where
  "rule_matches extension rule =
     (case rule of
        All \<Rightarrow> True
      | Extensionless \<Rightarrow> (case extension of None \<Rightarrow> True | Some e \<Rightarrow> e = [])
      | Extension expected \<Rightarrow> extension = Some expected)"

definition DropFilter_matches :: "(rstr \<Rightarrow> rstr) \<Rightarrow> DropFilter \<Rightarrow> rstr \<Rightarrow> bool" where
  "DropFilter_matches lc rules path =
     (let extension = map_option lc (extension_of path) in
      list_ex (rule_matches extension) rules)"

subsection \<open>Copy names\<close>

definition MAX_EXTENSION_LEN :: nat where "MAX_EXTENSION_LEN = 16"
definition FALLBACK_EXTENSION :: rstr where "FALLBACK_EXTENSION = utf ''bin''"

text \<open>After the whitelist only ASCII is left, where \<open>to_lowercase\<close> is ASCII lower-casing.\<close>

definition sanitize_extension :: "rstr \<Rightarrow> rstr" where
  "sanitize_extension extension =
     (let cleaned = filter (\<lambda>c. is_ascii_alphanumeric c \<or> c = 45 \<or> c = 95) (take MAX_EXTENSION_LEN extension)
      in if cleaned = [] then FALLBACK_EXTENSION else to_ascii_lowercase cleaned)"

definition hash8 :: "u8 list \<Rightarrow> rstr" where
  "hash8 digest = concat (map hex2 (take 4 digest))"

definition copy_file_name :: "u32 \<Rightarrow> u64 \<Rightarrow> rstr \<Rightarrow> rstr \<Rightarrow> rstr" where
  "copy_file_name session seq hash sanitized_extension =
     show_nat (unat session) @ utf ''-'' @ show_nat (unat seq) @ utf ''-'' @ hash @ utf ''.''
     @ sanitized_extension"

subsection \<open>Lemmas\<close>

lemma image_name_no_sep: "c \<in> set (image_name path) \<Longrightarrow> \<not> is_sep c"
  by (auto simp: image_name_def dest: set_takeWhileD)

lemma image_name_append: "set name \<inter> Collect is_sep = {} \<Longrightarrow> is_sep c \<Longrightarrow> image_name (dir @ c # name) = name"
  by (auto simp: image_name_def takeWhile_append)

lemma image_name_plain: "set name \<inter> Collect is_sep = {} \<Longrightarrow> image_name name = name"
  by (auto simp: image_name_def rev_swap intro!: takeWhile_eq_all_conv [THEN iffD2])

lemma image_name_split:
  "\<exists>dir. path = dir @ image_name path \<and> (dir = [] \<or> is_sep (last dir))"
proof -
  let ?p = "\<lambda>c. \<not> is_sep c"
  have "path = rev (dropWhile ?p (rev path)) @ image_name path"
    by (metis image_name_def rev_append rev_rev_ident takeWhile_dropWhile_id)
  moreover have "rev (dropWhile ?p (rev path)) = [] \<or> is_sep (last (rev (dropWhile ?p (rev path))))"
    using hd_dropWhile [of ?p "rev path"] by (auto simp: last_rev)
  ultimately show ?thesis by blast
qed

lemma rfind_append: "c \<notin> set b \<Longrightarrow> rfind c (a @ c # b) = Some (length a)"
proof -
  assume "c \<notin> set b"
  then have "takeWhile (\<lambda>d. d \<noteq> c) (rev b @ c # rev a) = rev b"
    by (subst takeWhile_append2) auto
  then show ?thesis by (simp add: rfind_def)
qed

lemma extension_of_image_name [simp]: "extension_of (image_name path) = extension_of path"
  by (simp add: extension_of_def image_name_plain image_name_no_sep disjoint_iff)

lemma extension_of_dotted:
  assumes "dot \<notin> set ext" "stem \<noteq> []" "image_name path = stem @ dot # ext"
  shows "extension_of path = Some ext"
  using assms by (simp add: extension_of_def rfind_append get_range_def)

definition safe_char :: "nat \<Rightarrow> bool" where
  "safe_char c \<longleftrightarrow> (48 \<le> c \<and> c \<le> 57) \<or> (97 \<le> c \<and> c \<le> 122) \<or> c = 45 \<or> c = 95"

lemma whitelist_lower: "is_ascii_alphanumeric c \<or> c = 45 \<or> c = 95 \<Longrightarrow> safe_char (ascii_lower c)"
  by (auto simp: is_ascii_alphanumeric_def ascii_lower_def safe_char_def)

text \<open>
  Whatever file name the malware chose, the extension used for a copy is not empty, at most 16
  characters long and made of lower-case ASCII letters, digits, hyphen and underscore only: no
  separator, no dot, and no colon that could name an alternate data stream.
\<close>

theorem sanitize_extension_safe:
  "sanitize_extension e \<noteq> [] \<and> length (sanitize_extension e) \<le> 16
   \<and> list_all safe_char (sanitize_extension e)"
proof -
  let ?c = "filter (\<lambda>c. is_ascii_alphanumeric c \<or> c = 45 \<or> c = 95) (take MAX_EXTENSION_LEN e)"
  have "length ?c \<le> 16"
    by (rule order_trans [OF length_filter_le]) (simp add: MAX_EXTENSION_LEN_def)
  moreover have "list_all safe_char (to_ascii_lowercase ?c)"
    using whitelist_lower by (fastforce simp: list_all_iff to_ascii_lowercase_def)
  moreover have "list_all safe_char FALLBACK_EXTENSION" "FALLBACK_EXTENSION \<noteq> []"
    "length FALLBACK_EXTENSION \<le> 16"
    by (simp_all add: FALLBACK_EXTENSION_def safe_char_def)
  ultimately show ?thesis by (simp add: sanitize_extension_def Let_def)
qed

lemma digits_prefix_unique:
  assumes "\<forall>c \<in> set a. c \<noteq> d" "\<forall>c \<in> set b. c \<noteq> d" "a @ d # x = b @ d # y"
  shows "a = b \<and> x = y"
proof -
  have "takeWhile (\<lambda>c. c \<noteq> d) (a @ d # x) = a" "takeWhile (\<lambda>c. c \<noteq> d) (b @ d # y) = b"
    using assms(1,2) by (auto simp: takeWhile_append2)
  with assms(3) show ?thesis by auto
qed

lemma show_nat_no_hyphen: "\<forall>c \<in> set (show_nat n). c \<noteq> 45"
  by (auto dest: show_nat_digits)

lemma copy_file_name_eqD:
  assumes "copy_file_name s q h e = copy_file_name s' q' h' e'"
  shows "s = s' \<and> q = q' \<and> h @ utf ''.'' @ e = h' @ utf ''.'' @ e'"
proof -
  have hy: "utf ''-'' = [45]" by simp
  from assms have "show_nat (unat s) @ 45 # (show_nat (unat q) @ 45 # (h @ utf ''.'' @ e))
      = show_nat (unat s') @ 45 # (show_nat (unat q') @ 45 # (h' @ utf ''.'' @ e'))"
    by (simp add: copy_file_name_def)
  from digits_prefix_unique [OF show_nat_no_hyphen show_nat_no_hyphen this]
  have "unat s = unat s'" and "show_nat (unat q) @ 45 # (h @ utf ''.'' @ e)
      = show_nat (unat q') @ 45 # (h' @ utf ''.'' @ e')" by auto
  from digits_prefix_unique [OF show_nat_no_hyphen show_nat_no_hyphen this(2)] this(1)
  show ?thesis by (auto intro: unsigned_word_eqI)
qed

text \<open>
  Copy names do not collide: two generated names are equal only for the same session and the
  same per-boot sequence number (and then also the same hash and extension part), so a collected
  drop never overwrites another one.
\<close>

theorem copy_file_name_inj:
  assumes "copy_file_name s q h e = copy_file_name s' q' h' e'"
  shows "s = s' \<and> q = q' \<and> h @ utf ''.'' @ e = h' @ utf ''.'' @ e'"
  using copy_file_name_eqD [OF assms] .

theorem copy_file_name_inj_witness:
  "copy_file_name 1 2 (utf ''abcd0123'') (utf ''js'') = copy_file_name 1 2 (utf ''abcd0123'') (utf ''js'')
   \<and> (1 :: u32) = 1 \<and> (2 :: u64) = 2"
  using copy_file_name_inj [of 1 2 "utf ''abcd0123''" "utf ''js''" 1 2 "utf ''abcd0123''" "utf ''js''", OF refl]
  by blast

text \<open>
  The drop filter decides on the final path component alone, so the directory part, dots in
  it included, never changes the verdict; and a filter built from the configured tokens passes a
  path exactly when some token, trimmed and lower-cased, is \<open>*\<close>, or is \<open>none\<close> while the component has
  no extension or an empty one, or is (after its leading dots) the lower-cased extension.
\<close>

theorem drop_filter_decides:
  "DropFilter_matches lc rules path = DropFilter_matches lc rules (image_name path)
   \<and> (DropFilter_matches lc (DropFilter_new lc tokens) path \<longleftrightarrow>
      (\<exists>raw \<in> set tokens. let token = lc (trim raw); ext = map_option lc (extension_of path) in
         token \<noteq> [] \<and>
         (if token = utf ''*'' then True
          else if token = utf ''none'' then ext = None \<or> ext = Some []
          else ext = Some (trim_start_dots token))))"
proof -
  have set_new: "set (DropFilter_new lc tokens) = {r. \<exists>raw \<in> set tokens. parse_rule lc raw = Some r}"
    by (force simp: DropFilter_new_def map_filter_def image_iff)
  have "(\<exists>r. parse_rule lc raw = Some r \<and> rule_matches ext r) \<longleftrightarrow>
      (let token = lc (trim raw) in token \<noteq> [] \<and>
         (if token = utf ''*'' then True
          else if token = utf ''none'' then ext = None \<or> ext = Some []
          else ext = Some (trim_start_dots token)))" for raw ext
    by (simp add: parse_rule_def rule_matches_def Let_def split: option.splits del: utf_Cons)
  moreover have "DropFilter_matches lc (DropFilter_new lc tokens) path \<longleftrightarrow>
      (\<exists>raw \<in> set tokens. \<exists>r. parse_rule lc raw = Some r
          \<and> rule_matches (map_option lc (extension_of path)) r)"
    by (auto simp: DropFilter_matches_def Let_def list_ex_iff set_new)
  ultimately show ?thesis by (simp add: DropFilter_matches_def Let_def)
qed

end
