(* ===== verification/Command_Line.thy ===== *)
theory Command_Line
  imports Prelude
begin

text \<open>
  Windows command lines (\<^verbatim>\<open>crates/agent/src/domain/command_line.rs\<close>, \<^verbatim>\<open>shell_command.rs\<close>, and the
  quoting of \<^verbatim>\<open>adapters/driven/launcher/token.rs\<close> and \<^verbatim>\<open>schedtask.rs\<close>): splitting a line into
  arguments, quoting one argument, building the scheduled-task action line, and substituting the
  document into a registry \<open>shell/open/command\<close> template. The main results are the round trip
  between quoting and splitting and the exact place where splitting departs from its contract.
\<close>

subsection \<open>Splitting\<close>

text \<open>The loop of \<open>split_command_line\<close>; the arguments after the remaining characters are its local
  variables \<open>argv\<close>, \<open>current\<close>, \<open>in_quotes\<close>, \<open>has_token\<close> and \<open>backslashes\<close>.\<close>

fun split_go :: "rstr \<Rightarrow> rstr list \<Rightarrow> rstr \<Rightarrow> bool \<Rightarrow> bool \<Rightarrow> nat \<Rightarrow> rstr list" where
  "split_go [] argv current in_quotes has_token backslashes =
     (let current = current @ replicate backslashes backslash in
      if has_token \<or> current \<noteq> [] then argv @ [current] else argv)"
| "split_go (c # chars) argv current in_quotes has_token backslashes =
     (if c = backslash then split_go chars argv current in_quotes has_token (backslashes + 1)
      else if c = quote_mark then
        (let current = current @ replicate (backslashes div 2) backslash in
         if even backslashes then
           (if in_quotes \<and> get chars 0 = Some quote_mark
            then split_go (drop 1 chars) argv (current @ [quote_mark]) in_quotes True 0
            else split_go chars argv current (\<not> in_quotes) True 0)
         else split_go chars argv (current @ [quote_mark]) in_quotes True 0)
      else if is_whitespace c \<and> \<not> in_quotes then
        (let current = current @ replicate backslashes backslash in
         if has_token \<or> current \<noteq> []
         then split_go chars (argv @ [current]) [] in_quotes False backslashes
         else split_go chars argv current in_quotes has_token backslashes)
      else split_go chars argv (current @ replicate backslashes backslash @ [c]) in_quotes True 0)"

definition split_command_line :: "rstr \<Rightarrow> rstr list" where
  "split_command_line line = split_go line [] [] False False 0"

subsection \<open>Quoting\<close>

text \<open>The loop of \<open>quote\<close> with the closing quote; the first argument is \<open>backslashes\<close>.\<close>

fun quote_go :: "nat \<Rightarrow> rstr \<Rightarrow> rstr" where
  "quote_go backslashes [] = replicate (backslashes * 2) backslash @ [quote_mark]"
| "quote_go backslashes (ch # rest) =
     (if ch = backslash then quote_go (backslashes + 1) rest
      else if ch = quote_mark
        then replicate (backslashes * 2 + 1) backslash @ quote_mark # quote_go 0 rest
      else replicate backslashes backslash @ ch # quote_go 0 rest)"

text \<open>\<open>token.rs\<close> quotes on space, tab, line feed and quote; \<open>schedtask.rs\<close> also on vertical tab.\<close>

definition quote :: "rstr \<Rightarrow> rstr" where
  "quote arg =
     (let needs_quotes = arg = [] \<or> list_ex (\<lambda>ch. ch \<in> {32, 9, 10, quote_mark}) arg in
      if \<not> needs_quotes then arg else quote_mark # quote_go 0 arg)"

definition quote_argument :: "rstr \<Rightarrow> rstr" where
  "quote_argument value =
     (let needs_quotes = value = [] \<or> list_ex (\<lambda>c. c \<in> {32, 9, 10, 11, quote_mark}) value in
      if \<not> needs_quotes then value else quote_mark # quote_go 0 value)"

record LaunchSpec =
  ls_path :: rstr
  ls_args :: "rstr list"
  ls_working_dir :: "rstr option"

definition action_command_line :: "rstr \<Rightarrow> LaunchSpec \<Rightarrow> rstr" where
  "action_command_line helper spec =
     quote_argument helper @ utf '' --path '' @ quote_argument (ls_path spec) @ utf '' --''
     @ concat (map (\<lambda>arg. 32 # quote_argument arg) (ls_args spec))"

subsection \<open>Shell command substitution\<close>

datatype ShellCommandError = ShellCommandEmpty

definition at_placeholder :: "rstr \<Rightarrow> bool" where
  "at_placeholder rest \<longleftrightarrow> starts_with rest (utf ''%1'') \<or> starts_with rest (utf ''%l'')
     \<or> starts_with rest (utf ''%L'')"

fun substitute_go :: "rstr \<Rightarrow> rstr \<Rightarrow> rstr \<Rightarrow> bool \<Rightarrow> rstr \<times> bool" where
  "substitute_go document [] result placeholder_seen = (result, placeholder_seen)"
| "substitute_go document (chunk # rest) result placeholder_seen =
     (if at_placeholder (chunk # rest)
      then substitute_go document (drop 1 rest) (result @ document) True
      else substitute_go document rest (result @ [chunk]) placeholder_seen)"

definition substitute_command :: "rstr \<Rightarrow> rstr \<Rightarrow> ShellCommandError + rstr" where
  "substitute_command command document =
     (if trim command = [] then Inl ShellCommandEmpty
      else case substitute_go document command [] False of (result, placeholder_seen) \<Rightarrow>
        Inr (if placeholder_seen then result
             else result @ [32, quote_mark] @ document @ [quote_mark]))"

subsection \<open>Splitting undoes quoting\<close>

lemma split_go_backslashes:
  "split_go (replicate n backslash @ s) argv current q h b = split_go s argv current q h (b + n)"
  by (induction n arbitrary: b) auto

lemma split_go_space:
  "split_go (32 # rest) argv current False True 0 = split_go rest (argv @ [current]) [] False False 0"
  by (simp add: is_whitespace_def)

text \<open>Inside quotes, whatever the argument holds, splitting reads back the escaped text up to the
  closing quote.\<close>

lemma split_go_quoted:
  assumes "get rest 0 \<noteq> Some quote_mark"
  shows "split_go (quote_go b arg @ rest) argv current True h 0
       = split_go rest argv (current @ replicate b backslash @ arg) False True 0"
  using assms
proof (induction b arg arbitrary: current h rule: quote_go.induct)
  case (1 b)
  then show ?case by (simp add: split_go_backslashes)
next
  case (2 b ch arg)
  consider "ch = backslash" | "ch = quote_mark" | "ch \<noteq> backslash" "ch \<noteq> quote_mark" by blast
  then show ?case
  proof cases
    case 1
    then show ?thesis using 2 by (simp add: replicate_app_Cons_same)
  next
    case 2
    have "split_go (quote_go b (ch # arg) @ rest) argv current True h 0
        = split_go (quote_mark # quote_go 0 arg @ rest) argv current True h (Suc (2 * b))"
      using \<open>ch = quote_mark\<close> split_go_backslashes [of "Suc (2 * b)" "quote_mark # quote_go 0 arg @ rest"]
      by (simp add: mult.commute)
    also have "\<dots> = split_go (quote_go 0 arg @ rest) argv (current @ replicate b backslash @ [quote_mark]) True True 0"
      by simp
    finally show ?thesis using "2.IH"(2) "2.prems" 2 by simp
  next
    case 3
    then show ?thesis using 2 by (simp add: split_go_backslashes)
  qed
qed

text \<open>An argument that is passed unquoted must hold no white space, and must not end in a
  backslash when another argument follows.\<close>

lemma split_go_plain:
  assumes "arg \<noteq> []" "\<forall>c \<in> set arg. \<not> is_whitespace c \<and> c \<noteq> quote_mark" "last arg \<noteq> backslash"
  shows "split_go (arg @ rest) argv current False h b
       = split_go rest argv (current @ replicate b backslash @ arg) False True 0"
  using assms
proof (induction arg arbitrary: current h b)
  case (Cons c arg)
  show ?case
  proof (cases "c = backslash")
    case True
    with Cons.prems have "arg \<noteq> []" by auto
    with True Cons show ?thesis by (simp add: replicate_app_Cons_same)
  next
    case False
    with Cons show ?thesis by (cases "arg = []") auto
  qed
qed simp

text \<open>What a caller must respect for an argument to survive: either it is quoted anyway, or it has no
  exotic white space and no trailing backslash.\<close>

definition survives :: "rstr \<Rightarrow> bool" where
  "survives arg \<longleftrightarrow> (\<exists>c \<in> set arg. c \<in> {32, 9, 10, 11, quote_mark}) \<or> arg = []
     \<or> (\<forall>c \<in> set arg. \<not> is_whitespace c) \<and> last arg \<noteq> backslash"

lemma split_go_quote_argument:
  assumes "survives arg" "get rest 0 \<noteq> Some quote_mark"
  shows "split_go (quote_argument arg @ rest) argv [] False False 0 = split_go rest argv arg False True 0"
proof (cases "arg = [] \<or> (\<exists>c \<in> set arg. c \<in> {32, 9, 10, 11, quote_mark})")
  case True
  then have "quote_argument arg = quote_mark # quote_go 0 arg"
    by (auto simp: quote_argument_def list_ex_iff)
  then show ?thesis using split_go_quoted [OF assms(2), of 0 arg argv "[]" True] by simp
next
  case False
  then have "quote_argument arg = arg" by (auto simp: quote_argument_def list_ex_iff)
  moreover have "arg \<noteq> []" "\<forall>c \<in> set arg. \<not> is_whitespace c \<and> c \<noteq> quote_mark" "last arg \<noteq> backslash"
    using False assms(1) by (auto simp: survives_def)
  ultimately show ?thesis by (simp add: split_go_plain)
qed

lemma split_go_arguments:
  assumes "\<forall>arg \<in> set args. survives arg"
  shows "split_go (concat (map (\<lambda>arg. 32 # quote_argument arg) args)) argv current False True 0
       = argv @ current # args"
  using assms
proof (induction args arbitrary: argv current)
  case (Cons arg args)
  let ?rest = "concat (map (\<lambda>arg. 32 # quote_argument arg) args)"
  have "get ?rest 0 \<noteq> Some quote_mark" by (cases args) (simp_all add: get_def)
  then show ?case
    using Cons split_go_quote_argument [of arg ?rest]
    by (simp add: is_whitespace_def)
qed simp

text \<open>
  The action line the scheduled-task launcher stores is split back into exactly the helper, the
  \<open>--path\<close> switch, the target path, the \<open>--\<close> separator and the arguments, byte for byte, for every
  argument vector whose unquoted elements hold no exotic white space and end in no backslash;
  quotes, spaces and backslash runs inside arguments all survive.
\<close>

theorem action_command_line_roundtrip:
  assumes "survives helper" "survives (ls_path spec)" "\<forall>arg \<in> set (ls_args spec). survives arg"
  shows "split_command_line (action_command_line helper spec)
       = helper # utf ''--path'' # ls_path spec # utf ''--'' # ls_args spec"
proof -
  let ?tail = "concat (map (\<lambda>arg. 32 # quote_argument arg) (ls_args spec))"
  have line: "action_command_line helper spec = quote_argument helper @ 32 # utf ''--path'' @ 32
      # quote_argument (ls_path spec) @ 32 # utf ''--'' @ ?tail"
    by (simp add: action_command_line_def)
  have switch: "split_go (s @ r) argv [] False False 0 = split_go r argv s False True 0"
    if "s = utf ''--path'' \<or> s = utf ''--''" for s r argv
    using that by (intro trans [OF split_go_plain]) (auto simp: is_whitespace_def)
  show ?thesis
    unfolding split_command_line_def line
    using assms(3)
    by (simp add: split_go_quote_argument [OF assms(1)] split_go_quote_argument [OF assms(2)]
          get_def split_go_space switch split_go_arguments del: split_go.simps(2) utf_Cons)
qed

definition sample_spec :: LaunchSpec where
  "sample_spec = \<lparr>ls_path = win ''C:/my dir/'', ls_args = [utf ''a\"b'', []], ls_working_dir = None\<rparr>"

theorem action_command_line_roundtrip_witness:
  "split_command_line (action_command_line (utf ''runas.exe'') sample_spec)
     = [utf ''runas.exe'', utf ''--path'', win ''C:/my dir/'', utf ''--'', utf ''a\"b'', []]"
  using action_command_line_roundtrip [of "utf ''runas.exe''" sample_spec]
  by (simp add: sample_spec_def survives_def win_def is_whitespace_def)

subsection \<open>Where splitting departs from its contract\<close>

text \<open>
  White space after a backslash run outside quotes emits the run without clearing it, so the
  run is emitted again in front of the next argument: \<open>a\ b\<close> splits into \<open>a\\<close> and \<open>\b\<close>, where
  \<open>CommandLineToArgvW\<close> gives \<open>a\\<close> and \<open>b\<close>. This holds for every plain argument ending in a
  backslash that is followed by another argument.
\<close>

theorem split_duplicates_trailing_backslashes:
  assumes "\<forall>c \<in> set a \<union> set b. \<not> is_whitespace c \<and> c \<noteq> quote_mark"
    and "a \<noteq> []" "last a \<noteq> backslash" "b \<noteq> []" "last b \<noteq> backslash"
  shows "split_command_line (a @ replicate n backslash @ 32 # b)
       = [a @ replicate n backslash, replicate n backslash @ b]"
proof -
  have "split_command_line (a @ replicate n backslash @ 32 # b)
      = split_go (32 # b) [] a False True n"
    using assms split_go_plain [of a "replicate n backslash @ 32 # b" "[]" "[]" False 0]
    by (simp add: split_command_line_def split_go_backslashes)
  also have "\<dots> = split_go (b @ []) [a @ replicate n backslash] [] False False n"
    by (simp add: is_whitespace_def)
  also have "\<dots> = [a @ replicate n backslash, replicate n backslash @ b]"
    using assms by (subst split_go_plain) (auto simp: Let_def)
  finally show ?thesis .
qed

theorem split_duplicates_trailing_backslashes_witness:
  "split_command_line (win ''a/ b'') = [win ''a/'', win ''/b'']"
  using split_duplicates_trailing_backslashes [of "utf ''a''" "utf ''b''" 1]
  by (simp add: win_def is_whitespace_def)

subsection \<open>Launching a document by its association\<close>

lemma substitute_go_plain:
  assumes "37 \<notin> set pre"
  shows "substitute_go document (pre @ rest) result seen = substitute_go document rest (result @ pre) seen"
  using assms by (induction pre arbitrary: result) (auto simp: at_placeholder_def starts_with_def)

lemma substitute_go_placeholder:
  "substitute_go document (37 # 49 # rest) result seen = substitute_go document rest (result @ document) True"
  by (simp add: at_placeholder_def starts_with_def)

lemma split_go_in_quotes:
  assumes "quote_mark \<notin> set s" "s = [] \<longrightarrow> b = 0" "s \<noteq> [] \<longrightarrow> last s \<noteq> backslash"
  shows "split_go (s @ rest) argv current True h b
       = split_go rest argv (current @ replicate b backslash @ s) True (h \<or> s \<noteq> []) 0"
  using assms
proof (induction s arbitrary: current h b)
  case (Cons c s)
  show ?case
  proof (cases "c = backslash")
    case True
    with Cons.prems have "s \<noteq> []" by auto
    with True Cons show ?thesis by (simp add: replicate_app_Cons_same)
  next
    case False
    with Cons show ?thesis by (cases "s = []") auto
  qed
qed simp

lemma split_quoted_pair:
  assumes "quote_mark \<notin> set a" "a = [] \<or> last a \<noteq> backslash"
    and "quote_mark \<notin> set b" "b = [] \<or> last b \<noteq> backslash"
  shows "split_command_line (quote_mark # a @ quote_mark # 32 # quote_mark # b @ [quote_mark]) = [a, b]"
  using assms
  by (auto simp: split_command_line_def split_go_in_quotes get_def is_whitespace_def)

text \<open>
  Opening a document through its association command. A blank command is the error; a template
  \<open>"prog" "%1"\<close> and a template \<open>"prog"\<close> without a placeholder both launch the program with the
  document as its one argument, unmangled, spaces included, whatever the document is called as
  long as it has no quote and does not end in a backslash.
\<close>

theorem association_launches_document:
  assumes "37 \<notin> set prog" "quote_mark \<notin> set prog" "prog \<noteq> []" "last prog \<noteq> backslash"
    and "quote_mark \<notin> set document" "document \<noteq> []" "last document \<noteq> backslash"
  shows "(\<exists>line. substitute_command (quote_mark # prog @ [quote_mark, 32, quote_mark, 37, 49, quote_mark]) document = Inr line
              \<and> split_command_line line = [prog, document])
     \<and> (\<exists>line. substitute_command (quote_mark # prog @ [quote_mark]) document = Inr line
              \<and> split_command_line line = [prog, document])
     \<and> (substitute_command blank document = Inl ShellCommandEmpty \<longleftrightarrow> list_all is_whitespace blank)"
proof (intro conjI)
  have nt: "trim (quote_mark # s) \<noteq> []" for s by (simp add: trim_eq_Nil is_whitespace_def)
  let ?pre = "quote_mark # prog @ [quote_mark, 32, quote_mark]"
  have "substitute_go document (?pre @ 37 # 49 # [quote_mark]) [] False
      = (?pre @ document @ [quote_mark], True)"
    using assms(1) by (subst substitute_go_plain) (auto simp: substitute_go_placeholder at_placeholder_def starts_with_def)
  moreover have pair: "split_command_line (?pre @ document @ [quote_mark]) = [prog, document]"
    using assms split_quoted_pair [of prog document] by simp
  ultimately show "\<exists>line. substitute_command (quote_mark # prog @ [quote_mark, 32, quote_mark, 37, 49, quote_mark]) document = Inr line
              \<and> split_command_line line = [prog, document]"
    using nt [of "prog @ [quote_mark, 32, quote_mark, 37, 49, quote_mark]"] by (simp add: substitute_command_def)
  have "substitute_go document (quote_mark # prog @ [quote_mark]) [] False = (quote_mark # prog @ [quote_mark], False)"
    using assms(1) substitute_go_plain [of "quote_mark # prog @ [quote_mark]" document "[]" "[]" False] by simp
  then show "\<exists>line. substitute_command (quote_mark # prog @ [quote_mark]) document = Inr line
              \<and> split_command_line line = [prog, document]"
    using nt [of "prog @ [quote_mark]"] pair by (simp add: substitute_command_def)
  show "substitute_command blank document = Inl ShellCommandEmpty \<longleftrightarrow> list_all is_whitespace blank"
    by (simp add: substitute_command_def trim_eq_Nil list_all_iff split: prod.splits)
qed

theorem association_launches_document_witness:
  "\<exists>line. substitute_command (utf ''\"wscript.exe\" \"%1\"'') (utf ''my evil.js'') = Inr line
        \<and> split_command_line line = [utf ''wscript.exe'', utf ''my evil.js'']"
  using association_launches_document [of "utf ''wscript.exe''" "utf ''my evil.js''"] by simp

end
