(* ===== verification/Events.thy ===== *)
theory Events
  imports Prelude
begin

text \<open>
  The wire taxonomy and the payload schemas (\<^verbatim>\<open>crates/protocol/src/events.rs\<close>, \<^verbatim>\<open>payload.rs\<close> and the
  envelope of \<^verbatim>\<open>nats.rs\<close>). Enum variants keep their names and are written qualified by their type
  (\<open>EventType.ProcessStarted\<close>, \<open>Payload.ProcessStarted\<close>), since the sources use the same variant names
  in several enums. A struct is a record whose fields carry a short prefix. The serde attributes
  (JSON field names, \<open>skip_serializing_if\<close>) are not modelled; the \<open>rename\<close>s of \<open>EventType\<close> equal
  \<open>as_str\<close>.
\<close>

subsection \<open>Event names\<close>

datatype (plugins only: code) EventType =
    ProcessStarted
  | ProcessStopped
  | ThreadStarted
  | ThreadStopped
  | ImageLoaded
  | ImageUnloaded
  | RegistryKeyCreated
  | RegistryKeyDeleted
  | RegistryKeyOpened
  | RegistryKeyClosed
  | RegistryKeyQueried
  | RegistryValueQueried
  | RegistryValueSet
  | FileCreated
  | FileWritten
  | FileClosed
  | FileCleanedUp
  | FileDeleted
  | FileRenamed
  | FileFsctl
  | NetTcpConnected
  | NetTcpAccepted
  | NetTcpDisconnected
  | BehaviorCall
  | ProtectionStripped
  | SessionStarted
  | SessionFinalizing
  | SessionEnded
  | ScopeDied
  | TargetLaunched
  | DropObserved
  | DropClosed
  | DropCopied
  | DropUploaded
  | ScreenshotReceived
  | ScreenshotUploaded
  | UserActorStarted
  | UserActorStopped
  | ClockAdjusted
  | AgentState
  | StudyScore
  | StudyDropsSummary
  | StudyRebootRequested
  | StudyShutdownRequested
  | ControlKeepalive
  | ControlReboot
  | ControlShutdown

definition ALL_events :: "EventType list" where
  "ALL_events =
     [EventType.ProcessStarted,
      EventType.ProcessStopped,
      EventType.ThreadStarted,
      EventType.ThreadStopped,
      EventType.ImageLoaded,
      EventType.ImageUnloaded,
      EventType.RegistryKeyCreated,
      EventType.RegistryKeyDeleted,
      EventType.RegistryKeyOpened,
      EventType.RegistryKeyClosed,
      EventType.RegistryKeyQueried,
      EventType.RegistryValueQueried,
      EventType.RegistryValueSet,
      EventType.FileCreated,
      EventType.FileWritten,
      EventType.FileClosed,
      EventType.FileCleanedUp,
      EventType.FileDeleted,
      EventType.FileRenamed,
      EventType.FileFsctl,
      EventType.NetTcpConnected,
      EventType.NetTcpAccepted,
      EventType.NetTcpDisconnected,
      EventType.BehaviorCall,
      EventType.ProtectionStripped,
      EventType.SessionStarted,
      EventType.SessionFinalizing,
      EventType.SessionEnded,
      EventType.ScopeDied,
      EventType.TargetLaunched,
      EventType.DropObserved,
      EventType.DropClosed,
      EventType.DropCopied,
      EventType.DropUploaded,
      EventType.ScreenshotReceived,
      EventType.ScreenshotUploaded,
      EventType.UserActorStarted,
      EventType.UserActorStopped,
      EventType.ClockAdjusted,
      EventType.AgentState,
      EventType.StudyScore,
      EventType.StudyDropsSummary,
      EventType.StudyRebootRequested,
      EventType.StudyShutdownRequested,
      EventType.ControlKeepalive,
      EventType.ControlReboot,
      EventType.ControlShutdown]"

definition as_str :: "EventType \<Rightarrow> rstr" where
  "as_str e = utf (case e of
       EventType.ProcessStarted \<Rightarrow> ''process.started''
     | EventType.ProcessStopped \<Rightarrow> ''process.stopped''
     | EventType.ThreadStarted \<Rightarrow> ''thread.started''
     | EventType.ThreadStopped \<Rightarrow> ''thread.stopped''
     | EventType.ImageLoaded \<Rightarrow> ''image.loaded''
     | EventType.ImageUnloaded \<Rightarrow> ''image.unloaded''
     | EventType.RegistryKeyCreated \<Rightarrow> ''registry.key_created''
     | EventType.RegistryKeyDeleted \<Rightarrow> ''registry.key_deleted''
     | EventType.RegistryKeyOpened \<Rightarrow> ''registry.key_opened''
     | EventType.RegistryKeyClosed \<Rightarrow> ''registry.key_closed''
     | EventType.RegistryKeyQueried \<Rightarrow> ''registry.key_queried''
     | EventType.RegistryValueQueried \<Rightarrow> ''registry.value_queried''
     | EventType.RegistryValueSet \<Rightarrow> ''registry.value_set''
     | EventType.FileCreated \<Rightarrow> ''file.created''
     | EventType.FileWritten \<Rightarrow> ''file.written''
     | EventType.FileClosed \<Rightarrow> ''file.closed''
     | EventType.FileCleanedUp \<Rightarrow> ''file.cleaned_up''
     | EventType.FileDeleted \<Rightarrow> ''file.deleted''
     | EventType.FileRenamed \<Rightarrow> ''file.renamed''
     | EventType.FileFsctl \<Rightarrow> ''file.fsctl''
     | EventType.NetTcpConnected \<Rightarrow> ''net.tcp.connected''
     | EventType.NetTcpAccepted \<Rightarrow> ''net.tcp.accepted''
     | EventType.NetTcpDisconnected \<Rightarrow> ''net.tcp.disconnected''
     | EventType.BehaviorCall \<Rightarrow> ''behavior.call''
     | EventType.ProtectionStripped \<Rightarrow> ''protection.stripped''
     | EventType.SessionStarted \<Rightarrow> ''session.started''
     | EventType.SessionFinalizing \<Rightarrow> ''session.finalizing''
     | EventType.SessionEnded \<Rightarrow> ''session.ended''
     | EventType.ScopeDied \<Rightarrow> ''scope.died''
     | EventType.TargetLaunched \<Rightarrow> ''target.launched''
     | EventType.DropObserved \<Rightarrow> ''drop.observed''
     | EventType.DropClosed \<Rightarrow> ''drop.closed''
     | EventType.DropCopied \<Rightarrow> ''drop.copied''
     | EventType.DropUploaded \<Rightarrow> ''drop.uploaded''
     | EventType.ScreenshotReceived \<Rightarrow> ''screenshot.received''
     | EventType.ScreenshotUploaded \<Rightarrow> ''screenshot.uploaded''
     | EventType.UserActorStarted \<Rightarrow> ''user_actor.started''
     | EventType.UserActorStopped \<Rightarrow> ''user_actor.stopped''
     | EventType.ClockAdjusted \<Rightarrow> ''clock.adjusted''
     | EventType.AgentState \<Rightarrow> ''agent.state''
     | EventType.StudyScore \<Rightarrow> ''study.score''
     | EventType.StudyDropsSummary \<Rightarrow> ''study.drops_summary''
     | EventType.StudyRebootRequested \<Rightarrow> ''study.reboot_requested''
     | EventType.StudyShutdownRequested \<Rightarrow> ''study.shutdown_requested''
     | EventType.ControlKeepalive \<Rightarrow> ''control.keepalive''
     | EventType.ControlReboot \<Rightarrow> ''control.reboot''
     | EventType.ControlShutdown \<Rightarrow> ''control.shutdown'')"

subsection \<open>Payload schemas\<close>

datatype FinalizeReason = Deadline | DeadScope | InboundRequest | Error
datatype Launcher = Token | SchedTask
datatype ClockCause = StudyStart | SessionOffset

record ProcessStartedData =
  ps_pid :: u32
  ps_parent_pid :: "u32 option"
  ps_name :: rstr
  ps_image_path :: "rstr option"
  ps_command_line :: "rstr option"
  ps_os_session_id :: "u32 option"

record ProcessStoppedData =
  pst_pid :: u32
  pst_name :: rstr

record ThreadStartedData =
  ts_pid :: u32
  ts_tid :: u32
  ts_parent_tid :: "u32 option"

record ThreadStoppedData =
  tst_pid :: u32
  tst_tid :: u32

record ImageLoadedData =
  il_pid :: u32
  il_name :: rstr
  il_image_path :: "rstr option"
  il_image_size :: "u64 option"
  il_image_checksum :: "u32 option"

record ImageUnloadedData =
  iu_pid :: u32
  iu_name :: rstr

record RegistryKeyData =
  rk_pid :: u32
  rk_key_name :: rstr
  rk_key_handle :: "u64 option"

record RegistryValueQueriedData =
  rvq_pid :: u32
  rvq_key_name :: rstr
  rvq_value_name :: "rstr option"
  rvq_key_handle :: "u64 option"

record RegistryValueSetData =
  rvs_pid :: u32
  rvs_key_name :: rstr
  rvs_value_name :: "rstr option"
  rvs_key_handle :: "u64 option"
  rvs_value_type :: "rstr option"
  rvs_data_size :: "u32 option"

record FileCreatedData =
  fc_pid :: u32
  fc_file_object :: "u64 option"
  fc_file_name :: "rstr option"
  fc_create_options :: "u32 option"
  fc_create_disposition :: "u32 option"

record FileWrittenData =
  fw_pid :: u32
  fw_file_object :: "u64 option"
  fw_file_key :: "u64 option"
  fw_file_name :: "rstr option"
  fw_io_size :: "u64 option"
  fw_offset :: "u64 option"

record FileReleasedData =
  fr_pid :: u32
  fr_file_object :: "u64 option"
  fr_file_key :: "u64 option"
  fr_file_name :: "rstr option"

record FileDeletedData =
  fd_pid :: u32
  fd_file_object :: "u64 option"
  fd_file_key :: "u64 option"
  fd_file_name :: "rstr option"

record FileRenamedData =
  fn_pid :: u32
  fn_file_object :: "u64 option"
  fn_file_name :: "rstr option"
  fn_new_name :: "rstr option"
  fn_file_key :: "u64 option"

record FileFsctlData =
  ff_pid :: u32
  ff_file_object :: "u64 option"
  ff_file_name :: "rstr option"
  ff_file_key :: "u64 option"

record BehaviorCallData =
  bc_pid :: u32
  bc_tid :: u32
  bc_api :: u32
  bc_arg0 :: u64
  bc_arg1 :: u64
  bc_arg2 :: u64
  bc_arg3 :: u64

record ProtectionStrippedData =
  prt_opener_pid :: u32
  prt_protected_pid :: u32
  prt_target_is_thread :: bool
  prt_original_access :: u64
  prt_stripped_access :: u64

record TcpConnectionData =
  tcp_pid :: "u32 option"
  tcp_source_addr :: rstr
  tcp_source_port :: u16
  tcp_dest_addr :: rstr
  tcp_dest_port :: u16

record SessionStartedData =
  ss_scheduled_duration_secs :: "u64 option"

record SessionFinalizingData =
  sf_reason :: FinalizeReason

datatype SessionEndedData = SessionEndedData

datatype ScopeDiedData = ScopeDiedData

record TargetLaunchedData =
  tl_pid :: "u32 option"
  tl_path :: rstr
  tl_args :: "rstr option"
  tl_launcher :: Launcher

record AgentStateData =
  ast_agent_version :: rstr

record StudyScoreData =
  sco_score :: u32
  sco_reason :: "rstr option"

record StudyDropsSummaryData =
  sds_extensions :: "rstr \<rightharpoonup> u32"

record StudyRebootRequestedData =
  srr_reason :: "rstr option"

record StudyShutdownRequestedData =
  ssr_reason :: "rstr option"

record DropObservedData =
  dob_path :: rstr
  dob_pid :: "u32 option"

record DropClosedData =
  dcl_path :: rstr

record DropCopiedData =
  dcp_source :: rstr
  dcp_copy :: rstr
  dcp_size_bytes :: u64

record DropUploadedData =
  du_copy :: rstr
  du_size_bytes :: u64

record ScreenshotReceivedData =
  scr_seq :: u32
  scr_size_bytes :: u64

record ScreenshotUploadedData =
  su_seq :: u32

record UserActorStartedData =
  uas_module_version :: rstr
  uas_pid :: "u32 option"

record UserActorStoppedData =
  uat_reason :: "rstr option"

record ClockAdjustedData =
  ca_to_ts :: i64
  ca_offset_secs :: i64
  ca_cause :: ClockCause

datatype ControlKeepaliveData = ControlKeepaliveData

record ControlRebootData =
  cre_reason :: "rstr option"

record ControlShutdownData =
  csh_reason :: "rstr option"

text \<open>The tagged union the macro \<open>payload_variants!\<close> generates, and its \<open>event_type\<close>.\<close>

datatype (plugins only: code) Payload =
    ProcessStarted ProcessStartedData
  | ProcessStopped ProcessStoppedData
  | ThreadStarted ThreadStartedData
  | ThreadStopped ThreadStoppedData
  | ImageLoaded ImageLoadedData
  | ImageUnloaded ImageUnloadedData
  | RegistryKeyCreated RegistryKeyData
  | RegistryKeyDeleted RegistryKeyData
  | RegistryKeyOpened RegistryKeyData
  | RegistryKeyClosed RegistryKeyData
  | RegistryKeyQueried RegistryKeyData
  | RegistryValueQueried RegistryValueQueriedData
  | RegistryValueSet RegistryValueSetData
  | FileCreated FileCreatedData
  | FileWritten FileWrittenData
  | FileClosed FileReleasedData
  | FileCleanedUp FileReleasedData
  | FileDeleted FileDeletedData
  | FileRenamed FileRenamedData
  | FileFsctl FileFsctlData
  | NetTcpConnected TcpConnectionData
  | NetTcpAccepted TcpConnectionData
  | NetTcpDisconnected TcpConnectionData
  | BehaviorCall BehaviorCallData
  | ProtectionStripped ProtectionStrippedData
  | SessionStarted SessionStartedData
  | SessionFinalizing SessionFinalizingData
  | SessionEnded SessionEndedData
  | ScopeDied ScopeDiedData
  | TargetLaunched TargetLaunchedData
  | AgentState AgentStateData
  | StudyScore StudyScoreData
  | StudyDropsSummary StudyDropsSummaryData
  | StudyRebootRequested StudyRebootRequestedData
  | StudyShutdownRequested StudyShutdownRequestedData
  | DropObserved DropObservedData
  | DropClosed DropClosedData
  | DropCopied DropCopiedData
  | DropUploaded DropUploadedData
  | ScreenshotReceived ScreenshotReceivedData
  | ScreenshotUploaded ScreenshotUploadedData
  | UserActorStarted UserActorStartedData
  | UserActorStopped UserActorStoppedData
  | ClockAdjusted ClockAdjustedData
  | ControlKeepalive ControlKeepaliveData
  | ControlReboot ControlRebootData
  | ControlShutdown ControlShutdownData

primrec payload_event_type :: "Payload \<Rightarrow> EventType" where
    "payload_event_type (Payload.ProcessStarted _) = EventType.ProcessStarted"
  | "payload_event_type (Payload.ProcessStopped _) = EventType.ProcessStopped"
  | "payload_event_type (Payload.ThreadStarted _) = EventType.ThreadStarted"
  | "payload_event_type (Payload.ThreadStopped _) = EventType.ThreadStopped"
  | "payload_event_type (Payload.ImageLoaded _) = EventType.ImageLoaded"
  | "payload_event_type (Payload.ImageUnloaded _) = EventType.ImageUnloaded"
  | "payload_event_type (Payload.RegistryKeyCreated _) = EventType.RegistryKeyCreated"
  | "payload_event_type (Payload.RegistryKeyDeleted _) = EventType.RegistryKeyDeleted"
  | "payload_event_type (Payload.RegistryKeyOpened _) = EventType.RegistryKeyOpened"
  | "payload_event_type (Payload.RegistryKeyClosed _) = EventType.RegistryKeyClosed"
  | "payload_event_type (Payload.RegistryKeyQueried _) = EventType.RegistryKeyQueried"
  | "payload_event_type (Payload.RegistryValueQueried _) = EventType.RegistryValueQueried"
  | "payload_event_type (Payload.RegistryValueSet _) = EventType.RegistryValueSet"
  | "payload_event_type (Payload.FileCreated _) = EventType.FileCreated"
  | "payload_event_type (Payload.FileWritten _) = EventType.FileWritten"
  | "payload_event_type (Payload.FileClosed _) = EventType.FileClosed"
  | "payload_event_type (Payload.FileCleanedUp _) = EventType.FileCleanedUp"
  | "payload_event_type (Payload.FileDeleted _) = EventType.FileDeleted"
  | "payload_event_type (Payload.FileRenamed _) = EventType.FileRenamed"
  | "payload_event_type (Payload.FileFsctl _) = EventType.FileFsctl"
  | "payload_event_type (Payload.NetTcpConnected _) = EventType.NetTcpConnected"
  | "payload_event_type (Payload.NetTcpAccepted _) = EventType.NetTcpAccepted"
  | "payload_event_type (Payload.NetTcpDisconnected _) = EventType.NetTcpDisconnected"
  | "payload_event_type (Payload.BehaviorCall _) = EventType.BehaviorCall"
  | "payload_event_type (Payload.ProtectionStripped _) = EventType.ProtectionStripped"
  | "payload_event_type (Payload.SessionStarted _) = EventType.SessionStarted"
  | "payload_event_type (Payload.SessionFinalizing _) = EventType.SessionFinalizing"
  | "payload_event_type (Payload.SessionEnded _) = EventType.SessionEnded"
  | "payload_event_type (Payload.ScopeDied _) = EventType.ScopeDied"
  | "payload_event_type (Payload.TargetLaunched _) = EventType.TargetLaunched"
  | "payload_event_type (Payload.AgentState _) = EventType.AgentState"
  | "payload_event_type (Payload.StudyScore _) = EventType.StudyScore"
  | "payload_event_type (Payload.StudyDropsSummary _) = EventType.StudyDropsSummary"
  | "payload_event_type (Payload.StudyRebootRequested _) = EventType.StudyRebootRequested"
  | "payload_event_type (Payload.StudyShutdownRequested _) = EventType.StudyShutdownRequested"
  | "payload_event_type (Payload.DropObserved _) = EventType.DropObserved"
  | "payload_event_type (Payload.DropClosed _) = EventType.DropClosed"
  | "payload_event_type (Payload.DropCopied _) = EventType.DropCopied"
  | "payload_event_type (Payload.DropUploaded _) = EventType.DropUploaded"
  | "payload_event_type (Payload.ScreenshotReceived _) = EventType.ScreenshotReceived"
  | "payload_event_type (Payload.ScreenshotUploaded _) = EventType.ScreenshotUploaded"
  | "payload_event_type (Payload.UserActorStarted _) = EventType.UserActorStarted"
  | "payload_event_type (Payload.UserActorStopped _) = EventType.UserActorStopped"
  | "payload_event_type (Payload.ClockAdjusted _) = EventType.ClockAdjusted"
  | "payload_event_type (Payload.ControlKeepalive _) = EventType.ControlKeepalive"
  | "payload_event_type (Payload.ControlReboot _) = EventType.ControlReboot"
  | "payload_event_type (Payload.ControlShutdown _) = EventType.ControlShutdown"

subsection \<open>Envelope\<close>

type_synonym Uuid = "128 word"

definition PROTOCOL_VERSION :: u32 where "PROTOCOL_VERSION = 3"

record Envelope =
  env_v :: u32
  env_event_type :: EventType
  env_ts :: i64
  env_study :: Uuid
  env_session :: u32
  env_seq :: u64
  env_data :: Payload

subsection \<open>Taxonomy\<close>

text \<open>The event type whose name is given, by searching the taxonomy: the inverse of \<open>as_str\<close>.\<close>

definition of_str :: "rstr \<Rightarrow> EventType option" where
  "of_str s = List.find (\<lambda>e. as_str e = s) ALL_events"

lemma ALL_events_complete: "e \<in> set ALL_events"
  by (cases e) (simp_all add: ALL_events_def)

lemma as_str_distinct: "distinct (map as_str ALL_events)"
  by (simp add: ALL_events_def as_str_def)

lemma payload_event_type_surj: "\<exists>p. payload_event_type p = e"
  by (cases e) (hypsubst, rule exI, rule payload_event_type.simps)+

text \<open>
  The event taxonomy is a faithful naming: \<open>ALL\<close> lists every event type exactly once, no two
  event types share a wire name, looking a name up among them gives the type back, and every
  event type is carried by some payload variant.
\<close>

theorem event_names_roundtrip:
  "set ALL_events = UNIV \<and> distinct ALL_events \<and> of_str (as_str e) = Some e
   \<and> inj as_str \<and> (\<exists>p. payload_event_type p = e)"
proof -
  have inj: "inj as_str"
    using as_str_distinct ALL_events_complete by (auto simp: distinct_map inj_on_def)
  moreover have "of_str (as_str e) = Some e"
  proof -
    have "List.find (\<lambda>e'. as_str e' = as_str e) xs = Some e" if "e \<in> set xs" for xs
      using that inj by (induction xs) (auto simp: inj_eq)
    then show ?thesis by (simp add: of_str_def ALL_events_complete)
  qed
  moreover have "\<exists>p. payload_event_type p = e"
    using payload_event_type_surj by blast
  ultimately show ?thesis
    using as_str_distinct ALL_events_complete by (auto simp: distinct_map)
qed

end
