(* ===== verification/App_Event.thy ===== *)
theory App_Event
  imports Events
begin

text \<open>
  The agent's inbound events, the derived bus events and the envelope composition
  (\<^verbatim>\<open>crates/agent/src/app/event.rs\<close>, \<^verbatim>\<open>plugins/wire.rs\<close>, \<^verbatim>\<open>ports/driven/broker.rs\<close>).
\<close>

subsection \<open>Inbound events\<close>

record ScreenshotFrame =
  sfr_seq :: u32
  sfr_jpeg :: "u8 list"

datatype (plugins only: code) SourceEvent =
    ProcessStarted ProcessStartedData
  | ProcessStopped ProcessStoppedData
  | ThreadStarted ThreadStartedData
  | ThreadStopped ThreadStoppedData
  | ImageLoaded ImageLoadedData
  | ImageUnloaded ImageUnloadedData
  | RegistryKeyCreated RegistryKeyData
  | RegistryKeyDeleted RegistryKeyData
  | RegistryKeyOpened RegistryKeyData
  | RegistryKeyClosed RegistryKeyData
  | RegistryKeyQueried RegistryKeyData
  | RegistryValueQueried RegistryValueQueriedData
  | RegistryValueSet RegistryValueSetData
  | FileCreated FileCreatedData
  | FileWritten FileWrittenData
  | FileClosed FileReleasedData
  | FileCleanedUp FileReleasedData
  | FileDeleted FileDeletedData
  | FileRenamed FileRenamedData
  | FileFsctl FileFsctlData
  | NetTcpConnected TcpConnectionData
  | NetTcpAccepted TcpConnectionData
  | NetTcpDisconnected TcpConnectionData
  | BehaviorCall BehaviorCallData
  | ProtectionStripped ProtectionStrippedData

datatype SandboxEvent =
    Source SourceEvent
  | SourceDated SourceEvent i64
  | SessionDeadline
  | ServiceStop
  | ScreenshotReceived ScreenshotFrame
  | PersistTick
  | StatsTick

definition source_event :: "SandboxEvent \<Rightarrow> SourceEvent option" where
  "source_event ev = (case ev of Source e \<Rightarrow> Some e | SourceDated e _ \<Rightarrow> Some e | _ \<Rightarrow> None)"

text \<open>What the macro \<open>source_variants!\<close> generates from its one table.\<close>

primrec source_event_type :: "SourceEvent \<Rightarrow> EventType" where
    "source_event_type (SourceEvent.ProcessStarted _) = EventType.ProcessStarted"
  | "source_event_type (SourceEvent.ProcessStopped _) = EventType.ProcessStopped"
  | "source_event_type (SourceEvent.ThreadStarted _) = EventType.ThreadStarted"
  | "source_event_type (SourceEvent.ThreadStopped _) = EventType.ThreadStopped"
  | "source_event_type (SourceEvent.ImageLoaded _) = EventType.ImageLoaded"
  | "source_event_type (SourceEvent.ImageUnloaded _) = EventType.ImageUnloaded"
  | "source_event_type (SourceEvent.RegistryKeyCreated _) = EventType.RegistryKeyCreated"
  | "source_event_type (SourceEvent.RegistryKeyDeleted _) = EventType.RegistryKeyDeleted"
  | "source_event_type (SourceEvent.RegistryKeyOpened _) = EventType.RegistryKeyOpened"
  | "source_event_type (SourceEvent.RegistryKeyClosed _) = EventType.RegistryKeyClosed"
  | "source_event_type (SourceEvent.RegistryKeyQueried _) = EventType.RegistryKeyQueried"
  | "source_event_type (SourceEvent.RegistryValueQueried _) = EventType.RegistryValueQueried"
  | "source_event_type (SourceEvent.RegistryValueSet _) = EventType.RegistryValueSet"
  | "source_event_type (SourceEvent.FileCreated _) = EventType.FileCreated"
  | "source_event_type (SourceEvent.FileWritten _) = EventType.FileWritten"
  | "source_event_type (SourceEvent.FileClosed _) = EventType.FileClosed"
  | "source_event_type (SourceEvent.FileCleanedUp _) = EventType.FileCleanedUp"
  | "source_event_type (SourceEvent.FileDeleted _) = EventType.FileDeleted"
  | "source_event_type (SourceEvent.FileRenamed _) = EventType.FileRenamed"
  | "source_event_type (SourceEvent.FileFsctl _) = EventType.FileFsctl"
  | "source_event_type (SourceEvent.NetTcpConnected _) = EventType.NetTcpConnected"
  | "source_event_type (SourceEvent.NetTcpAccepted _) = EventType.NetTcpAccepted"
  | "source_event_type (SourceEvent.NetTcpDisconnected _) = EventType.NetTcpDisconnected"
  | "source_event_type (SourceEvent.BehaviorCall _) = EventType.BehaviorCall"
  | "source_event_type (SourceEvent.ProtectionStripped _) = EventType.ProtectionStripped"

primrec into_payload :: "SourceEvent \<Rightarrow> Payload" where
    "into_payload (SourceEvent.ProcessStarted data) = Payload.ProcessStarted data"
  | "into_payload (SourceEvent.ProcessStopped data) = Payload.ProcessStopped data"
  | "into_payload (SourceEvent.ThreadStarted data) = Payload.ThreadStarted data"
  | "into_payload (SourceEvent.ThreadStopped data) = Payload.ThreadStopped data"
  | "into_payload (SourceEvent.ImageLoaded data) = Payload.ImageLoaded data"
  | "into_payload (SourceEvent.ImageUnloaded data) = Payload.ImageUnloaded data"
  | "into_payload (SourceEvent.RegistryKeyCreated data) = Payload.RegistryKeyCreated data"
  | "into_payload (SourceEvent.RegistryKeyDeleted data) = Payload.RegistryKeyDeleted data"
  | "into_payload (SourceEvent.RegistryKeyOpened data) = Payload.RegistryKeyOpened data"
  | "into_payload (SourceEvent.RegistryKeyClosed data) = Payload.RegistryKeyClosed data"
  | "into_payload (SourceEvent.RegistryKeyQueried data) = Payload.RegistryKeyQueried data"
  | "into_payload (SourceEvent.RegistryValueQueried data) = Payload.RegistryValueQueried data"
  | "into_payload (SourceEvent.RegistryValueSet data) = Payload.RegistryValueSet data"
  | "into_payload (SourceEvent.FileCreated data) = Payload.FileCreated data"
  | "into_payload (SourceEvent.FileWritten data) = Payload.FileWritten data"
  | "into_payload (SourceEvent.FileClosed data) = Payload.FileClosed data"
  | "into_payload (SourceEvent.FileCleanedUp data) = Payload.FileCleanedUp data"
  | "into_payload (SourceEvent.FileDeleted data) = Payload.FileDeleted data"
  | "into_payload (SourceEvent.FileRenamed data) = Payload.FileRenamed data"
  | "into_payload (SourceEvent.FileFsctl data) = Payload.FileFsctl data"
  | "into_payload (SourceEvent.NetTcpConnected data) = Payload.NetTcpConnected data"
  | "into_payload (SourceEvent.NetTcpAccepted data) = Payload.NetTcpAccepted data"
  | "into_payload (SourceEvent.NetTcpDisconnected data) = Payload.NetTcpDisconnected data"
  | "into_payload (SourceEvent.BehaviorCall data) = Payload.BehaviorCall data"
  | "into_payload (SourceEvent.ProtectionStripped data) = Payload.ProtectionStripped data"

subsection \<open>Bus events\<close>

datatype AgentBusEvent =
    TargetLaunched rstr
  | ProcessEnteredScope u32 rstr
  | ProcessExitedScope u32 rstr
  | DropObserved rstr "u32 option"
  | DropClosed rstr
  | ScopeDied
  | ExtendScopeExpectation rstr
  | BehaviorObserved u32 u32
  | SessionScoreRaised u32

subsection \<open>Envelopes\<close>

datatype Channel = Control | Event

text \<open>\<open>seq.fetch_add(1)\<close>: the old value, and the counter that wraps at 64 bits.\<close>

definition next_seq :: "u64 \<Rightarrow> u64 \<times> u64" where
  "next_seq seq = (seq, seq + 1)"

definition envelope_raw :: "i64 \<Rightarrow> u64 \<Rightarrow> Uuid \<Rightarrow> u32 \<Rightarrow> EventType \<Rightarrow> Payload \<Rightarrow> Envelope" where
  "envelope_raw now_ms seq study_id session_id event_type data =
     \<lparr>env_v = PROTOCOL_VERSION, env_event_type = event_type, env_ts = now_ms, env_study = study_id,
      env_session = session_id, env_seq = seq, env_data = data\<rparr>"

definition envelope_from_source :: "i64 \<Rightarrow> u64 \<Rightarrow> Uuid \<Rightarrow> u32 \<Rightarrow> SourceEvent \<Rightarrow> Envelope" where
  "envelope_from_source now_ms seq study_id session_id source =
     \<lparr>env_v = PROTOCOL_VERSION, env_event_type = source_event_type source, env_ts = now_ms,
      env_study = study_id, env_session = session_id, env_seq = seq, env_data = into_payload source\<rparr>"

text \<open>An envelope is well typed when its \<open>type\<close> field names the schema of its payload: the receiver
  validates the payload against that schema and rejects anything else.\<close>

definition well_typed :: "Envelope \<Rightarrow> bool" where
  "well_typed env \<longleftrightarrow> payload_event_type (env_data env) = env_event_type env \<and> env_v env = PROTOCOL_VERSION"

lemma payload_type_into_payload: "payload_event_type (into_payload source) = source_event_type source"
  by (cases source) simp_all

lemma well_typed_from_source [simp]: "well_typed (envelope_from_source now seq study session source)"
  by (simp add: well_typed_def envelope_from_source_def payload_type_into_payload)

lemma well_typed_raw [simp]: "well_typed (envelope_raw now seq study session t d) \<longleftrightarrow> payload_event_type d = t"
  by (simp add: well_typed_def envelope_raw_def)

lemma well_typed_ts [simp]: "well_typed (env\<lparr>env_ts := t\<rparr>) = well_typed env"
  by (simp add: well_typed_def)

lemma env_seq_simps [simp]:
  "env_seq (envelope_raw now seq study session t d) = seq"
  "env_seq (envelope_from_source now seq study session source) = seq"
  by (simp_all add: envelope_raw_def envelope_from_source_def)

end
