(* ===== verification/Config.thy ===== *)
theory Config
  imports Prelude
begin

text \<open>
  The agent configuration (\<^verbatim>\<open>crates/protocol/src/config.rs\<close>): its sections with their defaults, the
  cross-field validation, and the projection pushed to the user-actor. Parsing the TOML text is the
  work of a library and is not modelled; the records here are what it yields.
\<close>

subsection \<open>Sections and defaults\<close>

datatype EventVerbosity = VerbosityNone | Partial | Full
datatype LaunchMechanism = Token | SchedTask
datatype FocusMethod = Polling | WinEvents | WinEventsWithElements

record BrokerConfig =
  bk_uri :: rstr
  bk_control_channel :: rstr
  bk_event_channel :: rstr
  bk_verbosity :: EventVerbosity

definition BrokerConfig_default :: BrokerConfig where
  "BrokerConfig_default =
     \<lparr>bk_uri = utf ''nats://127.0.0.1:4222'',
      bk_control_channel = utf ''control'',
      bk_event_channel = utf ''events'',
      bk_verbosity = Full\<rparr>"

record TargetConfig =
  tg_path :: rstr
  tg_args :: "rstr list"
  tg_every_session :: bool

definition TargetConfig_default :: TargetConfig where
  "TargetConfig_default =
     \<lparr>tg_path = [],
      tg_args = [],
      tg_every_session = False\<rparr>"

record StudyConfig =
  sy_uptimes :: "u64 list"
  sy_autoshutdown :: bool
  sy_processes_to_terminate :: "rstr list"
  sy_scope_path :: rstr
  sy_files_to_validate :: "rstr list"

definition StudyConfig_default :: StudyConfig where
  "StudyConfig_default =
     \<lparr>sy_uptimes = [],
      sy_autoshutdown = False,
      sy_processes_to_terminate = [utf ''WINWORD'', utf ''POWERPNT'', utf ''EXCEL'', utf ''OfficeClickToRun''],
      sy_scope_path = win ''C:/ProgramData/SecOutfall/scope.json'',
      sy_files_to_validate = []\<rparr>"

record DropsConfig =
  drp_path :: rstr
  drp_extensions :: "rstr list"
  drp_max_size :: u64
  drp_limit_per_session :: u32
  drp_upload_uri :: "rstr option"

definition DropsConfig_default :: DropsConfig where
  "DropsConfig_default =
     \<lparr>drp_path = win ''C:/ProgramData/SecOutfall/Drops'',
      drp_extensions = map utf [''.txt'', ''.exe'', ''.dll'', ''.bat'', ''.ps1'', ''.py'', ''.js'', ''.vbs'', ''none''],
      drp_max_size = 10 * 1024 * 1024,
      drp_limit_per_session = 30,
      drp_upload_uri = None\<rparr>"

record ScreenshotsConfig =
  scs_path :: rstr
  scs_save :: bool
  scs_max_per_session :: u32
  scs_upload_uri :: "rstr option"

definition ScreenshotsConfig_default :: ScreenshotsConfig where
  "ScreenshotsConfig_default =
     \<lparr>scs_path = win ''C:/ProgramData/SecOutfall/Screenshots'',
      scs_save = False,
      scs_max_per_session = 30,
      scs_upload_uri = None\<rparr>"

record TimeConfig =
  tm_timestamp :: u64
  tm_offset_secs :: i64

definition TimeConfig_default :: TimeConfig where
  "TimeConfig_default =
     \<lparr>tm_timestamp = 0,
      tm_offset_secs = 0\<rparr>"

record PlatformConfig =
  pf_launch_mechanism :: LaunchMechanism
  pf_non_s0_process :: rstr
  pf_shutdown_delay_secs :: u32
  pf_runas_utility_path :: rstr

definition PlatformConfig_default :: PlatformConfig where
  "PlatformConfig_default =
     \<lparr>pf_launch_mechanism = LaunchMechanism.Token,
      pf_non_s0_process = utf ''explorer'',
      pf_shutdown_delay_secs = 5,
      pf_runas_utility_path = utf ''windows-run-as-system.exe''\<rparr>"

record UserActorSection =
  ua_path :: rstr
  ua_reactive :: bool
  ua_scripted :: bool
  ua_focus_method :: FocusMethod
  ua_screencapture :: bool

definition UserActorSection_default :: UserActorSection where
  "UserActorSection_default =
     \<lparr>ua_path = utf ''secoutfall-user-actor.exe'',
      ua_reactive = False,
      ua_scripted = False,
      ua_focus_method = WinEvents,
      ua_screencapture = False\<rparr>"

record TelemetryConfig =
  te_sentry_enabled :: bool
  te_dsn :: rstr
  te_user_actor_dsn :: rstr
  te_log_dir :: rstr

definition TelemetryConfig_default :: TelemetryConfig where
  "TelemetryConfig_default =
     \<lparr>te_sentry_enabled = False,
      te_dsn = [],
      te_user_actor_dsn = [],
      te_log_dir = win ''C:/ProgramData/SecOutfall/logs''\<rparr>"

record ScoringConfig =
  sgc_cli_started :: u32
  sgc_drop_observed :: u32
  sgc_run_key_set :: u32
  sgc_chain_injection :: u32
  sgc_chain_ransomware :: u32

definition ScoringConfig_default :: ScoringConfig where
  "ScoringConfig_default =
     \<lparr>sgc_cli_started = 4,
      sgc_drop_observed = 5,
      sgc_run_key_set = 3,
      sgc_chain_injection = 20,
      sgc_chain_ransomware = 40\<rparr>"

record DriverConfig =
  dv_enabled :: bool
  dv_sensor_path :: rstr
  dv_protected_names :: "rstr list"
  dv_drops_dir :: rstr
  dv_drop_extensions :: "rstr list"

definition DriverConfig_default :: DriverConfig where
  "DriverConfig_default =
     \<lparr>dv_enabled = False,
      dv_sensor_path = [],
      dv_protected_names = [],
      dv_drops_dir = [],
      dv_drop_extensions = []\<rparr>"

record DebugConfig =
  db_skip_reboot_and_shutdown :: bool
  db_skip_time_manipulation :: bool
  db_console :: bool

definition DebugConfig_default :: DebugConfig where
  "DebugConfig_default =
     \<lparr>db_skip_reboot_and_shutdown = False,
      db_skip_time_manipulation = False,
      db_console = False\<rparr>"

record AgentConfig =
  ac_broker :: BrokerConfig
  ac_target :: TargetConfig
  ac_study :: StudyConfig
  ac_drops :: DropsConfig
  ac_screenshots :: ScreenshotsConfig
  ac_time :: TimeConfig
  ac_platform :: PlatformConfig
  ac_user_actor :: UserActorSection
  ac_scoring :: ScoringConfig
  ac_telemetry :: TelemetryConfig
  ac_driver :: DriverConfig
  ac_debug :: DebugConfig

definition AgentConfig_default :: AgentConfig where
  "AgentConfig_default =
     \<lparr>ac_broker = BrokerConfig_default,
      ac_target = TargetConfig_default,
      ac_study = StudyConfig_default,
      ac_drops = DropsConfig_default,
      ac_screenshots = ScreenshotsConfig_default,
      ac_time = TimeConfig_default,
      ac_platform = PlatformConfig_default,
      ac_user_actor = UserActorSection_default,
      ac_scoring = ScoringConfig_default,
      ac_telemetry = TelemetryConfig_default,
      ac_driver = DriverConfig_default,
      ac_debug = DebugConfig_default\<rparr>"

record UserActorConfig =
  uac_console :: bool
  uac_reactive :: bool
  uac_scripted :: bool
  uac_focus_method :: FocusMethod
  uac_screencapture :: bool
  uac_max_screenshots_per_session :: u32
  uac_telemetry_dsn :: "rstr option"

subsection \<open>Validation\<close>

datatype ConfigError = Validation rstr

text \<open>\<open>[S].join("; ")\<close>.\<close>

fun join :: "rstr \<Rightarrow> rstr list \<Rightarrow> rstr" where
  "join sep [] = []"
| "join sep [s] = s"
| "join sep (s # t # rest) = s @ sep @ join sep (t # rest)"

definition problem_when :: "bool \<Rightarrow> string \<Rightarrow> rstr list" where
  "problem_when bad msg = (if bad then [utf msg] else [])"

definition problems :: "AgentConfig \<Rightarrow> rstr list" where
  "problems c =
     problem_when (tg_path (ac_target c) = [])
         ''target.path must not be empty''
     @ problem_when (bk_uri (ac_broker c) = [])
         ''broker.uri must not be empty''
     @ problem_when (bk_control_channel (ac_broker c) = [])
         ''broker.control_channel must not be empty''
     @ problem_when (bk_event_channel (ac_broker c) = [])
         ''broker.event_channel must not be empty''
     @ problem_when (bk_verbosity (ac_broker c) = Partial)
         ''broker.verbosity `partial` is not implemented yet; use `full` or `none`''
     @ problem_when (drp_max_size (ac_drops c) = 0)
         ''drops.max_size must be positive''
     @ problem_when (drp_limit_per_session (ac_drops c) = 0)
         ''drops.limit_per_session must be positive''
     @ problem_when (scs_max_per_session (ac_screenshots c) = 0)
         ''screenshots.max_per_session must be positive''
     @ problem_when (ua_path (ac_user_actor c) = [])
         ''user_actor.path must not be empty''
     @ problem_when (pf_launch_mechanism (ac_platform c) = LaunchMechanism.SchedTask \<and> pf_runas_utility_path (ac_platform c) = [])
         ''platform.runas_utility_path must not be empty for sched_task''
     @ problem_when (te_sentry_enabled (ac_telemetry c) \<and> te_dsn (ac_telemetry c) = [])
         ''telemetry.dsn must not be empty when sentry_enabled''
     @ problem_when (sy_scope_path (ac_study c) = [])
         ''study.scope_path must not be empty''
     @ problem_when (drp_path (ac_drops c) = [])
         ''drops.path must not be empty''
     @ problem_when (scs_path (ac_screenshots c) = [])
         ''screenshots.path must not be empty''
     @ problem_when (te_log_dir (ac_telemetry c) = [])
         ''telemetry.log_dir must not be empty''"

definition validate :: "AgentConfig \<Rightarrow> ConfigError + unit" where
  "validate c = (if problems c = [] then Inr () else Inl (Validation (join (utf ''; '') (problems c))))"

subsection \<open>What the user-actor receives\<close>

definition user_actor_config :: "AgentConfig \<Rightarrow> UserActorConfig" where
  "user_actor_config c =
     \<lparr>uac_console = db_console (ac_debug c),
      uac_reactive = ua_reactive (ac_user_actor c),
      uac_scripted = ua_scripted (ac_user_actor c),
      uac_focus_method = ua_focus_method (ac_user_actor c),
      uac_screencapture = ua_screencapture (ac_user_actor c),
      uac_max_screenshots_per_session = scs_max_per_session (ac_screenshots c),
      uac_telemetry_dsn = (if te_sentry_enabled (ac_telemetry c) \<and> te_user_actor_dsn (ac_telemetry c) \<noteq> []
        then Some (te_user_actor_dsn (ac_telemetry c)) else None)\<rparr>"

subsection \<open>Properties\<close>

lemma problem_when_Nil [simp]: "problem_when b m = [] \<longleftrightarrow> \<not> b"
  by (simp add: problem_when_def)

lemma problem_when_simps [simp]: "problem_when False m = []" "problem_when True m = [utf m]"
  by (simp_all add: problem_when_def)

lemmas section_defaults = AgentConfig_default_def BrokerConfig_default_def TargetConfig_default_def
  StudyConfig_default_def DropsConfig_default_def ScreenshotsConfig_default_def TimeConfig_default_def
  PlatformConfig_default_def UserActorSection_default_def ScoringConfig_default_def
  TelemetryConfig_default_def DriverConfig_default_def DebugConfig_default_def

lemma default_problems:
  "problems (AgentConfig_default\<lparr>ac_target := t\<rparr>) = problem_when (tg_path t = []) ''target.path must not be empty''"
  by (simp add: problems_def section_defaults win_def del: utf_Cons) (simp add: section_defaults win_def)

text \<open>
  The built-in defaults are a valid configuration up to the sample: a file that sets only
  \<open>target.path\<close> validates, and without it the one reported problem is the missing path. A validated
  configuration gives the plugins what they rely on: an implemented verbosity, positive quotas,
  a helper for the scheduled-task launcher, and state paths that are not the service's working
  directory.
\<close>

theorem validate_accepts_exactly:
  "validate (AgentConfig_default\<lparr>ac_target := t\<rparr>)
     = (if tg_path t = [] then Inl (Validation (utf ''target.path must not be empty'')) else Inr ())
   \<and> (validate c = Inr () \<longleftrightarrow>
     tg_path (ac_target c) \<noteq> [] \<and> bk_uri (ac_broker c) \<noteq> [] \<and> bk_control_channel (ac_broker c) \<noteq> []
   \<and> bk_event_channel (ac_broker c) \<noteq> [] \<and> bk_verbosity (ac_broker c) \<in> {VerbosityNone, Full}
   \<and> 0 < drp_max_size (ac_drops c) \<and> 0 < drp_limit_per_session (ac_drops c)
   \<and> 0 < scs_max_per_session (ac_screenshots c) \<and> ua_path (ac_user_actor c) \<noteq> []
   \<and> (pf_launch_mechanism (ac_platform c) = LaunchMechanism.Token \<or> 0 < length (pf_runas_utility_path (ac_platform c)))
   \<and> (te_sentry_enabled (ac_telemetry c) = False \<or> 0 < length (te_dsn (ac_telemetry c)))
   \<and> [] \<notin> {sy_scope_path (ac_study c), drp_path (ac_drops c), scs_path (ac_screenshots c), te_log_dir (ac_telemetry c)})"
proof (intro conjI)
  show "validate (AgentConfig_default\<lparr>ac_target := t\<rparr>)
     = (if tg_path t = [] then Inl (Validation (utf ''target.path must not be empty'')) else Inr ())"
    by (simp add: validate_def default_problems del: utf_Cons)
  have v: "x \<noteq> Partial \<longleftrightarrow> x \<in> {VerbosityNone, Full}" for x by (cases x) auto
  have l: "x \<noteq> LaunchMechanism.SchedTask \<longleftrightarrow> x = LaunchMechanism.Token" for x by (cases x) auto
  show "validate c = Inr () \<longleftrightarrow>
     tg_path (ac_target c) \<noteq> [] \<and> bk_uri (ac_broker c) \<noteq> [] \<and> bk_control_channel (ac_broker c) \<noteq> []
   \<and> bk_event_channel (ac_broker c) \<noteq> [] \<and> bk_verbosity (ac_broker c) \<in> {VerbosityNone, Full}
   \<and> 0 < drp_max_size (ac_drops c) \<and> 0 < drp_limit_per_session (ac_drops c)
   \<and> 0 < scs_max_per_session (ac_screenshots c) \<and> ua_path (ac_user_actor c) \<noteq> []
   \<and> (pf_launch_mechanism (ac_platform c) = LaunchMechanism.Token \<or> 0 < length (pf_runas_utility_path (ac_platform c)))
   \<and> (te_sentry_enabled (ac_telemetry c) = False \<or> 0 < length (te_dsn (ac_telemetry c)))
   \<and> [] \<notin> {sy_scope_path (ac_study c), drp_path (ac_drops c), scs_path (ac_screenshots c), te_log_dir (ac_telemetry c)}"
    unfolding v [symmetric] by (auto simp: validate_def problems_def l word_neq_0_conv)
qed

end
