(* ===== verification/Scope.thy ===== *)
theory Scope
  imports Events Path_Text
begin

text \<open>
  The scope aggregate (\<^verbatim>\<open>crates/agent/src/domain/scope.rs\<close>): what persists across reboots and the pure
  tracking logic on it. Mutating methods return the new state next to their result. \<open>BTreeSet<String>\<close>
  is a set of strings, \<open>str::to_lowercase\<close> the parameter \<open>lc\<close>.
\<close>

subsection \<open>State\<close>

record ScopedProcessRecord =
  spr_pid :: u32
  spr_parent_pid :: "u32 option"
  spr_name :: rstr
  spr_image_path :: "rstr option"
  spr_command_line :: "rstr option"
  spr_started_at_ms :: i64
  spr_ended_at_ms :: "i64 option"

record SessionRecord =
  ses_id :: u32
  ses_scheduled_duration_secs :: "u64 option"
  ses_started_at_ms :: i64
  ses_ended_at_ms :: "i64 option"
  ses_abandoned :: bool
  ses_scoped_processes :: "ScopedProcessRecord list"
  ses_observed_drops :: "rstr set"

record ScopeState =
  sst_study_id :: Uuid
  sst_sessions :: "SessionRecord list"

definition current_session :: "ScopeState \<Rightarrow> SessionRecord option" where
  "current_session state = last_opt (sst_sessions state)"

text \<open>A mutation through \<open>current_session_mut\<close>; without a session it does nothing.\<close>

definition update_current :: "(SessionRecord \<Rightarrow> SessionRecord) \<Rightarrow> ScopeState \<Rightarrow> ScopeState" where
  "update_current f state = state\<lparr>sst_sessions := update_last f (sst_sessions state)\<rparr>"

record ScopeTracker =
  trk_expected :: "rstr list"
  trk_closed :: "rstr set"

subsection \<open>Operations\<close>

definition normalize_image_name :: "(rstr \<Rightarrow> rstr) \<Rightarrow> rstr \<Rightarrow> rstr" where
  "normalize_image_name lc raw = lc raw"

definition ScopeTracker_new :: "rstr list \<Rightarrow> ScopeTracker" where
  "ScopeTracker_new expected = \<lparr>trk_expected = expected, trk_closed = {}\<rparr>"

definition expect :: "(rstr \<Rightarrow> rstr) \<Rightarrow> rstr \<Rightarrow> ScopeTracker \<Rightarrow> ScopeTracker" where
  "expect lc raw trk =
     (let normalized = normalize_image_name lc raw in
      if normalized \<noteq> [] \<and> normalized \<notin> set (trk_expected trk)
      then trk\<lparr>trk_expected := trk_expected trk @ [normalized]\<rparr> else trk)"

text \<open>\<open>u32::try_from(n).unwrap_or(u32::MAX)\<close>.\<close>

definition u32_try_from :: "nat \<Rightarrow> u32" where
  "u32_try_from n = (if n < 2 ^ 32 then of_nat n else - 1)"

definition new_session :: "u32 \<Rightarrow> u64 option \<Rightarrow> i64 \<Rightarrow> SessionRecord" where
  "new_session sid scheduled now_ms =
     \<lparr>ses_id = sid, ses_scheduled_duration_secs = scheduled, ses_started_at_ms = now_ms,
      ses_ended_at_ms = None, ses_abandoned = False, ses_scoped_processes = [],
      ses_observed_drops = {}\<rparr>"

definition open_session :: "ScopeTracker \<Rightarrow> ScopeState \<Rightarrow> i64 \<Rightarrow> u64 option \<Rightarrow> ScopeTracker \<times> ScopeState" where
  "open_session trk state now_ms scheduled =
     (trk\<lparr>trk_closed := {}\<rparr>,
      state\<lparr>sst_sessions := sst_sessions state
        @ [new_session (u32_try_from (length (sst_sessions state))) scheduled now_ms]\<rparr>)"

definition live_member :: "u32 \<Rightarrow> ScopedProcessRecord \<Rightarrow> bool" where
  "live_member pid p \<longleftrightarrow> spr_pid p = pid \<and> spr_ended_at_ms p = None"

definition is_scoped :: "ScopeState \<Rightarrow> u32 \<Rightarrow> bool" where
  "is_scoped state pid =
     (case current_session state of
        None \<Rightarrow> False
      | Some session \<Rightarrow> list_ex (live_member pid) (ses_scoped_processes session))"

definition process_entered :: "(rstr \<Rightarrow> rstr) \<Rightarrow> ScopeTracker \<Rightarrow> ScopeState \<Rightarrow> ProcessStartedData \<Rightarrow> i64
    \<Rightarrow> bool \<times> ScopeState" where
  "process_entered lc trk state data now_ms =
     (let name = normalize_image_name lc (ps_name data);
          inherited = (case ps_parent_pid data of None \<Rightarrow> False | Some parent \<Rightarrow> is_scoped state parent);
          expected = name \<in> set (trk_expected trk) in
      if \<not> inherited \<and> \<not> expected then (False, state)
      else case current_session state of
        None \<Rightarrow> (False, state)
      | Some _ \<Rightarrow>
          (True, update_current (\<lambda>session. session\<lparr>ses_scoped_processes :=
             filter (\<lambda>p. spr_pid p \<noteq> ps_pid data) (ses_scoped_processes session)
             @ [\<lparr>spr_pid = ps_pid data, spr_parent_pid = ps_parent_pid data, spr_name = name,
                 spr_image_path = ps_image_path data, spr_command_line = ps_command_line data,
                 spr_started_at_ms = now_ms, spr_ended_at_ms = None\<rparr>]\<rparr>) state))"

definition process_exited :: "ScopeState \<Rightarrow> ProcessStoppedData \<Rightarrow> i64 \<Rightarrow> bool \<times> ScopeState" where
  "process_exited state data now_ms =
     (case current_session state of
        None \<Rightarrow> (False, state)
      | Some session \<Rightarrow>
          if list_ex (live_member (pst_pid data)) (ses_scoped_processes session)
          then (True, update_current (\<lambda>session. session\<lparr>ses_scoped_processes :=
                  update_first (live_member (pst_pid data)) (\<lambda>p. p\<lparr>spr_ended_at_ms := Some now_ms\<rparr>)
                    (ses_scoped_processes session)\<rparr>) state)
          else (False, state))"

definition scope_dead :: "ScopeState \<Rightarrow> bool" where
  "scope_dead state =
     (case current_session state of
        None \<Rightarrow> False
      | Some session \<Rightarrow> ses_scoped_processes session \<noteq> []
          \<and> list_all (\<lambda>p. spr_ended_at_ms p \<noteq> None) (ses_scoped_processes session))"

definition drop_observed :: "(rstr \<Rightarrow> rstr) \<Rightarrow> ScopeState \<Rightarrow> FileWrittenData \<Rightarrow> DropFilter
    \<Rightarrow> rstr option \<times> ScopeState" where
  "drop_observed lc state data fltr =
     (if \<not> is_scoped state (fw_pid data) then (None, state)
      else case fw_file_name data of
        None \<Rightarrow> (None, state)
      | Some path \<Rightarrow>
          if \<not> DropFilter_matches lc fltr path then (None, state)
          else case current_session state of
            None \<Rightarrow> (None, state)
          | Some session \<Rightarrow>
              if path \<in> ses_observed_drops session then (None, state)
              else (Some path, update_current (\<lambda>session. session\<lparr>ses_observed_drops :=
                      insert path (ses_observed_drops session)\<rparr>) state))"

definition drop_closed :: "ScopeTracker \<Rightarrow> ScopeState \<Rightarrow> FileReleasedData \<Rightarrow> rstr option \<times> ScopeTracker" where
  "drop_closed trk state data =
     (case fr_file_name data of
        None \<Rightarrow> (None, trk)
      | Some path \<Rightarrow>
          if \<not> is_scoped state (fr_pid data) then (None, trk)
          else if \<not> (case current_session state of None \<Rightarrow> False
                     | Some session \<Rightarrow> path \<in> ses_observed_drops session) then (None, trk)
          else if path \<in> trk_closed trk then (None, trk)
          else (Some path, trk\<lparr>trk_closed := insert path (trk_closed trk)\<rparr>))"

subsection \<open>The current session after each operation\<close>

lemma current_session_update [scope_simps]:
  "current_session (update_current f state) = map_option f (current_session state)"
  by (simp add: current_session_def update_current_def)

lemma study_id_update [scope_simps]: "sst_study_id (update_current f state) = sst_study_id state"
  by (simp add: update_current_def)

lemma sessions_update_current [scope_simps]:
  "sst_sessions (update_current f state) = update_last f (sst_sessions state)"
  by (simp add: update_current_def)

lemma current_session_open [scope_simps]:
  "open_session trk state now d = (trk', state') \<Longrightarrow>
   current_session state' = Some (new_session (u32_try_from (length (sst_sessions state))) d now)"
  by (auto simp: open_session_def current_session_def)

definition live_pids :: "ScopeState \<Rightarrow> u32 set" where
  "live_pids state = {pid. is_scoped state pid}"

text \<open>The pids that ever joined the current session.\<close>

definition member_pids :: "ScopeState \<Rightarrow> u32 set" where
  "member_pids state = (case current_session state of None \<Rightarrow> {}
     | Some session \<Rightarrow> spr_pid ` set (ses_scoped_processes session))"

definition observed :: "ScopeState \<Rightarrow> rstr set" where
  "observed state = (case current_session state of None \<Rightarrow> {} | Some session \<Rightarrow> ses_observed_drops session)"

subsection \<open>Invariant\<close>

text \<open>Session ids are positions, no pid has two records in a session, and every path reported closed
  was observed in the current session.\<close>

definition session_wf :: "SessionRecord \<Rightarrow> bool" where
  "session_wf session \<longleftrightarrow> distinct (map spr_pid (ses_scoped_processes session))"

definition sessions_wf :: "SessionRecord list \<Rightarrow> bool" where
  "sessions_wf ss \<longleftrightarrow> list_all session_wf ss \<and> map ses_id ss = map u32_try_from [0..<length ss]"

definition scope_wf :: "ScopeTracker \<Rightarrow> ScopeState \<Rightarrow> bool" where
  "scope_wf trk state \<longleftrightarrow> sessions_wf (sst_sessions state) \<and> trk_closed trk \<subseteq> observed state"

lemma sessions_wf_snoc:
  "sessions_wf (ss @ [s]) \<longleftrightarrow> sessions_wf ss \<and> session_wf s \<and> ses_id s = u32_try_from (length ss)"
  by (auto simp: sessions_wf_def)

lemma sessions_wf_update_last:
  assumes "sessions_wf ss" "\<And>s. session_wf s \<Longrightarrow> session_wf (f s) \<and> ses_id (f s) = ses_id s"
  shows "sessions_wf (update_last f ss)"
  using assms by (cases ss rule: rev_cases) (auto simp: sessions_wf_snoc)

lemma current_session_wf: "sessions_wf (sst_sessions state) \<Longrightarrow> current_session state = Some s \<Longrightarrow> session_wf s"
  by (auto simp: current_session_def last_opt_eq_Some sessions_wf_snoc)

lemma session_wf_new [simp]: "session_wf (new_session i d now)"
  by (simp add: session_wf_def new_session_def)

lemma open_session_wf:
  "scope_wf trk state \<Longrightarrow> open_session trk state now d = (trk', state') \<Longrightarrow> scope_wf trk' state'"
  by (auto simp: scope_wf_def open_session_def sessions_wf_snoc new_session_def session_wf_def)

lemma observed_update_processes:
  "observed (update_current (\<lambda>s. s\<lparr>ses_scoped_processes := f s\<rparr>) state) = observed state"
  by (simp add: observed_def current_session_update split: option.splits)

lemma process_entered_wf:
  assumes "scope_wf trk state" "process_entered lc trk state data now = (b, state')"
  shows "scope_wf trk state'"
proof -
  have "session_wf (s\<lparr>ses_scoped_processes := filter (\<lambda>p. spr_pid p \<noteq> ps_pid data) (ses_scoped_processes s)
      @ [r]\<rparr>)" if "session_wf s" "spr_pid r = ps_pid data" for s r
    using that by (auto simp: session_wf_def distinct_map_filter)
  then show ?thesis
    using assms
    by (auto simp: process_entered_def Let_def scope_wf_def scope_simps observed_update_processes
          intro!: sessions_wf_update_last split: if_splits option.splits)
qed

lemma process_exited_wf:
  assumes "scope_wf trk state" "process_exited state data now = (b, state')"
  shows "scope_wf trk state'"
  using assms
  by (auto simp: process_exited_def scope_wf_def scope_simps observed_update_processes session_wf_def
        map_update_first intro!: sessions_wf_update_last split: if_splits option.splits)

lemma drop_observed_wf:
  assumes "scope_wf trk state" "drop_observed lc state data fltr = (r, state')"
  shows "scope_wf trk state'"
  using assms
  by (fastforce simp: drop_observed_def scope_wf_def scope_simps observed_def session_wf_def
        intro!: sessions_wf_update_last split: if_splits option.splits)

lemma drop_closed_wf:
  "scope_wf trk state \<Longrightarrow> drop_closed trk state data = (r, trk') \<Longrightarrow> scope_wf trk' state"
  by (auto simp: drop_closed_def scope_wf_def observed_def split: if_splits option.splits)

lemma expect_wf: "scope_wf trk state \<Longrightarrow> scope_wf (expect lc n trk) state"
  by (simp add: expect_def scope_wf_def Let_def)

lemmas scope_wf_intros = process_entered_wf process_exited_wf drop_observed_wf drop_closed_wf expect_wf open_session_wf

subsection \<open>Membership\<close>

lemma is_scoped_update_processes:
  "is_scoped (update_current (\<lambda>s. s\<lparr>ses_scoped_processes := f (ses_scoped_processes s)\<rparr>) state) pid
   = (case current_session state of None \<Rightarrow> False
      | Some s \<Rightarrow> list_ex (live_member pid) (f (ses_scoped_processes s)))"
  by (simp add: is_scoped_def current_session_update split: option.splits)

lemma live_member_filter:
  "list_ex (live_member pid) (filter (\<lambda>p. spr_pid p \<noteq> q) ps) \<longleftrightarrow> pid \<noteq> q \<and> list_ex (live_member pid) ps"
  by (auto simp: list_ex_iff live_member_def)

lemma live_member_exit:
  assumes "distinct (map spr_pid ps)"
  shows "list_ex (live_member pid) (update_first (live_member q) (\<lambda>p. p\<lparr>spr_ended_at_ms := Some now\<rparr>) ps)
    \<longleftrightarrow> pid \<noteq> q \<and> list_ex (live_member pid) ps"
  using assms
proof (induction ps)
  case (Cons p ps)
  have "\<not> list_ex (live_member (spr_pid p)) ps"
    using Cons.prems by (auto simp: list_ex_iff live_member_def) (metis imageI)
  with Cons show ?case by (auto simp: live_member_def [of _ p] live_member_def [of _ "p\<lparr>spr_ended_at_ms := Some now\<rparr>"])
qed simp

lemma scope_enter:
  "process_entered lc trk state data now = (b, state') \<Longrightarrow>
     b \<longleftrightarrow> current_session state \<noteq> None \<and> (lc (ps_name data) \<in> set (trk_expected trk)
              \<or> (\<exists>parent. ps_parent_pid data = Some parent \<and> parent \<in> live_pids state))"
  "process_entered lc trk state data now = (b, state') \<Longrightarrow>
     live_pids state' = (if b then insert (ps_pid data) (live_pids state) else live_pids state)"
proof -
  assume *: "process_entered lc trk state data now = (b, state')"
  then show "b \<longleftrightarrow> current_session state \<noteq> None \<and> (lc (ps_name data) \<in> set (trk_expected trk)
              \<or> (\<exists>parent. ps_parent_pid data = Some parent \<and> parent \<in> live_pids state))"
    by (auto simp: process_entered_def Let_def live_pids_def normalize_image_name_def split: option.splits if_splits)
  from * show "live_pids state' = (if b then insert (ps_pid data) (live_pids state) else live_pids state)"
    by (auto simp: process_entered_def Let_def live_pids_def is_scoped_def current_session_update
          live_member_filter list_ex_append split: option.splits if_splits)
       (auto simp: live_member_def)
qed

lemma scope_exit:
  "scope_wf trk state \<Longrightarrow> live_pids (snd (process_exited state stop now)) = live_pids state - {pst_pid stop}"
  "fst (process_exited state stop now) \<longleftrightarrow> pst_pid stop \<in> live_pids state"
proof -
  assume wf: "scope_wf trk state"
  have "distinct (map spr_pid (ses_scoped_processes s))" if "current_session state = Some s" for s
    using current_session_wf [OF _ that] wf by (simp add: scope_wf_def session_wf_def)
  then show "live_pids (snd (process_exited state stop now)) = live_pids state - {pst_pid stop}"
    by (auto simp: process_exited_def live_pids_def is_scoped_def current_session_update
          live_member_exit split: option.splits)
qed (simp add: process_exited_def live_pids_def is_scoped_def split: option.splits)

lemma exited_member: "b \<Longrightarrow> process_exited state stop now = (b, state') \<Longrightarrow> member_pids state' \<noteq> {}"
proof -
  assume *: b "process_exited state stop now = (b, state')"
  have "update_first P f xs \<noteq> []" if "list_ex P xs" for P :: "ScopedProcessRecord \<Rightarrow> bool" and f xs
    using that by (cases xs) auto
  with * show ?thesis
    by (auto simp: process_exited_def member_pids_def scope_simps split: if_splits option.splits)
qed

lemma scope_dead_iff: "scope_dead state \<longleftrightarrow> member_pids state \<noteq> {} \<and> live_pids state = {}"
  by (auto simp: scope_dead_def member_pids_def live_pids_def is_scoped_def list_all_iff list_ex_iff
        live_member_def split: option.splits)


definition started_evil :: ProcessStartedData where
  "started_evil = \<lparr>ps_pid = 7, ps_parent_pid = None, ps_name = utf ''evil.exe'', ps_image_path = None,
     ps_command_line = None, ps_os_session_id = None\<rparr>"

definition opened :: ScopeState where
  "opened = \<lparr>sst_study_id = 1, sst_sessions = [new_session 0 None 0]\<rparr>"


end
