(* ===== verification/Score.thy ===== *)
theory Score
  imports App_Event Driver_Wire
begin

text \<open>
  Scoring (\<^verbatim>\<open>crates/agent/src/domain/score.rs\<close> and the consumer of \<^verbatim>\<open>plugins/scoring.rs\<close>): per-process
  behaviour memory that detects chains of hooked calls, and the session maximum. The detector is
  related to a specification on the bare history of calls of each process.
\<close>

subsection \<open>Signals and chains\<close>

datatype ScoreSignal = CliInterpreter rstr | SigDropObserved

record ScoreWeights =
  wt_cli_started :: u32
  wt_drop_observed :: u32
  wt_run_key_set :: u32
  wt_chain_injection :: u32
  wt_chain_ransomware :: u32

definition strip_suffix :: "rstr \<Rightarrow> rstr \<Rightarrow> rstr option" where
  "strip_suffix suffix s =
     (if length suffix \<le> length s \<and> drop (length s - length suffix) s = suffix
      then Some (take (length s - length suffix) s) else None)"

definition is_cli_interpreter :: "rstr \<Rightarrow> bool" where
  "is_cli_interpreter img =
     (let lowered = to_ascii_lowercase img;
          bare = (case strip_suffix (utf ''.exe'') lowered of None \<Rightarrow> lowered | Some b \<Rightarrow> b) in
      bare \<in> {utf ''cmd'', utf ''powershell'', utf ''pwsh'', utf ''wscript'', utf ''cscript'',
              utf ''mshta'', utf ''rundll32'', utf ''regsvr32''})"

definition score_signal :: "ScoreWeights \<Rightarrow> ScoreSignal \<Rightarrow> u32 option" where
  "score_signal weights signal =
     (case signal of
        CliInterpreter img \<Rightarrow> if is_cli_interpreter img then Some (wt_cli_started weights) else None
      | SigDropObserved \<Rightarrow> Some (wt_drop_observed weights))"

definition is_scoring_relevant :: "u32 \<Rightarrow> bool" where
  "is_scoring_relevant api \<longleftrightarrow> api \<in> {NT_CREATE_THREAD_EX, NT_SET_VALUE_KEY_RUN_KEY,
     NT_WRITE_VM_CROSS_PROCESS, NT_DELETE_FILE_SHADOW_COPY, CRYPT_ENCRYPT}"

datatype ChainId = Injection | Ransomware

definition MASS_ENCRYPT_MIN :: u32 where "MASS_ENCRYPT_MIN = 8"

definition members :: "ChainId \<Rightarrow> (u32 \<times> u32) list" where
  "members chain =
     (case chain of
        Injection \<Rightarrow> [(NT_WRITE_VM_CROSS_PROCESS, 1), (NT_CREATE_THREAD_EX, 1)]
      | Ransomware \<Rightarrow> [(CRYPT_ENCRYPT, MASS_ENCRYPT_MIN), (NT_DELETE_FILE_SHADOW_COPY, 1)])"

definition chain_weight :: "ScoreWeights \<Rightarrow> ChainId \<Rightarrow> u32" where
  "chain_weight weights chain =
     (case chain of Injection \<Rightarrow> wt_chain_injection weights | Ransomware \<Rightarrow> wt_chain_ransomware weights)"

record BehaviorFinding =
  bf_chains :: "ChainId list"
  bf_run_key_set :: bool

record PidBehavior =
  pb_counts :: "(u32 \<times> u32) list"
  pb_fired :: "ChainId list"
  pb_run_key_seen :: bool

record ChainDetector =
  cd_per_pid :: "(u32 \<times> PidBehavior) list"
  cd_dropped_pids :: u64

definition MAX_TRACKED_PIDS :: nat where "MAX_TRACKED_PIDS = 4096"

definition empty_finding :: BehaviorFinding where
  "empty_finding = \<lparr>bf_chains = [], bf_run_key_set = False\<rparr>"

definition empty_behavior :: PidBehavior where
  "empty_behavior = \<lparr>pb_counts = [], pb_fired = [], pb_run_key_seen = False\<rparr>"

definition empty_detector :: ChainDetector where
  "empty_detector = \<lparr>cd_per_pid = [], cd_dropped_pids = 0\<rparr>"

subsection \<open>Detector operations\<close>

definition bump :: "(u32 \<times> u32) list \<Rightarrow> u32 \<Rightarrow> (u32 \<times> u32) list" where
  "bump counts api =
     (if list_ex (\<lambda>e. fst e = api) counts
      then update_first (\<lambda>e. fst e = api) (\<lambda>e. (fst e, snd e + 1)) counts
      else counts @ [(api, 1)])"

definition count_of :: "(u32 \<times> u32) list \<Rightarrow> u32 \<Rightarrow> u32" where
  "count_of counts api = (case List.find (\<lambda>e. fst e = api) counts of None \<Rightarrow> 0 | Some e \<Rightarrow> snd e)"

text \<open>\<open>slot_for\<close> returns whether the pid has a slot afterwards, and the detector.\<close>

definition slot_for :: "ChainDetector \<Rightarrow> u32 \<Rightarrow> bool \<times> ChainDetector" where
  "slot_for d pid =
     (if \<not> list_ex (\<lambda>e. fst e = pid) (cd_per_pid d) then
        (if MAX_TRACKED_PIDS \<le> length (cd_per_pid d)
         then (False, d\<lparr>cd_dropped_pids := cd_dropped_pids d + 1\<rparr>)
         else (True, d\<lparr>cd_per_pid := cd_per_pid d @ [(pid, empty_behavior)]\<rparr>))
      else (True, d))"

text \<open>The loop over the two chains in \<open>observe\<close>, on one slot.\<close>

fun fire_chains :: "ChainId list \<Rightarrow> PidBehavior \<Rightarrow> ChainId list \<Rightarrow> PidBehavior \<times> ChainId list" where
  "fire_chains [] slot fired_now = (slot, fired_now)"
| "fire_chains (chain # rest) slot fired_now =
     (if chain \<in> set (pb_fired slot) then fire_chains rest slot fired_now
      else if list_all (\<lambda>(api, mn). mn \<le> count_of (pb_counts slot) api) (members chain)
      then fire_chains rest (slot\<lparr>pb_fired := pb_fired slot @ [chain]\<rparr>) (fired_now @ [chain])
      else fire_chains rest slot fired_now)"

definition observe_slot :: "u32 \<Rightarrow> PidBehavior \<Rightarrow> PidBehavior \<times> BehaviorFinding" where
  "observe_slot api slot =
     (let first_run_key = api = NT_SET_VALUE_KEY_RUN_KEY \<and> \<not> pb_run_key_seen slot;
          slot = (if first_run_key then slot\<lparr>pb_run_key_seen := True\<rparr> else slot);
          slot = slot\<lparr>pb_counts := bump (pb_counts slot) api\<rparr> in
      case fire_chains [Injection, Ransomware] slot [] of (slot, fired_now) \<Rightarrow>
        (slot, \<lparr>bf_chains = fired_now, bf_run_key_set = first_run_key\<rparr>))"

definition observe :: "u32 \<Rightarrow> u32 \<Rightarrow> ChainDetector \<Rightarrow> BehaviorFinding \<times> ChainDetector" where
  "observe pid api d =
     (case slot_for d pid of (present, d) \<Rightarrow>
        if \<not> present then (empty_finding, d)
        else case List.find (\<lambda>e. fst e = pid) (cd_per_pid d) of
          None \<Rightarrow> (empty_finding, d)
        | Some (_, slot) \<Rightarrow>
            (case observe_slot api slot of (slot, finding) \<Rightarrow>
               (finding, d\<lparr>cd_per_pid := update_first (\<lambda>e. fst e = pid) (\<lambda>e. (fst e, slot)) (cd_per_pid d)\<rparr>)))"

definition forget :: "u32 \<Rightarrow> ChainDetector \<Rightarrow> ChainDetector" where
  "forget pid d = d\<lparr>cd_per_pid := filter (\<lambda>e. fst e \<noteq> pid) (cd_per_pid d)\<rparr>"

subsection \<open>The scoring consumer\<close>

record Scoring =
  sg_detector :: ChainDetector
  sg_max_score :: u32

definition candidate_of :: "ScoreWeights \<Rightarrow> AgentBusEvent \<Rightarrow> ChainDetector \<Rightarrow> u32 option \<times> ChainDetector" where
  "candidate_of weights ev detector =
     (case ev of
        ProcessEnteredScope _ name \<Rightarrow> (score_signal weights (CliInterpreter name), detector)
      | DropObserved _ _ \<Rightarrow> (score_signal weights SigDropObserved, detector)
      | BehaviorObserved pid api \<Rightarrow>
          (case observe pid api detector of (finding, detector) \<Rightarrow>
             (if bf_run_key_set finding then Some (wt_run_key_set weights)
              else if bf_chains finding = [] then None
              else Some (Max (set (map (chain_weight weights) (bf_chains finding)))), detector))
      | ProcessExitedScope pid _ \<Rightarrow> (None, forget pid detector)
      | _ \<Rightarrow> (None, detector))"

text \<open>One received bus event: the new state and what is published on the bus.\<close>

definition scoring_consume :: "ScoreWeights \<Rightarrow> AgentBusEvent \<Rightarrow> Scoring \<Rightarrow> Scoring \<times> AgentBusEvent list" where
  "scoring_consume weights ev sc =
     (case candidate_of weights ev (sg_detector sc) of (cand, detector) \<Rightarrow>
        (case cand of
           None \<Rightarrow> (sc\<lparr>sg_detector := detector\<rparr>, [])
         | Some score \<Rightarrow>
             let previous = sg_max_score sc in
             (sc\<lparr>sg_detector := detector, sg_max_score := max previous score\<rparr>,
              if previous < score then [SessionScoreRaised score] else [])))"

subsection \<open>Specification on call histories\<close>

definition chain_complete :: "ChainId \<Rightarrow> u32 list \<Rightarrow> bool" where
  "chain_complete chain calls \<longleftrightarrow>
     list_all (\<lambda>(api, mn). unat mn \<le> count_list calls api) (members chain)"

text \<open>What the detector must remember of a process whose calls so far are \<open>calls\<close>.\<close>

definition slot_abs :: "u32 list \<Rightarrow> PidBehavior \<Rightarrow> bool" where
  "slot_abs calls slot \<longleftrightarrow>
     (\<forall>api. count_of (pb_counts slot) api = of_nat (count_list calls api))
   \<and> (\<forall>chain. chain \<in> set (pb_fired slot) \<longleftrightarrow> chain_complete chain calls)
   \<and> (pb_run_key_seen slot \<longleftrightarrow> NT_SET_VALUE_KEY_RUN_KEY \<in> set calls)"

lemma count_of_bump: "count_of (bump counts api) a = count_of counts a + (if a = api then 1 else 0)"
proof (cases "list_ex (\<lambda>e. fst e = api) counts")
  case True
  then show ?thesis unfolding bump_def by (induction counts) (auto simp: count_of_def)
next
  case False
  then have "List.find (\<lambda>e. fst e = a) (counts @ [(api, 1)])
      = (if a = api then Some (api, 1) else List.find (\<lambda>e. fst e = a) counts)"
    by (induction counts) (auto simp: find_None_iff)
  moreover have "a = api \<Longrightarrow> List.find (\<lambda>e. fst e = a) counts = None"
    using False by (auto simp: find_None_iff list_ex_iff)
  ultimately show ?thesis using False by (auto simp: bump_def count_of_def)
qed

lemma chain_complete_snoc: "chain_complete chain calls \<Longrightarrow> chain_complete chain (calls @ [api])"
  unfolding chain_complete_def by (auto simp: list_all_iff intro: le_trans)

lemma threshold_count:
  assumes "\<forall>api. count_of counts api = of_nat (count_list calls api)" "length calls < 2 ^ 32"
  shows "list_all (\<lambda>(api, mn). mn \<le> count_of counts api) (members chain) \<longleftrightarrow> chain_complete chain calls"
proof -
  have "unat (count_of counts api) = count_list calls api" for api
    using assms count_le_length [of calls api] by (simp add: unat_of_nat take_bit_nat_eq_self)
  then show ?thesis by (simp add: chain_complete_def word_le_nat_alt)
qed

lemma fire_chains_spec:
  assumes "distinct cs"
    and "\<forall>c. list_all (\<lambda>(api, mn). mn \<le> count_of (pb_counts slot) api) (members c) = P c"
    and "fire_chains cs slot now = (slot', now')"
  shows "now' = now @ filter (\<lambda>c. P c \<and> c \<notin> set (pb_fired slot)) cs
    \<and> set (pb_fired slot') = set (pb_fired slot) \<union> {c \<in> set cs. P c}
    \<and> pb_counts slot' = pb_counts slot \<and> pb_run_key_seen slot' = pb_run_key_seen slot"
  using assms
proof (induction cs slot now rule: fire_chains.induct)
  case (2 chain rest slot now)
  show ?case
  proof (cases "chain \<notin> set (pb_fired slot) \<and> P chain")
    case True
    then have "fire_chains rest (slot\<lparr>pb_fired := pb_fired slot @ [chain]\<rparr>) (now @ [chain]) = (slot', now')"
      using "2.prems" by simp
    then have ih: "now' = (now @ [chain])
          @ filter (\<lambda>c. P c \<and> c \<notin> set (pb_fired (slot\<lparr>pb_fired := pb_fired slot @ [chain]\<rparr>))) rest
        \<and> set (pb_fired slot') = set (pb_fired (slot\<lparr>pb_fired := pb_fired slot @ [chain]\<rparr>)) \<union> {c \<in> set rest. P c}
        \<and> pb_counts slot' = pb_counts slot \<and> pb_run_key_seen slot' = pb_run_key_seen slot"
      using "2.IH"(2) "2.prems" True by simp
    moreover have "filter (\<lambda>c. P c \<and> c \<notin> set (pb_fired slot @ [chain])) rest
        = filter (\<lambda>c. P c \<and> c \<notin> set (pb_fired slot)) rest"
      using "2.prems"(1) by (intro filter_cong) auto
    ultimately show ?thesis using True by auto
  next
    case False
    then show ?thesis using "2.prems" "2.IH"(1,3) by (auto split: if_splits)
  qed
qed simp

lemma UNIV_ChainId: "set [Injection, Ransomware] = UNIV"
  using ChainId.exhaust by auto

text \<open>One observation on a slot implements one call of the history.\<close>

lemma observe_slot_spec:
  assumes "slot_abs calls slot" "Suc (length calls) < 2 ^ 32" "observe_slot api slot = (slot', finding)"
  shows "slot_abs (calls @ [api]) slot'"
    and "bf_chains finding = filter (\<lambda>c. chain_complete c (calls @ [api]) \<and> \<not> chain_complete c calls) [Injection, Ransomware]"
    and "bf_run_key_set finding \<longleftrightarrow> api = NT_SET_VALUE_KEY_RUN_KEY \<and> api \<notin> set calls"
proof -
  let ?first = "api = NT_SET_VALUE_KEY_RUN_KEY \<and> \<not> pb_run_key_seen slot"
  let ?slot = "slot\<lparr>pb_run_key_seen := pb_run_key_seen slot \<or> ?first, pb_counts := bump (pb_counts slot) api\<rparr>"
  have slot1: "(if ?first then slot\<lparr>pb_run_key_seen := True\<rparr> else slot)\<lparr>pb_counts := bump (pb_counts
      (if ?first then slot\<lparr>pb_run_key_seen := True\<rparr> else slot)) api\<rparr> = ?slot"
    by auto
  obtain fired_now where f: "fire_chains [Injection, Ransomware] ?slot [] = (slot', fired_now)"
    and fin: "finding = \<lparr>bf_chains = fired_now, bf_run_key_set = ?first\<rparr>"
    using assms(3) unfolding observe_slot_def Let_def slot1 by (auto split: prod.splits)
  have counts: "\<forall>a. count_of (pb_counts ?slot) a = of_nat (count_list (calls @ [api]) a)"
    using assms(1) by (auto simp: slot_abs_def count_of_bump)
  have thr: "\<forall>c. list_all (\<lambda>(api, mn). mn \<le> count_of (pb_counts ?slot) api) (members c)
      = chain_complete c (calls @ [api])"
    using threshold_count [OF counts] assms(2) by simp
  have spec: "fired_now = [] @ filter (\<lambda>c. chain_complete c (calls @ [api]) \<and> c \<notin> set (pb_fired ?slot)) [Injection, Ransomware]
      \<and> set (pb_fired slot') = set (pb_fired ?slot) \<union> {c \<in> set [Injection, Ransomware]. chain_complete c (calls @ [api])}
      \<and> pb_counts slot' = pb_counts ?slot \<and> pb_run_key_seen slot' = pb_run_key_seen ?slot"
    by (rule fire_chains_spec [OF _ thr f]) simp
  have fired: "c \<in> set (pb_fired ?slot) \<longleftrightarrow> chain_complete c calls" for c
    using assms(1) by (simp add: slot_abs_def)
  show "slot_abs (calls @ [api]) slot'"
    unfolding slot_abs_def
    using spec counts fired assms(1) chain_complete_snoc UNIV_ChainId
    by (auto simp: slot_abs_def)
  show "bf_chains finding = filter (\<lambda>c. chain_complete c (calls @ [api]) \<and> \<not> chain_complete c calls) [Injection, Ransomware]"
    using spec fired fin by simp
  show "bf_run_key_set finding \<longleftrightarrow> api = NT_SET_VALUE_KEY_RUN_KEY \<and> api \<notin> set calls"
    using fin assms(1) by (auto simp: slot_abs_def)
qed

subsection \<open>The detector as a map from processes to slots\<close>

definition det_map :: "ChainDetector \<Rightarrow> u32 \<rightharpoonup> PidBehavior" where
  "det_map d = map_of (cd_per_pid d)"

definition det_wf :: "ChainDetector \<Rightarrow> bool" where
  "det_wf d \<longleftrightarrow> distinct (map fst (cd_per_pid d)) \<and> length (cd_per_pid d) \<le> MAX_TRACKED_PIDS"

lemma find_key: "List.find (\<lambda>e. fst e = k) xs = map_option (Pair k) (map_of xs k)"
  by (induction xs) auto

lemma list_ex_key: "list_ex (\<lambda>e. fst e = k) xs \<longleftrightarrow> map_of xs k \<noteq> None"
  by (induction xs) auto

lemma map_of_update_first:
  "map_of xs k \<noteq> None \<Longrightarrow> map_of (update_first (\<lambda>e. fst e = k) (\<lambda>e. (fst e, v)) xs) = (map_of xs)(k \<mapsto> v)"
  by (induction xs) (auto simp: fun_eq_iff)

lemma map_of_filter_key: "map_of (filter (\<lambda>e. fst e \<noteq> k) xs) = (map_of xs)(k := None)"
  by (induction xs) (auto simp: fun_eq_iff)

lemma card_keys: "det_wf d \<Longrightarrow> length (cd_per_pid d) = card (dom (det_map d))"
  using distinct_card [of "map fst (cd_per_pid d)"]
  by (simp add: det_wf_def det_map_def dom_map_of_conv_image_fst)

text \<open>Either the pid is new and the table is full, and the call is only counted as dropped, or
  exactly this pid's slot takes the call.\<close>

lemma observe_cases:
  assumes "det_wf d"
  shows "det_wf (snd (observe pid api d))"
    and "det_map d pid = None \<Longrightarrow> MAX_TRACKED_PIDS \<le> length (cd_per_pid d) \<Longrightarrow>
         observe pid api d = (empty_finding, d\<lparr>cd_dropped_pids := cd_dropped_pids d + 1\<rparr>)"
    and "det_map d pid \<noteq> None \<or> length (cd_per_pid d) < MAX_TRACKED_PIDS \<Longrightarrow>
         observe_slot api (case det_map d pid of None \<Rightarrow> empty_behavior | Some s \<Rightarrow> s) = (slot', finding) \<Longrightarrow>
         fst (observe pid api d) = finding \<and> det_map (snd (observe pid api d)) = (det_map d)(pid \<mapsto> slot')"
proof -
  have nokey: "map_of (xs @ [(pid, v)]) = (map_of xs)(pid \<mapsto> v)" if "map_of xs pid = None" for xs :: "(u32 \<times> PidBehavior) list" and v
    using that by (auto simp: fun_eq_iff map_add_def split: option.splits)
  have keys: "map fst (update_first (\<lambda>e. fst e = pid) (\<lambda>e. (fst e, v)) xs) = map fst xs" for xs :: "(u32 \<times> PidBehavior) list" and v
    by (simp add: map_update_first)
  show "det_wf (snd (observe pid api d))"
    using assms
    by (auto simp: observe_def slot_for_def det_wf_def keys list_ex_key map_of_eq_None_iff
          split: prod.splits option.splits if_splits)
  show "observe pid api d = (empty_finding, d\<lparr>cd_dropped_pids := cd_dropped_pids d + 1\<rparr>)"
    if "det_map d pid = None" "MAX_TRACKED_PIDS \<le> length (cd_per_pid d)"
    using that by (simp add: observe_def slot_for_def list_ex_key det_map_def)
  show "fst (observe pid api d) = finding \<and> det_map (snd (observe pid api d)) = (det_map d)(pid \<mapsto> slot')"
    if "det_map d pid \<noteq> None \<or> length (cd_per_pid d) < MAX_TRACKED_PIDS"
      "observe_slot api (case det_map d pid of None \<Rightarrow> empty_behavior | Some s \<Rightarrow> s) = (slot', finding)"
    using that
    by (auto simp: observe_def slot_for_def list_ex_key det_map_def find_key nokey map_of_update_first
          simp del: map_of_append split: option.splits)
qed

lemma forget_effect:
  "det_wf d \<Longrightarrow> det_wf (forget pid d)" "det_map (forget pid d) = (det_map d)(pid := None)"
  by (auto simp: forget_def det_wf_def det_map_def map_of_filter_key distinct_map_filter
        intro: le_trans [OF length_filter_le])

subsection \<open>Runs of the detector\<close>

text \<open>An operation is a call of a process (\<open>Some api\<close>) or its exit (\<open>None\<close>).\<close>

type_synonym det_op = "u32 \<times> u32 option"

definition det_step :: "det_op \<Rightarrow> ChainDetector \<Rightarrow> ChainDetector" where
  "det_step op d = (case op of (pid, Some api) \<Rightarrow> snd (observe pid api d) | (pid, None) \<Rightarrow> forget pid d)"

definition det_run :: "det_op list \<Rightarrow> ChainDetector" where
  "det_run ops = fold det_step ops empty_detector"

text \<open>The calls of a process since its pid last exited.\<close>

definition calls_of :: "u32 \<Rightarrow> det_op list \<Rightarrow> u32 list" where
  "calls_of pid ops = fold (\<lambda>(p, x) calls. if p \<noteq> pid then calls
     else case x of None \<Rightarrow> [] | Some api \<Rightarrow> calls @ [api]) ops []"

lemma calls_of_snoc:
  "calls_of pid (ops @ [(p, x)]) = (if p \<noteq> pid then calls_of pid ops
     else case x of None \<Rightarrow> [] | Some api \<Rightarrow> calls_of pid ops @ [api])"
  by (simp add: calls_of_def split: option.splits)

lemma length_calls_of: "length (calls_of pid ops) \<le> length ops"
proof (induction ops rule: rev_induct)
  case (snoc op ops)
  then show ?case by (cases op) (auto simp: calls_of_snoc split: option.splits)
qed (simp add: calls_of_def)

lemma det_run_snoc: "det_run (ops @ [op]) = det_step op (det_run ops)"
  by (simp add: det_run_def)

lemma det_run_wf: "det_wf (det_run ops)"
proof (induction ops rule: rev_induct)
  case (snoc op ops)
  then show ?case
    by (auto simp: det_run_snoc det_step_def observe_cases(1) forget_effect(1) split: prod.splits option.splits)
qed (simp add: det_run_def det_wf_def empty_detector_def)

lemma slot_abs_empty: "slot_abs [] empty_behavior"
proof -
  have "\<not> chain_complete c []" for c
    by (cases c) (simp_all add: chain_complete_def members_def MASS_ENCRYPT_MIN_def)
  then show ?thesis by (simp add: slot_abs_def empty_behavior_def count_of_def)
qed

definition det_abs :: "det_op list \<Rightarrow> ChainDetector \<Rightarrow> bool" where
  "det_abs ops d \<longleftrightarrow> dom (det_map d) \<subseteq> fst ` set ops
     \<and> (\<forall>pid. slot_abs (calls_of pid ops) (case det_map d pid of None \<Rightarrow> empty_behavior | Some s \<Rightarrow> s))"

lemma det_room:
  assumes "det_wf d" "dom (det_map d) \<subseteq> P" "finite P" "card (insert pid P) \<le> MAX_TRACKED_PIDS"
  shows "det_map d pid \<noteq> None \<or> length (cd_per_pid d) < MAX_TRACKED_PIDS"
proof (rule disjCI)
  assume full: "\<not> length (cd_per_pid d) < MAX_TRACKED_PIDS"
  show "det_map d pid \<noteq> None"
  proof
    assume "det_map d pid = None"
    then have "insert pid (dom (det_map d)) \<subseteq> insert pid P" "pid \<notin> dom (det_map d)"
      "finite (dom (det_map d))" using assms(2) by (auto simp: det_map_def finite_dom_map_of)
    then have "Suc (card (dom (det_map d))) \<le> card (insert pid P)"
      using card_mono [of "insert pid P" "insert pid (dom (det_map d))"] assms(3) by simp
    with full assms(1,4) show False by (simp add: card_keys)
  qed
qed

lemma det_run_abs:
  assumes "card (fst ` set ops) \<le> MAX_TRACKED_PIDS" "length ops < 2 ^ 32"
  shows "det_abs ops (det_run ops)"
  using assms
proof (induction ops rule: rev_induct)
  case Nil
  then show ?case by (simp add: det_abs_def det_run_def empty_detector_def det_map_def calls_of_def slot_abs_empty)
next
  case (snoc op ops)
  obtain pid x where op: "op = (pid, x)" by fastforce
  have "card (fst ` set ops) \<le> card (fst ` set (ops @ [op]))" by (intro card_mono) auto
  with snoc have ih: "det_abs ops (det_run ops)" by simp
  show ?case
  proof (cases x)
    case None
    with ih op show ?thesis
      by (auto simp: det_abs_def det_run_snoc det_step_def forget_effect calls_of_snoc slot_abs_empty)
  next
    case (Some api)
    let ?d = "det_run ops"
    obtain slot' finding where os: "observe_slot api (case det_map ?d pid of None \<Rightarrow> empty_behavior | Some s \<Rightarrow> s) = (slot', finding)"
      by fastforce
    have "det_map ?d pid \<noteq> None \<or> length (cd_per_pid ?d) < MAX_TRACKED_PIDS"
      using snoc.prems(1) ih op by (intro det_room [OF det_run_wf]) (auto simp: det_abs_def)
    from observe_cases(3) [OF det_run_wf this os]
    have eff: "det_map (det_run (ops @ [op])) = (det_map ?d)(pid \<mapsto> slot')"
      by (simp add: det_run_snoc det_step_def op Some)
    have "slot_abs (calls_of pid ops @ [api]) slot'"
      using snoc.prems(2) ih length_calls_of [of pid ops]
      by (intro observe_slot_spec(1) [OF _ _ os]) (simp_all add: det_abs_def)
    with eff ih op Some show ?thesis by (auto simp: det_abs_def calls_of_snoc)
  qed
qed

text \<open>
  C11. The behaviour detector implements its specification on call histories: as long as at most
  4096 processes are seen, observing a call reports exactly the chains that this call completes for
  its own process (in whatever order and interleaving the calls came, and never a chain twice), and
  reports the Run-key signal exactly on the process's first such write; the exit of a process
  erases its history.
\<close>

theorem chain_detector_refines_history:
  assumes "card (insert pid (fst ` set ops)) \<le> MAX_TRACKED_PIDS" "Suc (length ops) < 2 ^ 32"
  shows "bf_chains (fst (observe pid api (det_run ops)))
       = filter (\<lambda>c. chain_complete c (calls_of pid ops @ [api]) \<and> \<not> chain_complete c (calls_of pid ops))
           [Injection, Ransomware]
       \<and> (bf_run_key_set (fst (observe pid api (det_run ops)))
         \<longleftrightarrow> api = NT_SET_VALUE_KEY_RUN_KEY \<and> api \<notin> set (calls_of pid ops))"
proof (intro conjI)
  let ?d = "det_run ops"
  have "card (fst ` set ops) \<le> card (insert pid (fst ` set ops))" by (simp add: card_insert_le)
  with assms have ab: "det_abs ops ?d" by (intro det_run_abs) simp_all
  obtain slot' finding where os: "observe_slot api (case det_map ?d pid of None \<Rightarrow> empty_behavior | Some s \<Rightarrow> s) = (slot', finding)"
    by fastforce
  have "det_map ?d pid \<noteq> None \<or> length (cd_per_pid ?d) < MAX_TRACKED_PIDS"
    using assms(1) ab by (intro det_room [OF det_run_wf]) (auto simp: det_abs_def)
  from observe_cases(3) [OF det_run_wf this os] have f: "fst (observe pid api ?d) = finding" by simp
  have sa: "slot_abs (calls_of pid ops) (case det_map ?d pid of None \<Rightarrow> empty_behavior | Some s \<Rightarrow> s)"
    using ab by (simp add: det_abs_def)
  have len: "Suc (length (calls_of pid ops)) < 2 ^ 32" using assms(2) length_calls_of [of pid ops] by simp
  show "bf_chains (fst (observe pid api (det_run ops)))
       = filter (\<lambda>c. chain_complete c (calls_of pid ops @ [api]) \<and> \<not> chain_complete c (calls_of pid ops))
           [Injection, Ransomware]"
    unfolding f by (rule observe_slot_spec(2) [OF sa len os])
  show "bf_run_key_set (fst (observe pid api (det_run ops)))
         \<longleftrightarrow> api = NT_SET_VALUE_KEY_RUN_KEY \<and> api \<notin> set (calls_of pid ops)"
    unfolding f by (rule observe_slot_spec(3) [OF sa len os])
qed

theorem chain_detector_refines_history_witness:
  "bf_chains (fst (observe 7 NT_CREATE_THREAD_EX (det_run [(7, Some NT_WRITE_VM_CROSS_PROCESS)]))) = [Injection]"
  using chain_detector_refines_history [of 7 "[(7, Some NT_WRITE_VM_CROSS_PROCESS)]" NT_CREATE_THREAD_EX]
  by (simp add: MAX_TRACKED_PIDS_def calls_of_def chain_complete_def members_def MASS_ENCRYPT_MIN_def
        behavior_api_defs)

text \<open>
  The detector stays bounded under hostile input: after any sequence of calls and exits it holds
  at most 4096 slots, one per process; a call of a process that does not fit leaves every slot
  alone, reports nothing and is counted.
\<close>

theorem chain_detector_bounded:
  "length (cd_per_pid (det_run ops)) \<le> 4096 \<and> distinct (map fst (cd_per_pid (det_run ops)))
   \<and> ((\<exists>slot. det_map (snd (observe pid api (det_run ops))) = (det_map (det_run ops))(pid \<mapsto> slot))
      \<or> (length (cd_per_pid (det_run ops)) = 4096 \<and> det_map (det_run ops) pid = None
         \<and> observe pid api (det_run ops)
           = (empty_finding, (det_run ops)\<lparr>cd_dropped_pids := cd_dropped_pids (det_run ops) + 1\<rparr>)))"
proof -
  let ?d = "det_run ops"
  obtain slot' finding where os: "observe_slot api (case det_map ?d pid of None \<Rightarrow> empty_behavior | Some s \<Rightarrow> s) = (slot', finding)"
    by fastforce
  show ?thesis
    using det_run_wf [of ops] observe_cases(2,3) [OF det_run_wf [of ops]] os
    by (fastforce simp: det_wf_def MAX_TRACKED_PIDS_def not_less)
qed

subsection \<open>The session maximum\<close>

fun scoring_run :: "ScoreWeights \<Rightarrow> AgentBusEvent list \<Rightarrow> Scoring \<Rightarrow> Scoring \<times> AgentBusEvent list" where
  "scoring_run weights [] sc = (sc, [])"
| "scoring_run weights (ev # evs) sc =
     (case scoring_consume weights ev sc of (sc1, out) \<Rightarrow>
      case scoring_run weights evs sc1 of (sc2, outs) \<Rightarrow> (sc2, out @ outs))"

text \<open>The scores that the events of a run are worth, in order.\<close>

fun candidates :: "ScoreWeights \<Rightarrow> AgentBusEvent list \<Rightarrow> ChainDetector \<Rightarrow> u32 list" where
  "candidates weights [] detector = []"
| "candidates weights (ev # evs) detector =
     (case candidate_of weights ev detector of (cand, detector) \<Rightarrow>
        (case cand of None \<Rightarrow> [] | Some c \<Rightarrow> [c]) @ candidates weights evs detector)"

definition raised :: "AgentBusEvent list \<Rightarrow> u32 list" where
  "raised evs = List.map_filter (\<lambda>ev. case ev of SessionScoreRaised score \<Rightarrow> Some score | _ \<Rightarrow> None) evs"

lemma raised_simps [simp]:
  "raised [] = []" "raised (SessionScoreRaised c # evs) = c # raised evs"
  "raised (as @ bs) = raised as @ raised bs"
  by (simp_all add: raised_def map_filter_simps) (simp add: map_filter_def)

lemma Max_insert_max: "finite A \<Longrightarrow> Max (insert (max a b) A) = Max (insert a (insert (b :: u32) A))"
  by (cases "A = {}") (simp_all add: max.assoc)

text \<open>
  Scoring keeps the session maximum: after any run of bus events the score is the largest of the
  initial value and the weights of all signals that occurred; the raises it publishes are strictly
  increasing, start above the initial value, and end in the final score, so a consumer that takes
  the maximum of the raises it saw, or just the last one, knows the session score.
\<close>

theorem scoring_keeps_maximum:
  "sg_max_score (fst (scoring_run weights evs sc))
     = Max (insert (sg_max_score sc) (set (candidates weights evs (sg_detector sc))))
   \<and> sorted_wrt (<) (sg_max_score sc # raised (snd (scoring_run weights evs sc)))
   \<and> last (sg_max_score sc # raised (snd (scoring_run weights evs sc)))
     = sg_max_score (fst (scoring_run weights evs sc))"
proof (induction weights evs sc rule: scoring_run.induct)
  case (2 weights ev evs sc)
  obtain cand det where c: "candidate_of weights ev (sg_detector sc) = (cand, det)" by fastforce
  obtain sc1 out where s1: "scoring_consume weights ev sc = (sc1, out)" by fastforce
  obtain sc2 outs where s2: "scoring_run weights evs sc1 = (sc2, outs)" by fastforce
  note IH = "2.IH" [OF s1 [symmetric], unfolded s2 fst_conv snd_conv]
  show ?case
  proof (cases cand)
    case None
    then have "sc1 = sc\<lparr>sg_detector := det\<rparr>" "out = []" using s1 c by (auto simp: scoring_consume_def)
    with IH None c s1 s2 show ?thesis by simp
  next
    case (Some score)
    have sc1: "sg_detector sc1 = det" "sg_max_score sc1 = max (sg_max_score sc) score"
      and out: "out = (if sg_max_score sc < score then [SessionScoreRaised score] else [])"
      using s1 c Some by (auto simp: scoring_consume_def Let_def)
    have mx: "sg_max_score sc2 = Max (insert (sg_max_score sc) (insert score (set (candidates weights evs det))))"
      using IH sc1 Max_insert_max [of "set (candidates weights evs det)"] by simp
    show ?thesis
    proof (cases "sg_max_score sc < score")
      case True
      then have "sg_max_score sc1 = score" by (simp add: sc1)
      with True IH out mx c Some s1 s2 show ?thesis by (auto intro: less_trans)
    next
      case False
      then have "sg_max_score sc1 = sg_max_score sc" by (simp add: sc1)
      with False IH out mx c Some s1 s2 show ?thesis by simp
    qed
  qed
qed simp

end
