(* ===== verification/Agent_World.thy ===== *)
theory Agent_World
  imports App_Event Scope Command_Line
begin

text \<open>
  What the agent's plugins share: the scope state, the per-boot sequence counter, and the driven
  ports (\<^verbatim>\<open>crates/agent/src/ports/driven\<close>, the bus). The ports are the outside world: every reading
  of the clock takes the next value of an arbitrary sequence, every fallible call whose outcome
  decides what happens next takes the next answer of an arbitrary sequence, and all calls are
  logged in order as effects. Errors of a publish are only logged by the sources, so a publish has
  no answer.
\<close>

datatype Effect =
    Publish Channel Envelope
  | BusPublish AgentBusEvent
  | SetUnixMs i64
  | KillByImageNames "rstr list"
  | SaveScope ScopeState
  | SleepSecs u32
  | FinalizeDone
  | CreateDirAll rstr
  | CreateNew rstr
  | WriteFile rstr "u8 list"
  | RemoveFile rstr
  | RenameFile rstr rstr
  | Upload rstr rstr Uuid u32 rstr u64   \<comment> \<open>endpoint, meta path, study, session, file, cap\<close>
  | Launch LaunchSpec

record World =
  w_scope :: ScopeState
  w_seq :: u64
  w_clock :: "nat \<Rightarrow> i64"
  w_reads :: nat
  w_answer :: "nat \<Rightarrow> bool"
  w_calls :: nat
  w_log :: "Effect list"

definition now_ms :: "World \<Rightarrow> i64 \<times> World" where
  "now_ms w = (w_clock w (w_reads w), w\<lparr>w_reads := Suc (w_reads w)\<rparr>)"

definition perform :: "Effect \<Rightarrow> World \<Rightarrow> World" where
  "perform e w = w\<lparr>w_log := w_log w @ [e]\<rparr>"

text \<open>A fallible call: logged, and answered by the outside.\<close>

definition ask :: "Effect \<Rightarrow> World \<Rightarrow> bool \<times> World" where
  "ask e w = (w_answer w (w_calls w), perform e (w\<lparr>w_calls := Suc (w_calls w)\<rparr>))"

text \<open>Take a sequence number, compose an envelope with it and publish it.\<close>

definition send :: "Channel \<Rightarrow> (u64 \<Rightarrow> Envelope) \<Rightarrow> World \<Rightarrow> World" where
  "send ch mk w = (case next_seq (w_seq w) of (q, q') \<Rightarrow> perform (Publish ch (mk q)) (w\<lparr>w_seq := q'\<rparr>))"

text \<open>(\<open>study_id\<close>, current session id) of \<open>identity\<close> in \<^verbatim>\<open>plugins/event_reporter.rs\<close>.\<close>

definition identity :: "ScopeState \<Rightarrow> Uuid \<times> u32" where
  "identity state = (sst_study_id state, case current_session state of None \<Rightarrow> 0 | Some s \<Rightarrow> ses_id s)"

text \<open>A world right after the first boot opened its session: nothing published, every call succeeds.\<close>

definition world0 :: World where
  "world0 = \<lparr>w_scope = opened, w_seq = 0, w_clock = (\<lambda>n. of_nat n), w_reads = 0,
     w_answer = (\<lambda>_. True), w_calls = 0, w_log = []\<rparr>"

subsection \<open>Effects of the primitives\<close>

lemma world_prims [effect_simps]:
  "w_scope (perform e w) = w_scope w" "w_log (perform e w) = w_log w @ [e]" "w_seq (perform e w) = w_seq w"
  "w_scope (send ch mk w) = w_scope w" "w_log (send ch mk w) = w_log w @ [Publish ch (mk (w_seq w))]"
  "w_seq (send ch mk w) = w_seq w + 1"
  by (simp_all add: perform_def send_def next_seq_def)

lemma now_ms_effect:
  "now_ms w = (t, w') \<Longrightarrow> w_scope w' = w_scope w \<and> w_log w' = w_log w \<and> w_seq w' = w_seq w"
  by (auto simp: now_ms_def)

lemma ask_effect:
  "ask e w = (ok, w') \<Longrightarrow> w_scope w' = w_scope w \<and> w_log w' = w_log w @ [e] \<and> w_seq w' = w_seq w"
  by (auto simp: ask_def perform_def)

subsection \<open>Bus and wire views of the log\<close>

definition published :: "Effect list \<Rightarrow> Envelope list" where
  "published log = List.map_filter (\<lambda>e. case e of Publish _ env \<Rightarrow> Some env | _ \<Rightarrow> None) log"

definition bus_events :: "Effect list \<Rightarrow> AgentBusEvent list" where
  "bus_events log = List.map_filter (\<lambda>e. case e of BusPublish ev \<Rightarrow> Some ev | _ \<Rightarrow> None) log"

lemma published_Cons:
  "published (e # log) = (case e of Publish ch env \<Rightarrow> env # published log | _ \<Rightarrow> published log)"
  by (cases e) (simp_all add: published_def map_filter_simps)

lemma bus_events_Cons:
  "bus_events (e # log) = (case e of BusPublish ev \<Rightarrow> ev # bus_events log | _ \<Rightarrow> bus_events log)"
  by (cases e) (simp_all add: bus_events_def map_filter_simps)

lemma published_simps [simp]:
  "published [] = []" "published (xs @ ys) = published xs @ published ys"
  by (simp_all add: published_def map_filter_simps) (simp add: map_filter_def)

lemma bus_events_simps [simp]:
  "bus_events [] = []" "bus_events (xs @ ys) = bus_events xs @ bus_events ys"
  by (simp_all add: bus_events_def map_filter_simps) (simp add: map_filter_def)

lemmas log_Cons_simps [simp] =
  published_Cons [of "Publish ch env" for ch env, simplified]
  published_Cons [of "BusPublish ev" for ev, simplified]
  published_Cons [of "SetUnixMs t" for t, simplified]
  published_Cons [of "KillByImageNames ns" for ns, simplified]
  published_Cons [of "SaveScope st" for st, simplified]
  published_Cons [of "SleepSecs n" for n, simplified]
  published_Cons [of FinalizeDone, simplified]
  published_Cons [of "CreateDirAll p" for p, simplified]
  published_Cons [of "CreateNew p" for p, simplified]
  published_Cons [of "WriteFile p bs" for p bs, simplified]
  published_Cons [of "RemoveFile p" for p, simplified]
  published_Cons [of "RenameFile p q" for p q, simplified]
  published_Cons [of "Upload a b c d e f" for a b c d e f, simplified]
  published_Cons [of "Launch l" for l, simplified]
  bus_events_Cons [of "Publish ch env" for ch env, simplified]
  bus_events_Cons [of "BusPublish ev" for ev, simplified]

subsection \<open>Sequence numbers\<close>

text \<open>
  From \<open>w\<close> to \<open>w'\<close> the log only grew, the envelopes published in between carry consecutive sequence
  numbers starting at the counter, each once, the counter stands after the last one, and each
  envelope's type names its payload's schema. This is what lets the receiver detect loss.
\<close>

definition consecutive :: "u64 \<Rightarrow> nat \<Rightarrow> u64 list" where
  "consecutive q n = map (\<lambda>i. q + of_nat i) [0..<n]"

definition gapless :: "World \<Rightarrow> World \<Rightarrow> bool" where
  "gapless w w' \<longleftrightarrow> (\<exists>added. w_log w' = w_log w @ added
     \<and> map env_seq (published added) = consecutive (w_seq w) (length (published added))
     \<and> w_seq w' = w_seq w + of_nat (length (published added))
     \<and> list_all well_typed (published added))"

lemma consecutive_append:
  "consecutive q (m + n) = consecutive q m @ consecutive (q + of_nat m) n"
proof -
  have "map (\<lambda>i. q + of_nat i) [m..<m + n] = map (\<lambda>i. q + of_nat m + of_nat i) [0..<n]"
    by (rule nth_equalityI) (simp_all add: add.assoc)
  then show ?thesis using upt_add_eq_append [of 0 m n] by (simp add: consecutive_def)
qed

lemma gapless_refl [simp]: "gapless w w"
  by (simp add: gapless_def consecutive_def)

lemma gapless_trans:
  assumes "gapless w1 w2" "gapless w2 w3"
  shows "gapless w1 w3"
proof -
  from assms(1) obtain a where a: "w_log w2 = w_log w1 @ a"
    "map env_seq (published a) = consecutive (w_seq w1) (length (published a))"
    "w_seq w2 = w_seq w1 + of_nat (length (published a))" "list_all well_typed (published a)"
    unfolding gapless_def by blast
  from assms(2) obtain b where b: "w_log w3 = w_log w2 @ b"
    "map env_seq (published b) = consecutive (w_seq w2) (length (published b))"
    "w_seq w3 = w_seq w2 + of_nat (length (published b))" "list_all well_typed (published b)"
    unfolding gapless_def by blast
  have "w_log w3 = w_log w1 @ (a @ b)" by (simp only: a(1) b(1) append_assoc)
  moreover have "map env_seq (published (a @ b)) = consecutive (w_seq w1) (length (published (a @ b)))"
    by (simp only: published_simps map_append length_append consecutive_append a(2) b(2) a(3))
  moreover have "w_seq w3 = w_seq w1 + of_nat (length (published (a @ b)))"
    by (simp only: published_simps length_append of_nat_add a(3) b(3) add.assoc)
  moreover have "list_all well_typed (published (a @ b))"
    using a(4) b(4) by (simp only: published_simps list_all_append)
  ultimately show ?thesis unfolding gapless_def by blast
qed

text \<open>A step that only touches the scope state, or performs an effect that is no publish.\<close>

lemma gapless_quiet:
  "w_log w' = w_log w @ added \<Longrightarrow> published added = [] \<Longrightarrow> w_seq w' = w_seq w \<Longrightarrow> gapless w w'"
  by (auto simp: gapless_def consecutive_def intro!: exI [of _ added])

lemma gapless_same: "w_log w' = w_log w \<Longrightarrow> w_seq w' = w_seq w \<Longrightarrow> gapless w w'"
  by (rule gapless_quiet [of _ _ "[]"]) simp_all

lemma gapless_send:
  "(\<And>q. well_typed (mk q) \<and> env_seq (mk q) = q) \<Longrightarrow> gapless w (send ch mk w)"
  by (auto simp: gapless_def effect_simps consecutive_def)

lemma gapless_now: "now_ms w = (t, w') \<Longrightarrow> gapless w w'"
  by (auto dest: now_ms_effect intro: gapless_same)

lemma gapless_ask: "ask e w = (ok, w') \<Longrightarrow> published [e] = [] \<Longrightarrow> gapless w w'"
  by (rule gapless_quiet [of _ _ "[e]"]) (auto dest: ask_effect)

lemma gapless_perform: "published [e] = [] \<Longrightarrow> gapless w (perform e w)"
  by (rule gapless_quiet [of _ _ "[e]"]) (auto simp: effect_simps)

lemma gapless_scope: "gapless w (w\<lparr>w_scope := st\<rparr>)"
  by (rule gapless_same) simp_all

text \<open>A publisher: any operation on the world that keeps the numbering gapless. Publishers can be
  run in any order and any number of times.\<close>

locale publisher =
  fixes run :: "'i \<Rightarrow> World \<Rightarrow> World"
  assumes gapless_run: "gapless w (run i w)"
begin

lemma gapless_runs: "gapless w (fold run is w)"
  by (induction "is" arbitrary: w) (auto intro: gapless_trans gapless_run)

text \<open>No sequence number is used twice before the counter wraps.\<close>

lemma seqs_distinct:
  assumes "w_log w = []" "length (published (w_log (fold run is w))) \<le> 2 ^ 64"
  shows "distinct (map env_seq (published (w_log (fold run is w))))"
proof -
  let ?n = "length (published (w_log (fold run is w)))"
  have "map env_seq (published (w_log (fold run is w))) = consecutive (w_seq w) ?n"
    using gapless_runs [of w "is"] assms(1) by (auto simp: gapless_def)
  moreover have "inj_on (\<lambda>i. w_seq w + of_nat i) {0..<?n}"
  proof (rule inj_onI)
    fix i j assume ij: "i \<in> {0..<?n}" "j \<in> {0..<?n}" and eq: "w_seq w + of_nat i = w_seq w + of_nat j"
    then have lt: "i < 2 ^ 64" "j < 2 ^ 64" using assms(2) by auto
    from eq have "unat (of_nat i :: u64) = unat (of_nat j :: u64)" by simp
    with lt show "i = j" by (simp add: unat_of_nat take_bit_nat_eq_self)
  qed
  ultimately show ?thesis by (simp add: consecutive_def distinct_map)
qed

end

end
