(* ===== verification/Session_Manager.thy ===== *)
theory Session_Manager
  imports Agent_World Config "HOL-Library.List_Lexorder"
begin

text \<open>
  The session lifecycle plugin (\<^verbatim>\<open>crates/agent/src/plugins/session_manager.rs\<close>): opening one session
  per boot, the study-start clock, and the finalize sequence with its reboot or shutdown request.
  The finalize body runs to its end before the next handler (the sources guard it with an atomic
  swap), so it is one step here.
\<close>

record SessionManagerDeps =
  smd_processes_to_terminate :: "rstr list"
  smd_uptimes :: "u64 list"
  smd_autoshutdown :: bool
  smd_time :: TimeConfig
  smd_shutdown_delay_secs :: u32
  smd_skip_time_manipulation :: bool
  smd_skip_reboot_and_shutdown :: bool
  smd_agent_version :: rstr

record SessionManagerPlugin =
  smp_finalized :: bool
  smp_max_score :: u32
  smp_consuming :: bool

definition SessionManagerPlugin_new :: SessionManagerPlugin where
  "SessionManagerPlugin_new = \<lparr>smp_finalized = False, smp_max_score = 0, smp_consuming = False\<rparr>"

subsection \<open>Opening the session\<close>

definition open_session_if_needed :: "SessionManagerDeps \<Rightarrow> World \<Rightarrow> World" where
  "open_session_if_needed deps w =
     (case now_ms w of (now, w) \<Rightarrow>
        let state = w_scope w;
            state = (case current_session state of
                None \<Rightarrow> state
              | Some session \<Rightarrow>
                  if ses_ended_at_ms session = None
                  then update_current (\<lambda>s. s\<lparr>ses_ended_at_ms := Some now, ses_abandoned := True\<rparr>) state
                  else state);
            sid = u32_try_from (length (sst_sessions state));
            scheduled = get (smd_uptimes deps) (unat sid) in
        w\<lparr>w_scope := state\<lparr>sst_sessions := sst_sessions state @ [new_session sid scheduled now]\<rparr>\<rparr>)"

subsection \<open>Finalization\<close>

text \<open>\<open>format!("{reason:?}").to_lowercase()\<close>.\<close>

definition reason_text :: "FinalizeReason \<Rightarrow> rstr" where
  "reason_text reason = utf (case reason of Deadline \<Rightarrow> ''deadline'' | DeadScope \<Rightarrow> ''deadscope''
     | InboundRequest \<Rightarrow> ''inboundrequest'' | Error \<Rightarrow> ''error'')"

text \<open>\<open>BTreeSet\<close> iterates in ascending order.\<close>

definition bump_histogram :: "rstr \<Rightarrow> (rstr \<rightharpoonup> u32) \<Rightarrow> rstr \<rightharpoonup> u32" where
  "bump_histogram ext histogram =
     histogram(ext \<mapsto> (case histogram ext of None \<Rightarrow> 0 | Some n \<Rightarrow> n) + 1)"

definition drop_extension :: "(rstr \<Rightarrow> rstr) \<Rightarrow> rstr \<Rightarrow> rstr" where
  "drop_extension lc path = (case extension_of path of None \<Rightarrow> [] | Some e \<Rightarrow> lc e)"

definition drops_histogram :: "(rstr \<Rightarrow> rstr) \<Rightarrow> ScopeState \<Rightarrow> rstr \<rightharpoonup> u32" where
  "drops_histogram lc state =
     (case current_session state of
        None \<Rightarrow> Map.empty
      | Some session \<Rightarrow> fold (\<lambda>path. bump_histogram (drop_extension lc path))
          (sorted_list_of_set (ses_observed_drops session)) Map.empty)"

definition publish_finalize_reports :: "(rstr \<Rightarrow> rstr) \<Rightarrow> (u64 \<Rightarrow> EventType \<Rightarrow> Payload \<Rightarrow> Envelope) \<Rightarrow> u32
    \<Rightarrow> World \<Rightarrow> World" where
  "publish_finalize_reports lc emit max_score w =
     (let histogram = drops_histogram lc (w_scope w);
          w = send Event (\<lambda>q. emit q EventType.StudyScore
                (Payload.StudyScore \<lparr>sco_score = max_score, sco_reason = Some (utf ''Total'')\<rparr>)) w in
      send Event (\<lambda>q. emit q EventType.StudyDropsSummary
                (Payload.StudyDropsSummary \<lparr>sds_extensions = histogram\<rparr>)) w)"

definition shift_clock_at_finalize :: "SessionManagerDeps \<Rightarrow> (u64 \<Rightarrow> EventType \<Rightarrow> Payload \<Rightarrow> Envelope) \<Rightarrow> i64
    \<Rightarrow> World \<Rightarrow> World" where
  "shift_clock_at_finalize deps emit now w =
     (let offset = tm_offset_secs (smd_time deps) in
      if smd_skip_time_manipulation deps \<or> offset = 0 then w
      else let target = now + offset * 1000 in
        case ask (SetUnixMs target) w of (ok, w) \<Rightarrow>
          if ok then send Event (\<lambda>q. emit q EventType.ClockAdjusted (Payload.ClockAdjusted
                 \<lparr>ca_to_ts = target, ca_offset_secs = offset, ca_cause = SessionOffset\<rparr>)) w
          else w)"

definition request_reboot_or_shutdown :: "SessionManagerDeps \<Rightarrow> (u64 \<Rightarrow> EventType \<Rightarrow> Payload \<Rightarrow> Envelope) \<Rightarrow> nat
    \<Rightarrow> FinalizeReason \<Rightarrow> World \<Rightarrow> World" where
  "request_reboot_or_shutdown deps emit session_count reason w =
     (if smd_skip_reboot_and_shutdown deps then w
      else let w = (if smd_shutdown_delay_secs deps \<noteq> 0 then perform (SleepSecs (smd_shutdown_delay_secs deps)) w else w);
               stop_study = smd_uptimes deps = [] \<or> length (smd_uptimes deps) \<le> session_count in
        if stop_study
        then send Control (\<lambda>q. emit q EventType.StudyShutdownRequested
               (Payload.StudyShutdownRequested \<lparr>ssr_reason = Some (reason_text reason)\<rparr>)) w
        else send Control (\<lambda>q. emit q EventType.StudyRebootRequested
               (Payload.StudyRebootRequested \<lparr>srr_reason = Some (reason_text reason)\<rparr>)) w)"

definition close_session :: "i64 \<Rightarrow> SessionRecord \<Rightarrow> SessionRecord" where
  "close_session now session = session\<lparr>ses_ended_at_ms := Some now,
     ses_scoped_processes := map (\<lambda>p. if spr_ended_at_ms p = None then p\<lparr>spr_ended_at_ms := Some now\<rparr> else p)
       (ses_scoped_processes session)\<rparr>"

definition kill_helpers :: "SessionManagerDeps \<Rightarrow> World \<Rightarrow> World" where
  "kill_helpers deps w = (if smd_processes_to_terminate deps = [] then w
     else perform (KillByImageNames (smd_processes_to_terminate deps)) w)"

definition save_scope :: "World \<Rightarrow> World" where
  "save_scope w = perform (SaveScope (w_scope w)) w"

text \<open>The part after the records are closed; innermost first.\<close>

definition finalize_tail :: "(rstr \<Rightarrow> rstr) \<Rightarrow> SessionManagerDeps \<Rightarrow> FinalizeReason \<Rightarrow> u32 \<Rightarrow> i64 \<Rightarrow> u32
    \<Rightarrow> World \<Rightarrow> World" where
  "finalize_tail lc deps reason max_score now session_id w =
     (let emit = (\<lambda>q t d. envelope_raw now q (sst_study_id (w_scope w)) session_id t d) in
      perform FinalizeDone
       (request_reboot_or_shutdown deps emit (length (sst_sessions (w_scope w))) reason
        (send Event (\<lambda>q. emit q EventType.SessionEnded (Payload.SessionEnded SessionEndedData))
         (save_scope
          (kill_helpers deps
           (shift_clock_at_finalize deps emit now
            (publish_finalize_reports lc emit max_score
             (send Event (\<lambda>q. emit q EventType.SessionFinalizing
                (Payload.SessionFinalizing \<lparr>sf_reason = reason\<rparr>)) w))))))))"

definition finalize_session :: "(rstr \<Rightarrow> rstr) \<Rightarrow> SessionManagerDeps \<Rightarrow> FinalizeReason \<Rightarrow> SessionManagerPlugin \<Rightarrow> World
    \<Rightarrow> SessionManagerPlugin \<times> World" where
  "finalize_session lc deps reason p w =
     (if smp_finalized p then (p, w)
      else let p = p\<lparr>smp_finalized := True\<rparr> in
        case now_ms w of (now, w) \<Rightarrow>
        case current_session (w_scope w) of
          None \<Rightarrow> (p, perform FinalizeDone w)
        | Some session \<Rightarrow>
            (p, finalize_tail lc deps reason (smp_max_score p) now (ses_id session)
                  (w\<lparr>w_scope := update_current (close_session now) (w_scope w)\<rparr>)))"

subsection \<open>Hooks\<close>

definition apply_study_start_timestamp :: "SessionManagerDeps \<Rightarrow> nat \<Rightarrow> Uuid \<Rightarrow> u32 \<Rightarrow> World \<Rightarrow> World" where
  "apply_study_start_timestamp deps session_count study_id session_id w =
     (let timestamp = tm_timestamp (smd_time deps) in
      if session_count \<noteq> 1 \<or> smd_skip_time_manipulation deps \<or> timestamp = 0 then w
      else let target_ms = i64_saturate ((if unat timestamp < 2 ^ 63 then int (unat timestamp) else 0) * 1000) in
        case now_ms w of (real_now, w) \<Rightarrow>
        case ask (SetUnixMs target_ms) w of (ok, w) \<Rightarrow>
          if ok then send Event (\<lambda>q. envelope_raw target_ms q study_id session_id EventType.ClockAdjusted
                 (Payload.ClockAdjusted \<lparr>ca_to_ts = target_ms,
                    ca_offset_secs = i64_div (target_ms - real_now) 1000, ca_cause = StudyStart\<rparr>)) w
          else w)"

definition smp_start :: "SessionManagerDeps \<Rightarrow> SessionManagerPlugin \<Rightarrow> World \<Rightarrow> SessionManagerPlugin \<times> World" where
  "smp_start deps p w =
     (case current_session (w_scope w) of
        None \<Rightarrow> (p, w)
      | Some session \<Rightarrow>
          let study_id = sst_study_id (w_scope w);
              w = apply_study_start_timestamp deps (length (sst_sessions (w_scope w))) study_id (ses_id session) w in
          case now_ms w of (now, w) \<Rightarrow>
          let w = send Event (\<lambda>q. envelope_raw now q study_id (ses_id session) EventType.AgentState
                    (Payload.AgentState \<lparr>ast_agent_version = smd_agent_version deps\<rparr>)) w;
              w = send Event (\<lambda>q. envelope_raw now q study_id (ses_id session) EventType.SessionStarted
                    (Payload.SessionStarted \<lparr>ss_scheduled_duration_secs = ses_scheduled_duration_secs session\<rparr>)) w in
          (p\<lparr>smp_consuming := True\<rparr>, w))"

text \<open>One received bus event of the consumer task, which ends after a dead-scope finalization.\<close>

definition smp_consume :: "(rstr \<Rightarrow> rstr) \<Rightarrow> SessionManagerDeps \<Rightarrow> AgentBusEvent \<Rightarrow> SessionManagerPlugin \<Rightarrow> World
    \<Rightarrow> SessionManagerPlugin \<times> World" where
  "smp_consume lc deps ev p w =
     (if \<not> smp_consuming p then (p, w)
      else case ev of
        AgentBusEvent.ScopeDied \<Rightarrow>
          (if smd_autoshutdown deps then
             (case finalize_session lc deps DeadScope p w of (p, w) \<Rightarrow> (p\<lparr>smp_consuming := False\<rparr>, w))
           else (p, w))
      | SessionScoreRaised score \<Rightarrow> (p\<lparr>smp_max_score := max (smp_max_score p) score\<rparr>, w)
      | _ \<Rightarrow> (p, w))"

definition smp_pre :: "(rstr \<Rightarrow> rstr) \<Rightarrow> SessionManagerDeps \<Rightarrow> SandboxEvent \<Rightarrow> SessionManagerPlugin \<Rightarrow> World
    \<Rightarrow> SessionManagerPlugin \<times> World" where
  "smp_pre lc deps ev p w =
     (case ev of
        SessionDeadline \<Rightarrow> finalize_session lc deps Deadline p w
      | ServiceStop \<Rightarrow> finalize_session lc deps InboundRequest p w
      | PersistTick \<Rightarrow> if \<not> smp_finalized p then (p, perform (SaveScope (w_scope w)) w) else (p, w)
      | _ \<Rightarrow> (p, w))"

subsection \<open>What finalization does\<close>

text \<open>The kind of an effect.\<close>

datatype tag = TPub Channel EventType | TBus | TClock | TKill | TSave | TSleep | TDone | TOther

definition tag_of :: "Effect \<Rightarrow> tag" where
  "tag_of e = (case e of Publish ch env \<Rightarrow> TPub ch (env_event_type env) | BusPublish _ \<Rightarrow> TBus
     | SetUnixMs _ \<Rightarrow> TClock | KillByImageNames _ \<Rightarrow> TKill | SaveScope _ \<Rightarrow> TSave | SleepSecs _ \<Rightarrow> TSleep
     | FinalizeDone \<Rightarrow> TDone | _ \<Rightarrow> TOther)"

lemma tag_of_simps [simp]:
  "tag_of (Publish ch env) = TPub ch (env_event_type env)" "tag_of (BusPublish b) = TBus"
  "tag_of (SetUnixMs t) = TClock" "tag_of (KillByImageNames ns) = TKill" "tag_of (SaveScope st) = TSave"
  "tag_of (SleepSecs n) = TSleep" "tag_of FinalizeDone = TDone"
  by (simp_all add: tag_of_def)

definition tags :: "World \<Rightarrow> tag list" where
  "tags w = map tag_of (w_log w)"

lemma tags_simps [effect_simps]:
  "tags (perform e w) = tags w @ [tag_of e]"
  "tags (send ch mk w) = tags w @ [TPub ch (env_event_type (mk (w_seq w)))]"
  "tags (w\<lparr>w_scope := st\<rparr>) = tags w" "tags (w\<lparr>w_reads := n\<rparr>) = tags w" "tags (w\<lparr>w_calls := n\<rparr>) = tags w"
  by (simp_all add: tags_def perform_def send_def next_seq_def)

lemma envelope_raw_type [simp]: "env_event_type (envelope_raw now q s i t d) = t"
  by (simp add: envelope_raw_def)

text \<open>The documented sequence, as a function of the configuration, the number of sessions so far and
  whether the clock could be set.\<close>

definition clock_plan :: "SessionManagerDeps \<Rightarrow> bool \<Rightarrow> tag list" where
  "clock_plan deps ok = (if smd_skip_time_manipulation deps \<or> tm_offset_secs (smd_time deps) = 0 then []
     else TClock # (if ok then [TPub Event EventType.ClockAdjusted] else []))"

definition request_plan :: "SessionManagerDeps \<Rightarrow> nat \<Rightarrow> tag list" where
  "request_plan deps session_count =
     (if smd_skip_reboot_and_shutdown deps then []
      else (if smd_shutdown_delay_secs deps = 0 then [] else [TSleep])
        @ [TPub Control (if smd_uptimes deps = [] \<or> length (smd_uptimes deps) \<le> session_count
             then EventType.StudyShutdownRequested else EventType.StudyRebootRequested)])"

definition finalize_plan :: "SessionManagerDeps \<Rightarrow> nat \<Rightarrow> bool \<Rightarrow> tag list" where
  "finalize_plan deps session_count ok =
     [TPub Event EventType.SessionFinalizing, TPub Event EventType.StudyScore, TPub Event EventType.StudyDropsSummary]
     @ clock_plan deps ok
     @ (if smd_processes_to_terminate deps = [] then [] else [TKill])
     @ [TSave, TPub Event EventType.SessionEnded]
     @ request_plan deps session_count
     @ [TDone]"

lemma reports_effect:
  assumes "\<And>q t d. env_event_type (emit q t d) = t"
  shows "w_scope (publish_finalize_reports lc emit m w) = w_scope w"
    and "tags (publish_finalize_reports lc emit m w)
       = tags w @ [TPub Event EventType.StudyScore, TPub Event EventType.StudyDropsSummary]"
  using assms by (simp_all add: publish_finalize_reports_def Let_def effect_simps)

lemma shift_effect:
  assumes "\<And>q t d. env_event_type (emit q t d) = t"
  shows "w_scope (shift_clock_at_finalize deps emit now w) = w_scope w"
    and "tags (shift_clock_at_finalize deps emit now w)
       = tags w @ clock_plan deps (w_answer w (w_calls w))"
  using assms by (auto simp: shift_clock_at_finalize_def Let_def clock_plan_def ask_def effect_simps)

lemma request_effect:
  assumes "\<And>q t d. env_event_type (emit q t d) = t"
  shows "w_scope (request_reboot_or_shutdown deps emit n reason w) = w_scope w"
    and "tags (request_reboot_or_shutdown deps emit n reason w)
       = tags w @ request_plan deps n"
  using assms by (auto simp: request_reboot_or_shutdown_def Let_def request_plan_def effect_simps)

lemma answer_effect [effect_simps]:
  "w_answer (perform e w) = w_answer w" "w_calls (perform e w) = w_calls w"
  "w_answer (send ch mk w) = w_answer w" "w_calls (send ch mk w) = w_calls w"
  by (simp_all add: perform_def send_def next_seq_def)

lemma reports_answer [effect_simps]:
  "w_answer (publish_finalize_reports lc emit m w) = w_answer w"
  "w_calls (publish_finalize_reports lc emit m w) = w_calls w"
  by (simp_all add: publish_finalize_reports_def Let_def effect_simps)

lemma kill_save_effect [effect_simps]:
  "w_scope (kill_helpers deps w) = w_scope w" "w_scope (save_scope w) = w_scope w"
  "tags (kill_helpers deps w) = tags w @ (if smd_processes_to_terminate deps = [] then [] else [TKill])"
  "tags (save_scope w) = tags w @ [TSave]"
  by (simp_all add: kill_helpers_def save_scope_def effect_simps)

lemma finalize_tail_effect:
  "w_scope (finalize_tail lc deps reason m now i w) = w_scope w"
  "tags (finalize_tail lc deps reason m now i w) = tags w
     @ finalize_plan deps (length (sst_sessions (w_scope w))) (w_answer w (w_calls w))"
  by (simp_all add: finalize_tail_def Let_def effect_simps reports_effect shift_effect request_effect finalize_plan_def)

lemma finalize_session_effect:
  assumes "\<not> smp_finalized p" "current_session (w_scope w) = Some session"
    and "finalize_session lc deps reason p w = (p', w')"
  shows "smp_finalized p'"
    and "w_scope w' = update_current (close_session (w_clock w (w_reads w))) (w_scope w)"
    and "tags w' = tags w
       @ finalize_plan deps (length (sst_sessions (w_scope w))) (w_answer w (w_calls w))"
  using assms
  by (auto simp: finalize_session_def Let_def now_ms_def effect_simps scope_simps finalize_tail_effect)

lemma request_log: "set (w_log w) \<subseteq> set (w_log (request_reboot_or_shutdown deps emit n reason w))"
  by (auto simp: request_reboot_or_shutdown_def Let_def effect_simps)

lemma finalize_tail_saves:
  "SaveScope (w_scope w) \<in> set (w_log (finalize_tail lc deps reason m now i w))"
proof -
  have "SaveScope (w_scope w) \<in> set (w_log (send Event mk (save_scope v)))" if "w_scope v = w_scope w" for mk v
    using that by (simp add: save_scope_def effect_simps)
  then show ?thesis
    unfolding finalize_tail_def Let_def
    using request_log by (auto simp: effect_simps reports_effect shift_effect subset_iff)
qed

lemma finalize_saves:
  assumes "\<not> smp_finalized p" "current_session (w_scope w) = Some session"
    and "finalize_session lc deps reason p w = (p', w')"
  shows "SaveScope (w_scope w') \<in> set (w_log w')"
  using assms finalize_tail_saves [of "_\<lparr>w_scope := update_current _ _\<rparr>"]
  by (auto simp: finalize_session_def Let_def now_ms_def finalize_tail_effect)

lemma live_pids_closed: "live_pids (update_current (close_session now) state) = {}"
  by (auto simp: live_pids_def is_scoped_def scope_simps close_session_def list_ex_iff live_member_def
        split: option.splits if_splits)


definition deps0 :: SessionManagerDeps where
  "deps0 = \<lparr>smd_processes_to_terminate = [], smd_uptimes = [600, 900], smd_autoshutdown = True,
     smd_time = \<lparr>tm_timestamp = 0, tm_offset_secs = 3600\<rparr>, smd_shutdown_delay_secs = 5,
     smd_skip_time_manipulation = False, smd_skip_reboot_and_shutdown = False, smd_agent_version = []\<rparr>"

definition booted :: World where
  "booted = \<lparr>w_scope = opened, w_seq = 0, w_clock = (\<lambda>n. of_nat n), w_reads = 0,
     w_answer = (\<lambda>_. True), w_calls = 0, w_log = []\<rparr>"

lemma booted_session: "current_session (w_scope booted) = Some (new_session 0 None 0)"
  by (simp add: booted_def opened_def current_session_def last_opt_def)


subsection \<open>One finalization per boot\<close>

datatype smp_input = InPre SandboxEvent | InBus AgentBusEvent

definition smp_step :: "(rstr \<Rightarrow> rstr) \<Rightarrow> SessionManagerDeps \<Rightarrow> smp_input \<Rightarrow> SessionManagerPlugin \<times> World
    \<Rightarrow> SessionManagerPlugin \<times> World" where
  "smp_step lc deps input s = (case s of (p, w) \<Rightarrow>
     (case input of InPre ev \<Rightarrow> smp_pre lc deps ev p w | InBus ev \<Rightarrow> smp_consume lc deps ev p w))"

text \<open>A step leaves the plugin's finalized flag alone and publishes nothing, or it is the one
  finalization.\<close>

lemma smp_step_cases:
  assumes "smp_step lc deps input (p, w) = (p', w')"
  obtains (quiet) "smp_finalized p' = smp_finalized p" "w_scope w' = w_scope w"
      "tags w' = tags w \<or> tags w' = tags w @ [TSave]"
  | (final) reason p1 where "\<not> smp_finalized p" "finalize_session lc deps reason p w = (p1, w')"
      "smp_finalized p' = smp_finalized p1"
proof -
  have fin: thesis if "finalize_session lc deps reason p w = (p1, w')" "smp_finalized p' = smp_finalized p1" for reason p1
  proof (cases "smp_finalized p")
    case True
    with that have "smp_finalized p' = smp_finalized p" "w' = w" by (auto simp: finalize_session_def)
    with quiet show ?thesis by simp
  next
    case False
    from final [OF this that] show ?thesis .
  qed
  show ?thesis
  proof (cases input)
    case (InPre ev)
    with assms have pre: "smp_pre lc deps ev p w = (p', w')" by (simp add: smp_step_def)
    show ?thesis
    proof (cases ev)
      case SessionDeadline
      with pre fin show ?thesis by (auto simp: smp_pre_def)
    next
      case ServiceStop
      with pre fin show ?thesis by (auto simp: smp_pre_def)
    qed (use pre quiet in \<open>auto simp: smp_pre_def effect_simps split: if_splits\<close>)
  next
    case (InBus ev)
    with assms have con: "smp_consume lc deps ev p w = (p', w')" by (simp add: smp_step_def)
    show ?thesis
    proof (cases "smp_consuming p \<and> ev = AgentBusEvent.ScopeDied \<and> smd_autoshutdown deps")
      case True
      then obtain p1 where "finalize_session lc deps DeadScope p w = (p1, w')" "p' = p1\<lparr>smp_consuming := False\<rparr>"
        using con by (auto simp: smp_consume_def split: prod.splits)
      with fin show ?thesis by simp
    next
      case False
      with con quiet show ?thesis by (auto simp: smp_consume_def split: if_splits AgentBusEvent.splits)
    qed
  qed
qed

definition is_request :: "tag \<Rightarrow> bool" where
  "is_request t \<longleftrightarrow> t \<in> {TPub Control EventType.StudyRebootRequested, TPub Control EventType.StudyShutdownRequested}"

lemma finalize_plan_counts:
  "count_list (finalize_plan deps n ok) TDone = 1"
  "count_list (finalize_plan deps n ok) (TPub Event EventType.SessionEnded) = 1"
  "filter is_request (finalize_plan deps n ok) = (if smd_skip_reboot_and_shutdown deps then []
     else [TPub Control (if smd_uptimes deps = [] \<or> length (smd_uptimes deps) \<le> n
             then EventType.StudyShutdownRequested else EventType.StudyRebootRequested)])"
  by (simp_all add: finalize_plan_def clock_plan_def request_plan_def is_request_def)

text \<open>
  C6. Finalization happens once per boot. Whatever deadlines, stop requests, scope deaths, score
  raises and persist ticks arrive, in whatever order and number, a boot that starts with an open
  session publishes \<open>session.ended\<close> and sets the completion flag exactly once if it was finalized at
  all and never otherwise, and issues at most one reboot or shutdown request.
\<close>

theorem finalize_once:
  assumes "\<not> smp_finalized p" "current_session (w_scope w) \<noteq> None" "w_log w = []"
    and "fold (smp_step lc deps) inputs (p, w) = (p', w')"
  shows "count_list (tags w') TDone = (if smp_finalized p' then 1 else 0)
       \<and> count_list (tags w') (TPub Event EventType.SessionEnded) = (if smp_finalized p' then 1 else 0)
       \<and> length (filter is_request (tags w')) \<le> (if smp_finalized p' then 1 else 0)"
proof -
  define ok where "ok = (\<lambda>(p :: SessionManagerPlugin, w :: World). current_session (w_scope w) \<noteq> None
     \<and> count_list (tags w) TDone = (if smp_finalized p then 1 else 0)
     \<and> count_list (tags w) (TPub Event EventType.SessionEnded) = (if smp_finalized p then 1 else 0)
     \<and> length (filter is_request (tags w)) \<le> (if smp_finalized p then 1 else 0))"
  have step: "ok (smp_step lc deps i s)" if oks: "ok s" for i s
  proof -
    obtain p w where s: "s = (p, w)" by fastforce
    obtain p' w' where r: "smp_step lc deps i (p, w) = (p', w')" by fastforce
    from r show ?thesis
    proof (cases rule: smp_step_cases)
      case quiet
      with oks s r show ?thesis by (auto simp: ok_def is_request_def)
    next
      case (final reason p1)
      obtain session where cs: "current_session (w_scope w) = Some session" using oks s by (auto simp: ok_def)
      note eff = finalize_session_effect [OF final(1) cs final(2)]
      show ?thesis
        using oks s r eff final(1,3) by (simp add: ok_def scope_simps finalize_plan_counts)
    qed
  qed
  have "ok (fold (smp_step lc deps) is s)" if "ok s" for s "is"
    using that
  proof (induction "is" arbitrary: s)
    case (Cons i "is")
    then show ?case using step [of s i] by simp
  qed simp
  moreover have "ok (p, w)" using assms(1-3) by (simp add: ok_def tags_def)
  ultimately have "ok (p', w')" using assms(4) by metis
  then show ?thesis by (simp add: ok_def)
qed

definition three_triggers :: "smp_input list" where
  "three_triggers = [InPre SessionDeadline, InBus AgentBusEvent.ScopeDied, InPre ServiceStop]"

theorem finalize_once_witness:
  "count_list (tags (snd (fold (smp_step to_ascii_lowercase deps0) three_triggers (SessionManagerPlugin_new, booted)))) TDone = 1"
proof -
  let ?r = "fold (smp_step to_ascii_lowercase deps0) three_triggers (SessionManagerPlugin_new, booted)"
  have pre: "\<not> smp_finalized SessionManagerPlugin_new" "current_session (w_scope booted) \<noteq> None" "w_log booted = []"
    using booted_session by (simp_all add: SessionManagerPlugin_new_def booted_def)
  have "smp_finalized (fst ?r)" by code_simp
  then show ?thesis
    using finalize_once [OF pre, of to_ascii_lowercase deps0 three_triggers "fst ?r" "snd ?r"] by simp
qed

subsection \<open>Boots\<close>

definition all_ended :: "SessionRecord list \<Rightarrow> bool" where
  "all_ended ss \<longleftrightarrow> list_all (\<lambda>s. ses_ended_at_ms s \<noteq> None) ss"

text \<open>What a boot does to the record of the previous one.\<close>

definition stamp_abandoned :: "i64 \<Rightarrow> SessionRecord \<Rightarrow> SessionRecord" where
  "stamp_abandoned now s = (if ses_ended_at_ms s = None
     then s\<lparr>ses_ended_at_ms := Some now, ses_abandoned := True\<rparr> else s)"

lemma open_session_sessions:
  "sst_sessions (w_scope (open_session_if_needed deps w))
     = update_last (stamp_abandoned (w_clock w (w_reads w))) (sst_sessions (w_scope w))
       @ [new_session (u32_try_from (length (sst_sessions (w_scope w))))
            (get (smd_uptimes deps) (unat (u32_try_from (length (sst_sessions (w_scope w)))))) (w_clock w (w_reads w))]"
proof (cases "sst_sessions (w_scope w)" rule: rev_cases)
  case Nil
  then show ?thesis by (simp add: open_session_if_needed_def now_ms_def Let_def current_session_def)
next
  case (snoc ss s)
  then show ?thesis
    by (simp add: open_session_if_needed_def now_ms_def Let_def current_session_def scope_simps stamp_abandoned_def)
qed

lemma open_session_log: "w_log (open_session_if_needed deps w) = w_log w"
  "tags (open_session_if_needed deps w) = tags w" "w_seq (open_session_if_needed deps w) = w_seq w"
  by (simp_all add: open_session_if_needed_def now_ms_def Let_def tags_def)

text \<open>
  One session per boot, whatever happened to the previous one. Opening the session at boot
  appends exactly one fresh record whose id is its position; a previous session that was still open
  (power loss) is closed and marked abandoned, one that ended cleanly is left untouched, so an
  unclean reboot neither stalls the study nor reuses an id, and afterwards only the new session is
  open.
\<close>

theorem boot_opens_one_session:
  assumes "sessions_wf (sst_sessions (w_scope w))" "all_ended (butlast (sst_sessions (w_scope w)))"
  shows "let old = sst_sessions (w_scope w); ss = sst_sessions (w_scope (open_session_if_needed deps w)) in
         sessions_wf ss \<and> length ss = Suc (length old) \<and> all_ended (butlast ss)
       \<and> ses_ended_at_ms (last ss) = None
       \<and> butlast ss = update_last (stamp_abandoned (w_clock w (w_reads w))) old"
proof -
  let ?t = "w_clock w (w_reads w)" and ?old = "sst_sessions (w_scope w)"
  have "sessions_wf (update_last (stamp_abandoned ?t) ?old)"
    using assms(1) by (rule sessions_wf_update_last) (simp add: stamp_abandoned_def session_wf_def)
  moreover have "all_ended (update_last (stamp_abandoned ?t) ?old)"
    using assms(2) by (cases "?old" rule: rev_cases) (auto simp: all_ended_def stamp_abandoned_def)
  ultimately show ?thesis
    by (simp add: Let_def open_session_sessions sessions_wf_snoc) (simp add: new_session_def)
qed

theorem boot_opens_one_session_witness:
  "length (sst_sessions (w_scope (open_session_if_needed deps0 booted))) = 2
   \<and> map ses_abandoned (butlast (sst_sessions (w_scope (open_session_if_needed deps0 booted)))) = [True]"
proof -
  have wf: "sessions_wf (sst_sessions (w_scope booted))" "all_ended (butlast (sst_sessions (w_scope booted)))"
    by (simp_all add: booted_def opened_def sessions_wf_def session_wf_def new_session_def u32_try_from_def all_ended_def)
  show ?thesis
    using boot_opens_one_session [OF wf, of deps0]
    by (simp add: Let_def booted_def opened_def update_last_def stamp_abandoned_def new_session_def)
qed

text \<open>One boot of a study that runs to its finalization, and the requests of a whole study.\<close>

definition boot_and_finalize :: "(rstr \<Rightarrow> rstr) \<Rightarrow> SessionManagerDeps \<Rightarrow> FinalizeReason \<Rightarrow> World \<Rightarrow> World" where
  "boot_and_finalize lc deps reason w =
     snd (finalize_session lc deps reason SessionManagerPlugin_new (open_session_if_needed deps w))"

lemma boot_and_finalize_effect:
  shows "length (sst_sessions (w_scope (boot_and_finalize lc deps reason w))) = Suc (length (sst_sessions (w_scope w)))"
    and "filter is_request (tags (boot_and_finalize lc deps reason w)) = filter is_request (tags w)
       @ (if smd_skip_reboot_and_shutdown deps then []
          else [TPub Control (if smd_uptimes deps = [] \<or> length (smd_uptimes deps) \<le> Suc (length (sst_sessions (w_scope w)))
             then EventType.StudyShutdownRequested else EventType.StudyRebootRequested)])"
proof -
  let ?w = "open_session_if_needed deps w"
  obtain p' w' where r: "finalize_session lc deps reason SessionManagerPlugin_new ?w = (p', w')" by fastforce
  have len: "length (sst_sessions (w_scope ?w)) = Suc (length (sst_sessions (w_scope w)))"
    by (simp add: open_session_sessions)
  obtain session where cs: "current_session (w_scope ?w) = Some session"
    using open_session_sessions [of deps w] by (simp add: current_session_def)
  have nf: "\<not> smp_finalized SessionManagerPlugin_new" by (simp add: SessionManagerPlugin_new_def)
  note eff = finalize_session_effect [OF nf cs r]
  show "length (sst_sessions (w_scope (boot_and_finalize lc deps reason w))) = Suc (length (sst_sessions (w_scope w)))"
    by (simp add: boot_and_finalize_def r eff(2) scope_simps len)
  show "filter is_request (tags (boot_and_finalize lc deps reason w)) = filter is_request (tags w)
       @ (if smd_skip_reboot_and_shutdown deps then []
          else [TPub Control (if smd_uptimes deps = [] \<or> length (smd_uptimes deps) \<le> Suc (length (sst_sessions (w_scope w)))
             then EventType.StudyShutdownRequested else EventType.StudyRebootRequested)])"
    by (simp add: boot_and_finalize_def r eff(3) open_session_log finalize_plan_counts len)
qed

text \<open>
  A study of planned sessions reboots until the plan is exhausted and then shuts down. From a
  fresh scope, boot number \<open>i\<close> (for whatever reason it finalizes, a dead scope included) requests a
  reboot exactly while \<open>i\<close> is below the number of planned uptimes and a shutdown from then on; a
  study without planned uptimes requests the shutdown at its first finalization.
\<close>

theorem study_reboots_until_plan_exhausted:
  assumes "sst_sessions (w_scope w) = []" "w_log w = []" "\<not> smd_skip_reboot_and_shutdown deps"
  shows "filter is_request (tags (fold (boot_and_finalize lc deps) reasons w))
       = map (\<lambda>i. TPub Control (if i < length (smd_uptimes deps)
              then EventType.StudyRebootRequested else EventType.StudyShutdownRequested))
           [1..<Suc (length reasons)]"
proof -
  have "length (sst_sessions (w_scope (fold (boot_and_finalize lc deps) reasons w))) = length reasons
      \<and> filter is_request (tags (fold (boot_and_finalize lc deps) reasons w))
       = map (\<lambda>i. TPub Control (if i < length (smd_uptimes deps)
              then EventType.StudyRebootRequested else EventType.StudyShutdownRequested))
           [1..<Suc (length reasons)]"
  proof (induction reasons rule: rev_induct)
    case Nil
    then show ?case using assms by (simp add: tags_def)
  next
    case (snoc r reasons)
    then show ?case using assms(3) by (auto simp: boot_and_finalize_effect not_less)
  qed
  then show ?thesis by blast
qed

theorem study_reboots_until_plan_exhausted_witness:
  "filter is_request (tags (fold (boot_and_finalize to_ascii_lowercase deps0) [DeadScope, Deadline]
     (booted\<lparr>w_scope := \<lparr>sst_study_id = 1, sst_sessions = []\<rparr>\<rparr>)))
   = [TPub Control EventType.StudyRebootRequested, TPub Control EventType.StudyShutdownRequested]"
  using study_reboots_until_plan_exhausted [of "booted\<lparr>w_scope := \<lparr>sst_study_id = 1, sst_sessions = []\<rparr>\<rparr>" deps0
      to_ascii_lowercase "[DeadScope, Deadline]"]
  by (simp add: booted_def deps0_def upt_rec del: fold_simps)

subsection \<open>The drop histogram\<close>

lemma fold_bump_histogram:
  "fold (\<lambda>x. bump_histogram (f x)) xs h e
   = (if \<exists>x \<in> set xs. f x = e
      then Some ((case h e of None \<Rightarrow> 0 | Some n \<Rightarrow> n) + of_nat (length (filter (\<lambda>x. f x = e) xs))) else h e)"
proof (induction xs arbitrary: h)
  case (Cons x xs)
  then show ?case by (auto simp: bump_histogram_def filter_empty_conv add_ac split: option.splits)
qed simp

text \<open>
  The drop summary counts right: an extension is listed exactly when the session observed a drop
  with it, with the number of such drops (modulo the 32-bit counter); drops without an extension
  are listed under the empty one.
\<close>

theorem drops_histogram_counts:
  assumes "current_session state = Some session" "finite (ses_observed_drops session)"
  shows "drops_histogram lc state e
       = (if e \<in> drop_extension lc ` ses_observed_drops session
          then Some (of_nat (card {path \<in> ses_observed_drops session. drop_extension lc path = e})) else None)"
proof -
  let ?xs = "sorted_list_of_set (ses_observed_drops session)"
  have "set (filter (\<lambda>x. drop_extension lc x = e) ?xs) = {path \<in> ses_observed_drops session. drop_extension lc path = e}"
    using assms(2) by simp
  then have "length (filter (\<lambda>x. drop_extension lc x = e) ?xs) = card {path \<in> ses_observed_drops session. drop_extension lc path = e}"
    using distinct_card [of "filter (\<lambda>x. drop_extension lc x = e) ?xs"] by simp
  then show ?thesis
    using assms by (simp add: drops_histogram_def fold_bump_histogram image_iff) metis
qed

definition three_drops :: SessionRecord where
  "three_drops = (new_session 0 None 0)\<lparr>ses_observed_drops := {utf ''a.js'', utf ''b.JS'', utf ''c.exe''}\<rparr>"

theorem drops_histogram_counts_witness:
  "drops_histogram to_ascii_lowercase \<lparr>sst_study_id = 1, sst_sessions = [three_drops]\<rparr> (utf ''js'') = Some 2"
proof -
  have "{path \<in> ses_observed_drops three_drops. drop_extension to_ascii_lowercase path = utf ''js''} = {utf ''a.js'', utf ''b.JS''}"
    "utf ''js'' \<in> drop_extension to_ascii_lowercase ` ses_observed_drops three_drops"
    by code_simp+
  then show ?thesis
    using drops_histogram_counts [of "\<lparr>sst_study_id = 1, sst_sessions = [three_drops]\<rparr>" three_drops to_ascii_lowercase "utf ''js''"]
    by (simp add: current_session_def last_opt_def) (simp add: three_drops_def)
qed

subsection \<open>Numbering\<close>

lemma well_typed_emit: "payload_event_type d = t \<Longrightarrow> well_typed (envelope_raw now q s i t d) \<and> env_seq (envelope_raw now q s i t d) = q"
  by simp

lemma gapless_reports: "gapless w (publish_finalize_reports lc (\<lambda>q t d. envelope_raw now q s i t d) m w)"
  unfolding publish_finalize_reports_def Let_def by (rule gapless_trans; rule gapless_send) simp_all

lemma gapless_shift: "gapless w (shift_clock_at_finalize deps (\<lambda>q t d. envelope_raw now q s i t d) t0 w)"
proof -
  obtain ok w1 where a: "ask (SetUnixMs (t0 + tm_offset_secs (smd_time deps) * 1000)) w = (ok, w1)" by fastforce
  have "gapless w w1" by (rule gapless_ask [OF a]) simp
  then show ?thesis
    by (auto simp: shift_clock_at_finalize_def Let_def a intro!: gapless_trans [OF _ gapless_send])
qed

lemma gapless_request: "gapless w (request_reboot_or_shutdown deps (\<lambda>q t d. envelope_raw now q s i t d) n r w)"
  by (auto simp: request_reboot_or_shutdown_def Let_def
        intro!: gapless_send gapless_trans [OF gapless_perform gapless_send])

lemma gapless_kill_save: "gapless w (kill_helpers deps w)" "gapless w (save_scope w)"
  by (simp_all add: kill_helpers_def save_scope_def gapless_perform)

lemma gapless_finalize_tail: "gapless w (finalize_tail lc deps reason m now i w)"
  unfolding finalize_tail_def Let_def
  by (rule gapless_trans [OF _ gapless_perform] gapless_trans [OF _ gapless_request]
        gapless_trans [OF _ gapless_shift] gapless_trans [OF _ gapless_reports]
        gapless_trans [OF _ gapless_kill_save(1)] gapless_trans [OF _ gapless_kill_save(2)]
        gapless_trans [OF _ gapless_send] gapless_refl | simp; fail)+

lemma gapless_finalize: "gapless w (snd (finalize_session lc deps reason p w))"
proof -
  obtain now w1 where n: "now_ms w = (now, w1)" by fastforce
  have g1: "gapless w w1" by (rule gapless_now [OF n])
  have "gapless w (finalize_tail lc deps reason m now i (w1\<lparr>w_scope := st\<rparr>))" for m i st
    by (rule gapless_trans [OF g1 gapless_trans [OF gapless_scope gapless_finalize_tail]])
  then show ?thesis
    by (auto simp: finalize_session_def Let_def n intro!: gapless_trans [OF g1 gapless_perform] split: option.splits)
qed

lemma gapless_smp_pre: "gapless w (snd (smp_pre lc deps ev p w))"
  by (cases ev) (simp_all add: smp_pre_def gapless_finalize gapless_perform)

lemma gapless_smp_consume: "gapless w (snd (smp_consume lc deps ev p w))"
  using gapless_finalize [of w lc deps DeadScope p]
  by (cases ev) (auto simp: smp_consume_def split: prod.splits)

interpretation smp: publisher "\<lambda>i. \<lambda>w. snd (smp_pre lc deps (fst i) (snd i) w)" for lc deps
  by unfold_locales (rule gapless_smp_pre)

end
