(* ===== verification/Scope_Tracker_Plugin.thy ===== *)
theory Scope_Tracker_Plugin
  imports Agent_World Score
begin

text \<open>
  The scope-tracker plugin (\<^verbatim>\<open>crates/agent/src/plugins/scope_tracker.rs\<close>): membership, drop detection
  and the bridge of derived events onto the bus. The bus is a bounded broadcast channel of a
  library, so what the plugin's subscription yields when it is drained (values and lag notices, up
  to the first \<open>Empty\<close>) is an input of \<open>pre\<close>.
\<close>

datatype Received = RecvOk AgentBusEvent | RecvLagged u64

record ScopeTrackerPlugin =
  stp_tracker :: ScopeTracker
  stp_filter :: DropFilter
  stp_target_name :: rstr
  stp_every_session :: bool
  stp_subscribed :: bool

definition ScopeTrackerPlugin_new :: "rstr \<Rightarrow> bool \<Rightarrow> DropFilter \<Rightarrow> ScopeTrackerPlugin" where
  "ScopeTrackerPlugin_new target_name every_session fltr =
     \<lparr>stp_tracker = \<lparr>trk_expected = [], trk_closed = {}\<rparr>, stp_filter = fltr,
      stp_target_name = target_name, stp_every_session = every_session, stp_subscribed = False\<rparr>"

definition apply_received :: "(rstr \<Rightarrow> rstr) \<Rightarrow> Received \<Rightarrow> ScopeTracker \<Rightarrow> ScopeTracker" where
  "apply_received lc r trk = (case r of RecvOk (ExtendScopeExpectation name) \<Rightarrow> expect lc name trk | _ \<Rightarrow> trk)"

definition drain_expectations :: "(rstr \<Rightarrow> rstr) \<Rightarrow> Received list \<Rightarrow> ScopeTrackerPlugin \<Rightarrow> ScopeTrackerPlugin" where
  "drain_expectations lc received p =
     (if \<not> stp_subscribed p then p
      else p\<lparr>stp_tracker := fold (apply_received lc) received (stp_tracker p)\<rparr>)"

definition stp_start :: "(rstr \<Rightarrow> rstr) \<Rightarrow> ScopeTrackerPlugin \<Rightarrow> World \<Rightarrow> ScopeTrackerPlugin" where
  "stp_start lc p w =
     (let session_count = length (sst_sessions (w_scope w));
          p = (if session_count = 1 \<or> stp_every_session p
               then p\<lparr>stp_tracker := expect lc (stp_target_name p) (stp_tracker p)\<rparr> else p) in
      p\<lparr>stp_subscribed := True\<rparr>)"

text \<open>The arms of \<open>handle_source\<close>.\<close>

definition on_process_started :: "(rstr \<Rightarrow> rstr) \<Rightarrow> ProcessStartedData \<Rightarrow> ScopeTrackerPlugin \<Rightarrow> World \<Rightarrow> World" where
  "on_process_started lc data p w =
     (case now_ms w of (now, w) \<Rightarrow>
      case process_entered lc (stp_tracker p) (w_scope w) data now of (entered, state) \<Rightarrow>
        let w = w\<lparr>w_scope := state\<rparr> in
        if entered then
          (let w = (if normalize_image_name lc (ps_name data) = normalize_image_name lc (stp_target_name p)
                    then perform (BusPublish (AgentBusEvent.TargetLaunched (ps_name data))) w else w) in
           perform (BusPublish (ProcessEnteredScope (ps_pid data) (ps_name data))) w)
        else w)"

definition on_process_stopped :: "ProcessStoppedData \<Rightarrow> World \<Rightarrow> World" where
  "on_process_stopped data w =
     (case now_ms w of (now, w) \<Rightarrow>
      case process_exited (w_scope w) data now of (was_scoped, state) \<Rightarrow>
        let w = w\<lparr>w_scope := state\<rparr>; dead = scope_dead state in
        if was_scoped then
          (let w = perform (BusPublish (ProcessExitedScope (pst_pid data) (pst_name data))) w in
           if dead then perform (BusPublish AgentBusEvent.ScopeDied) w else w)
        else w)"

definition on_file_written :: "(rstr \<Rightarrow> rstr) \<Rightarrow> FileWrittenData \<Rightarrow> ScopeTrackerPlugin \<Rightarrow> World \<Rightarrow> World" where
  "on_file_written lc data p w =
     (case drop_observed lc (w_scope w) data (stp_filter p) of (obs, state) \<Rightarrow>
        let w = w\<lparr>w_scope := state\<rparr> in
        case obs of None \<Rightarrow> w
        | Some path \<Rightarrow> perform (BusPublish (AgentBusEvent.DropObserved path (Some (fw_pid data)))) w)"

definition on_behavior_call :: "BehaviorCallData \<Rightarrow> World \<Rightarrow> World" where
  "on_behavior_call data w =
     (if is_scoring_relevant (bc_api data) then
        (if is_scoped (w_scope w) (bc_pid data)
         then perform (BusPublish (BehaviorObserved (bc_pid data) (bc_api data))) w else w)
      else w)"

definition on_file_released :: "FileReleasedData \<Rightarrow> ScopeTrackerPlugin \<Rightarrow> World \<Rightarrow> ScopeTrackerPlugin \<times> World" where
  "on_file_released data p w =
     (case drop_closed (stp_tracker p) (w_scope w) data of (closed, trk) \<Rightarrow>
        (p\<lparr>stp_tracker := trk\<rparr>, case closed of None \<Rightarrow> w
            | Some path \<Rightarrow> perform (BusPublish (AgentBusEvent.DropClosed path)) w))"

definition handle_source :: "(rstr \<Rightarrow> rstr) \<Rightarrow> SourceEvent \<Rightarrow> ScopeTrackerPlugin \<Rightarrow> World
    \<Rightarrow> ScopeTrackerPlugin \<times> World" where
  "handle_source lc source p w =
     (case source of
        SourceEvent.ProcessStarted data \<Rightarrow> (p, on_process_started lc data p w)
      | SourceEvent.ProcessStopped data \<Rightarrow> (p, on_process_stopped data w)
      | SourceEvent.FileWritten data \<Rightarrow> (p, on_file_written lc data p w)
      | SourceEvent.BehaviorCall data \<Rightarrow> (p, on_behavior_call data w)
      | SourceEvent.FileClosed data \<Rightarrow> on_file_released data p w
      | SourceEvent.FileCleanedUp data \<Rightarrow> on_file_released data p w
      | _ \<Rightarrow> (p, w))"

definition stp_pre :: "(rstr \<Rightarrow> rstr) \<Rightarrow> Received list \<times> SandboxEvent \<Rightarrow> ScopeTrackerPlugin \<Rightarrow> World
    \<Rightarrow> ScopeTrackerPlugin \<times> World" where
  "stp_pre lc input p w =
     (let p = drain_expectations lc (fst input) p in
      case source_event (snd input) of None \<Rightarrow> (p, w) | Some source \<Rightarrow> handle_source lc source p w)"

subsection \<open>Invariant\<close>

definition stp_wf :: "ScopeTrackerPlugin \<Rightarrow> World \<Rightarrow> bool" where
  "stp_wf p w \<longleftrightarrow> scope_wf (stp_tracker p) (w_scope w)"

lemma fold_apply_received_wf: "scope_wf trk st \<Longrightarrow> scope_wf (fold (apply_received lc) rs trk) st"
  by (induction rs arbitrary: trk)
     (auto simp: apply_received_def intro!: expect_wf split: Received.splits AgentBusEvent.splits)

lemma fold_apply_received_closed: "trk_closed (fold (apply_received lc) rs trk) = trk_closed trk"
  by (induction rs arbitrary: trk)
     (auto simp: apply_received_def expect_def Let_def split: Received.splits AgentBusEvent.splits)

lemma drain_wf: "stp_wf p w \<Longrightarrow> stp_wf (drain_expectations lc rs p) w"
  by (simp add: stp_wf_def drain_expectations_def fold_apply_received_wf)

lemma drain_closed: "trk_closed (stp_tracker (drain_expectations lc rs p)) = trk_closed (stp_tracker p)"
  by (simp add: drain_expectations_def fold_apply_received_closed)

text \<open>To prove a relation between the state before and after \<open>handle_source\<close> it is enough to prove it
  for each arm and for doing nothing.\<close>

lemma handle_source_rule:
  assumes "\<And>data. R (p, w) (p, on_process_started lc data p w)" "\<And>data. R (p, w) (p, on_process_stopped data w)"
    and "\<And>data. R (p, w) (p, on_file_written lc data p w)" "\<And>data. R (p, w) (p, on_behavior_call data w)"
    and "\<And>data. R (p, w) (on_file_released data p w)" "R (p, w) (p, w)"
  shows "R (p, w) (handle_source lc source p w)"
  using assms by (cases source) (simp_all add: handle_source_def)

lemma arms_wf:
  assumes "stp_wf p w"
  shows "stp_wf p (on_process_started lc sdata p w)" "stp_wf p (on_process_stopped tdata w)"
    "stp_wf p (on_file_written lc wdata p w)" "stp_wf p (on_behavior_call bdata w)"
    "case on_file_released rdata p w of (p', w') \<Rightarrow> stp_wf p' w'"
proof -
  note simps = stp_wf_def Let_def effect_simps now_ms_def
  show "stp_wf p (on_process_started lc sdata p w)"
    using assms by (auto simp: on_process_started_def simps intro: process_entered_wf split: prod.splits)
  show "stp_wf p (on_process_stopped tdata w)"
    using assms by (auto simp: on_process_stopped_def simps intro: process_exited_wf split: prod.splits)
  show "stp_wf p (on_file_written lc wdata p w)"
    using assms by (auto simp: on_file_written_def simps intro: drop_observed_wf split: prod.splits option.splits)
  show "stp_wf p (on_behavior_call bdata w)"
    using assms by (auto simp: on_behavior_call_def simps)
  show "case on_file_released rdata p w of (p', w') \<Rightarrow> stp_wf p' w'"
    using assms by (auto simp: on_file_released_def simps intro: drop_closed_wf split: prod.splits option.splits)
qed

lemma handle_source_wf:
  "stp_wf p w \<Longrightarrow> handle_source lc source p w = (p', w') \<Longrightarrow> stp_wf p' w'"
  using handle_source_rule [of "\<lambda>_ (p', w'). stp_wf p' w'" p w lc source] by (simp add: arms_wf)

lemma stp_pre_wf: "stp_wf p w \<Longrightarrow> stp_pre lc input p w = (p', w') \<Longrightarrow> stp_wf p' w'"
  by (auto simp: stp_pre_def Let_def intro: drain_wf handle_source_wf split: option.splits)

subsection \<open>What is published for drops\<close>

definition observed_paths :: "AgentBusEvent list \<Rightarrow> rstr list" where
  "observed_paths evs = List.map_filter (\<lambda>e. case e of AgentBusEvent.DropObserved path _ \<Rightarrow> Some path | _ \<Rightarrow> None) evs"

definition closed_paths :: "AgentBusEvent list \<Rightarrow> rstr list" where
  "closed_paths evs = List.map_filter (\<lambda>e. case e of AgentBusEvent.DropClosed path \<Rightarrow> Some path | _ \<Rightarrow> None) evs"

lemma paths_append [simp]:
  "observed_paths (xs @ ys) = observed_paths xs @ observed_paths ys"
  "closed_paths (xs @ ys) = closed_paths xs @ closed_paths ys"
  by (simp_all add: observed_paths_def closed_paths_def map_filter_def)

text \<open>From \<open>(p, w)\<close> to \<open>(p', w')\<close>: the log grew by \<open>added\<close>; the paths reported observed and closed in
  it are exactly the new members of the two memories, each once.\<close>

definition drops_reported :: "ScopeTrackerPlugin \<times> World \<Rightarrow> ScopeTrackerPlugin \<times> World \<Rightarrow> bool" where
  "drops_reported s s' = (case s of (p, w) \<Rightarrow> case s' of (p', w') \<Rightarrow>
     \<exists>added. w_log w' = w_log w @ added
       \<and> distinct (observed_paths (bus_events added))
       \<and> set (observed_paths (bus_events added)) = observed (w_scope w') - observed (w_scope w)
       \<and> observed (w_scope w) \<subseteq> observed (w_scope w')
       \<and> distinct (closed_paths (bus_events added))
       \<and> set (closed_paths (bus_events added)) = trk_closed (stp_tracker p') - trk_closed (stp_tracker p)
       \<and> trk_closed (stp_tracker p) \<subseteq> trk_closed (stp_tracker p'))"

lemma drops_reported_trans:
  assumes "drops_reported s1 s2" "drops_reported s2 s3"
  shows "drops_reported s1 s3"
proof -
  obtain p1 w1 p2 w2 p3 w3 where s: "s1 = (p1, w1)" "s2 = (p2, w2)" "s3 = (p3, w3)" by (cases s1, cases s2, cases s3)
  let ?o = "\<lambda>xs. set (observed_paths (bus_events xs))" and ?c = "\<lambda>xs. set (closed_paths (bus_events xs))"
  let ?O = "\<lambda>w. observed (w_scope w)" and ?C = "\<lambda>p. trk_closed (stp_tracker p)"
  from assms(1) s obtain a where a: "w_log w2 = w_log w1 @ a" "distinct (observed_paths (bus_events a))"
    "?o a = ?O w2 - ?O w1" "?O w1 \<subseteq> ?O w2" "distinct (closed_paths (bus_events a))"
    "?c a = ?C p2 - ?C p1" "?C p1 \<subseteq> ?C p2"
    by (auto simp: drops_reported_def)
  from assms(2) s obtain b where b: "w_log w3 = w_log w2 @ b" "distinct (observed_paths (bus_events b))"
    "?o b = ?O w3 - ?O w2" "?O w2 \<subseteq> ?O w3" "distinct (closed_paths (bus_events b))"
    "?c b = ?C p3 - ?C p2" "?C p2 \<subseteq> ?C p3"
    by (auto simp: drops_reported_def)
  have "w_log w3 = w_log w1 @ (a @ b)" using a(1) b(1) by simp
  moreover have "?o (a @ b) = ?O w3 - ?O w1" "?c (a @ b) = ?C p3 - ?C p1"
    using a(3,4,6,7) b(3,4,6,7) by auto
  moreover have "distinct (observed_paths (bus_events (a @ b)))" "distinct (closed_paths (bus_events (a @ b)))"
    using a(2,3,5,6) b(2,3,5,6) by auto
  moreover have "?O w1 \<subseteq> ?O w3" "?C p1 \<subseteq> ?C p3" using a(4,7) b(4,7) by auto
  ultimately show ?thesis unfolding drops_reported_def s by auto
qed

lemma drops_reported_same:
  "w_log w' = w_log w @ added \<Longrightarrow> observed_paths (bus_events added) = [] \<Longrightarrow> closed_paths (bus_events added) = []
   \<Longrightarrow> observed (w_scope w') = observed (w_scope w) \<Longrightarrow> trk_closed (stp_tracker p') = trk_closed (stp_tracker p)
   \<Longrightarrow> drops_reported (p, w) (p', w')"
  by (simp add: drops_reported_def)

lemma drops_reported_refl: "drops_reported s s"
  by (cases s) (auto intro!: drops_reported_same [of _ _ "[]"] simp: observed_paths_def closed_paths_def map_filter_simps)

lemma observed_entered: "process_entered lc trk st data now = (b, st') \<Longrightarrow> observed st' = observed st"
  by (auto simp: process_entered_def Let_def observed_update_processes split: if_splits option.splits)

lemma observed_exited: "process_exited st data now = (b, st') \<Longrightarrow> observed st' = observed st"
  by (auto simp: process_exited_def observed_update_processes split: if_splits option.splits)

lemma observed_drop:
  "drop_observed lc st data f = (r, st') \<Longrightarrow>
   (case r of None \<Rightarrow> st' = st | Some path \<Rightarrow> path \<notin> observed st \<and> observed st' = insert path (observed st))"
  by (auto simp: drop_observed_def observed_def scope_simps split: if_splits option.splits)

lemma closed_drop:
  "drop_closed trk st data = (r, trk') \<Longrightarrow>
   (case r of None \<Rightarrow> trk' = trk
    | Some path \<Rightarrow> path \<notin> trk_closed trk \<and> trk_closed trk' = insert path (trk_closed trk))"
  by (auto simp: drop_closed_def split: if_splits option.splits)

lemmas path_defs = observed_paths_def closed_paths_def map_filter_simps

lemma arms_drops_reported:
  "drops_reported (p, w) (p, on_process_started lc sdata p w)"
  "drops_reported (p, w) (p, on_process_stopped tdata w)"
  "drops_reported (p, w) (p, on_file_written lc wdata p w)"
  "drops_reported (p, w) (p, on_behavior_call bdata w)"
  "drops_reported (p, w) (on_file_released rdata p w)"
proof -
  show "drops_reported (p, w) (p, on_process_started lc sdata p w)"
    by (auto simp: on_process_started_def Let_def now_ms_def effect_simps path_defs observed_entered
          drops_reported_def split: prod.splits)
  show "drops_reported (p, w) (p, on_process_stopped tdata w)"
    by (auto simp: on_process_stopped_def Let_def now_ms_def effect_simps path_defs observed_exited
          drops_reported_def split: prod.splits)
  show "drops_reported (p, w) (p, on_file_written lc wdata p w)"
    by (auto simp: on_file_written_def Let_def effect_simps path_defs drops_reported_def
          split: prod.splits option.splits dest!: observed_drop)
  show "drops_reported (p, w) (p, on_behavior_call bdata w)"
    by (auto simp: on_behavior_call_def effect_simps path_defs drops_reported_def)
  show "drops_reported (p, w) (on_file_released rdata p w)"
    by (auto simp: on_file_released_def effect_simps path_defs drops_reported_def
          split: prod.splits option.splits dest!: closed_drop)
qed

lemma stp_pre_drops_reported: "drops_reported (p, w) (stp_pre lc input p w)"
proof -
  let ?p = "drain_expectations lc (fst input) p"
  have "drops_reported (?p, w) (handle_source lc source ?p w)" for source
    by (rule handle_source_rule) (simp_all add: arms_drops_reported drops_reported_refl)
  then show ?thesis
    by (auto simp: stp_pre_def Let_def drops_reported_def drain_closed path_defs split: option.splits prod.splits)
qed

text \<open>A sequence of inputs.\<close>

definition stp_run :: "(rstr \<Rightarrow> rstr) \<Rightarrow> (Received list \<times> SandboxEvent) list \<Rightarrow> ScopeTrackerPlugin \<times> World
    \<Rightarrow> ScopeTrackerPlugin \<times> World" where
  "stp_run lc inputs s = fold (\<lambda>input (p, w). stp_pre lc input p w) inputs s"

lemma stp_run_Cons: "stp_run lc (i # is) (p, w) = stp_run lc is (stp_pre lc i p w)"
  by (simp add: stp_run_def)

lemma stp_run_drops_reported: "drops_reported s (stp_run lc inputs s)"
proof (induction inputs arbitrary: s)
  case (Cons i inputs)
  then show ?case
    by (cases s) (metis stp_run_Cons drops_reported_trans stp_pre_drops_reported)
qed (simp add: stp_run_def drops_reported_refl)

lemma stp_run_wf: "stp_wf p w \<Longrightarrow> stp_run lc inputs (p, w) = (p', w') \<Longrightarrow> stp_wf p' w'"
proof (induction inputs arbitrary: p w)
  case (Cons i inputs)
  obtain p1 w1 where "stp_pre lc i p w = (p1, w1)" by fastforce
  with Cons show ?case by (auto simp: stp_run_Cons intro: stp_pre_wf)
qed (simp add: stp_run_def)

text \<open>
  C34. Drops are reported once and in order. In a freshly opened session, whatever telemetry arrives
  and whatever the bus delivers, the tracker announces every dropped path at most once as observed
  and at most once as closed, a path is announced as closed only if it was announced as observed,
  and the announced paths are exactly the ones the persisted session lists.
\<close>

theorem drops_reported_once:
  assumes "stp_wf p w" "observed (w_scope w) = {}" "trk_closed (stp_tracker p) = {}" "w_log w = []"
    and "stp_run lc inputs (p, w) = (p', w')"
  shows "distinct (observed_paths (bus_events (w_log w')))
       \<and> distinct (closed_paths (bus_events (w_log w')))
       \<and> set (observed_paths (bus_events (w_log w'))) = observed (w_scope w')
       \<and> set (closed_paths (bus_events (w_log w'))) \<subseteq> set (observed_paths (bus_events (w_log w')))"
proof -
  have "trk_closed (stp_tracker p') \<subseteq> observed (w_scope w')"
    using stp_run_wf [OF assms(1,5)] by (simp add: stp_wf_def scope_wf_def)
  moreover have "drops_reported (p, w) (p', w')"
    using stp_run_drops_reported [of "(p, w)" lc inputs] assms(5) by simp
  ultimately show ?thesis using assms(2-4) by (auto simp: drops_reported_def)
qed

definition tracker0 :: ScopeTrackerPlugin where
  "tracker0 = ScopeTrackerPlugin_new (utf ''evil.exe'') False [All]"

lemma world0_wf: "stp_wf tracker0 world0" "observed (w_scope world0) = {}"
  by (simp_all add: stp_wf_def tracker0_def ScopeTrackerPlugin_new_def world0_def scope_wf_def opened_def
        sessions_wf_def session_wf_def new_session_def u32_try_from_def observed_def current_session_def last_opt_def)

text \<open>The target starts, writes a file twice and closes it twice.\<close>

definition drop_story :: "(Received list \<times> SandboxEvent) list" where
  "drop_story =
     (let writes = Source (SourceEvent.FileWritten \<lparr>fw_pid = 7, fw_file_object = None, fw_file_key = None,
            fw_file_name = Some (utf ''a.js''), fw_io_size = None, fw_offset = None\<rparr>);
          closes = Source (SourceEvent.FileClosed \<lparr>fr_pid = 7, fr_file_object = None, fr_file_key = None,
            fr_file_name = Some (utf ''a.js'')\<rparr>) in
      [([RecvOk (ExtendScopeExpectation (utf ''Evil.exe''))], Source (SourceEvent.ProcessStarted started_evil)),
       ([], writes), ([], writes), ([], closes), ([], closes)])"

theorem drops_reported_once_witness:
  "observed (w_scope (snd (stp_run to_ascii_lowercase drop_story (tracker0\<lparr>stp_subscribed := True\<rparr>, world0)))) = {utf ''a.js''}
   \<and> distinct (closed_paths (bus_events (w_log (snd (stp_run to_ascii_lowercase drop_story (tracker0\<lparr>stp_subscribed := True\<rparr>, world0))))))"
proof -
  let ?s = "stp_run to_ascii_lowercase drop_story (tracker0\<lparr>stp_subscribed := True\<rparr>, world0)"
  have pre: "stp_wf (tracker0\<lparr>stp_subscribed := True\<rparr>) world0" "observed (w_scope world0) = {}"
    "trk_closed (stp_tracker (tracker0\<lparr>stp_subscribed := True\<rparr>)) = {}" "w_log world0 = []"
    using world0_wf by (simp_all add: stp_wf_def tracker0_def ScopeTrackerPlugin_new_def world0_def)
  have "set (observed_paths (bus_events (w_log (snd ?s)))) = {utf ''a.js''}" by code_simp
  then show ?thesis
    using drops_reported_once [OF pre, of to_ascii_lowercase drop_story "fst ?s" "snd ?s"] by simp
qed

text \<open>
  Scope death and behaviour reach the bus exactly when they are true. A stop event publishes the
  exit of a pid exactly when that pid was a live member, and announces the death of the scope with
  it exactly when nobody else is alive; a hooked call is bridged exactly when its api is a scoring
  signal and its process is a live member.
\<close>

theorem tracker_announces_truth:
  assumes "stp_wf p w"
  shows "bus_events (w_log (on_process_stopped data w)) = bus_events (w_log w)
       @ (if pst_pid data \<in> live_pids (w_scope w)
          then ProcessExitedScope (pst_pid data) (pst_name data)
             # (if live_pids (w_scope w) = {pst_pid data} then [AgentBusEvent.ScopeDied] else [])
          else [])
     \<and> bus_events (w_log (on_behavior_call call w)) = bus_events (w_log w)
       @ (if is_scoring_relevant (bc_api call) \<and> bc_pid call \<in> live_pids (w_scope w)
          then [BehaviorObserved (bc_pid call) (bc_api call)] else [])"
proof (intro conjI)
  obtain now w1 where now: "now_ms w = (now, w1)" by fastforce
  note [simp] = now_ms_effect [OF now]
  obtain b st where ex: "process_exited (w_scope w) data now = (b, st)" by fastforce
  have wf: "scope_wf (stp_tracker p) (w_scope w)" using assms by (simp add: stp_wf_def)
  have b: "b \<longleftrightarrow> pst_pid data \<in> live_pids (w_scope w)"
    using scope_exit(2) [of "w_scope w" data now] ex by simp
  have live: "live_pids st = live_pids (w_scope w) - {pst_pid data}"
    using scope_exit(1) [OF wf, of data now] ex by simp
  have "member_pids st \<noteq> {}" if b using that ex by (rule exited_member)
  then have dead: "scope_dead st \<longleftrightarrow> live_pids (w_scope w) = {pst_pid data}" if b
    using that b live scope_dead_iff [of st] by auto
  show "bus_events (w_log (on_process_stopped data w)) = bus_events (w_log w)
       @ (if pst_pid data \<in> live_pids (w_scope w)
          then ProcessExitedScope (pst_pid data) (pst_name data)
             # (if live_pids (w_scope w) = {pst_pid data} then [AgentBusEvent.ScopeDied] else [])
          else [])"
    using dead b by (auto simp: on_process_stopped_def now ex Let_def effect_simps)
  show "bus_events (w_log (on_behavior_call call w)) = bus_events (w_log w)
       @ (if is_scoring_relevant (bc_api call) \<and> bc_pid call \<in> live_pids (w_scope w)
          then [BehaviorObserved (bc_pid call) (bc_api call)] else [])"
    by (simp add: on_behavior_call_def effect_simps live_pids_def)
qed

definition world7 :: World where
  "world7 = world0\<lparr>w_scope := \<lparr>sst_study_id = 1, sst_sessions = [(new_session 0 None 0)\<lparr>ses_scoped_processes :=
     [\<lparr>spr_pid = 7, spr_parent_pid = None, spr_name = utf ''evil.exe'', spr_image_path = None, spr_command_line = None,
       spr_started_at_ms = 5, spr_ended_at_ms = None\<rparr>]\<rparr>]\<rparr>\<rparr>"

theorem tracker_announces_truth_witness:
  "bus_events (w_log (on_process_stopped \<lparr>pst_pid = 7, pst_name = utf ''evil.exe''\<rparr> world7))
     = [ProcessExitedScope 7 (utf ''evil.exe''), AgentBusEvent.ScopeDied]"
proof -
  have "stp_wf tracker0 world7"
    by (simp add: stp_wf_def tracker0_def ScopeTrackerPlugin_new_def world7_def scope_wf_def sessions_wf_def
          session_wf_def new_session_def u32_try_from_def)
  moreover have "live_pids (w_scope world7) = {7}" "w_log world7 = []"
    by (auto simp: live_pids_def is_scoped_def world7_def world0_def current_session_def last_opt_def new_session_def live_member_def)
  ultimately show ?thesis
    using tracker_announces_truth [of tracker0 world7 "\<lparr>pst_pid = 7, pst_name = utf ''evil.exe''\<rparr>"] by simp
qed

text \<open>
  Scope expectations cannot be overtaken. When the tracker's subscription holds the launcher's
  expectation of an image by the time a start of that image is processed, the started process is a
  live member of the scope afterwards, whatever else was queued and whoever its parent is.
\<close>

theorem expectation_applies_before_membership:
  assumes "stp_subscribed p" "RecvOk (ExtendScopeExpectation name) \<in> set received"
    and "lc name = lc (ps_name data)" "lc name \<noteq> []" "current_session (w_scope w) \<noteq> None"
    and "source_event ev = Some (SourceEvent.ProcessStarted data)"
  shows "ps_pid data \<in> live_pids (w_scope (snd (stp_pre lc (received, ev) p w)))"
proof -
  let ?p = "drain_expectations lc received p"
  have mono: "set (trk_expected trk) \<subseteq> set (trk_expected (fold (apply_received lc) rs trk))" for rs trk
  proof (induction rs arbitrary: trk)
    case (Cons r rs)
    have "set (trk_expected trk) \<subseteq> set (trk_expected (apply_received lc r trk))"
      by (auto simp: apply_received_def expect_def Let_def split: Received.splits AgentBusEvent.splits)
    with Cons show ?case by (auto simp: subset_iff)
  qed simp
  obtain rs1 rs2 where rs: "received = rs1 @ RecvOk (ExtendScopeExpectation name) # rs2"
    using assms(2) by (auto simp: in_set_conv_decomp)
  have "lc name \<in> set (trk_expected (expect lc name trk))" for trk
    using assms(4) by (auto simp: expect_def Let_def normalize_image_name_def)
  then have "lc (ps_name data) \<in> set (trk_expected (stp_tracker ?p))"
    using assms(1,3) mono by (auto simp: drain_expectations_def rs apply_received_def subset_iff)
  with assms(5) have enters: "b \<and> ps_pid data \<in> live_pids st"
    if "process_entered lc (stp_tracker ?p) (w_scope w) data now = (b, st)" for b st now
    using scope_enter [OF that] by simp
  obtain b st where e: "process_entered lc (stp_tracker ?p) (w_scope w) data (w_clock w (w_reads w)) = (b, st)"
    by fastforce
  with enters assms(6) show ?thesis
    by (simp add: stp_pre_def Let_def handle_source_def on_process_started_def now_ms_def effect_simps)
qed

theorem expectation_applies_before_membership_witness:
  "7 \<in> live_pids (w_scope (snd (stp_pre to_ascii_lowercase
      ([RecvLagged 3, RecvOk (ExtendScopeExpectation (utf ''Evil.exe''))], Source (SourceEvent.ProcessStarted started_evil))
      (tracker0\<lparr>stp_subscribed := True\<rparr>) world0)))"
  using expectation_applies_before_membership [of "tracker0\<lparr>stp_subscribed := True\<rparr>" "utf ''Evil.exe''"
      "[RecvLagged 3, RecvOk (ExtendScopeExpectation (utf ''Evil.exe''))]" to_ascii_lowercase started_evil world0
      "Source (SourceEvent.ProcessStarted started_evil)"]
  by (simp add: started_evil_def to_ascii_lowercase_def ascii_lower_def source_event_def world0_def opened_def
        current_session_def)

end
