(* ===== verification/Event_Reporter.thy ===== *)
theory Event_Reporter
  imports Agent_World Config
begin

text \<open>
  The event reporter and the statistics counters (\<^verbatim>\<open>crates/agent/src/plugins/event_reporter.rs\<close>,
  \<^verbatim>\<open>statistics.rs\<close>): which inbound and derived events reach the wire, and what is counted.
\<close>

subsection \<open>Reporter\<close>

definition reporter_pre :: "EventVerbosity \<Rightarrow> SandboxEvent \<Rightarrow> World \<Rightarrow> World" where
  "reporter_pre verbosity ev w =
     (if verbosity \<noteq> Full then w
      else case (case ev of Source source \<Rightarrow> Some (source, None)
                 | SourceDated source event_ts \<Rightarrow> Some (source, Some event_ts) | _ \<Rightarrow> None) of
        None \<Rightarrow> w
      | Some (source, event_ts) \<Rightarrow>
          (case identity (w_scope w) of (study_id, session_id) \<Rightarrow>
           case now_ms w of (now, w) \<Rightarrow>
             send Event (\<lambda>q. let envelope = envelope_from_source now q study_id session_id source in
               case event_ts of None \<Rightarrow> envelope | Some t \<Rightarrow> envelope\<lparr>env_ts := t\<rparr>) w))"

definition publish_bus_event :: "AgentBusEvent \<Rightarrow> World \<Rightarrow> World" where
  "publish_bus_event ev w =
     (case identity (w_scope w) of (study_id, session_id) \<Rightarrow>
      case now_ms w of (now, w) \<Rightarrow>
        (case ev of
           AgentBusEvent.DropObserved path pid \<Rightarrow>
             send Event (\<lambda>q. envelope_raw now q study_id session_id EventType.DropObserved
               (Payload.DropObserved \<lparr>dob_path = path, dob_pid = pid\<rparr>)) w
         | AgentBusEvent.DropClosed path \<Rightarrow>
             send Event (\<lambda>q. envelope_raw now q study_id session_id EventType.DropClosed
               (Payload.DropClosed \<lparr>dcl_path = path\<rparr>)) w
         | AgentBusEvent.ScopeDied \<Rightarrow>
             send Event (\<lambda>q. envelope_raw now q study_id session_id EventType.ScopeDied
               (Payload.ScopeDied ScopeDiedData)) w
         | _ \<Rightarrow> w))"

subsection \<open>Statistics\<close>

record SessionStatistics =
  stat_source_events :: u64
  stat_screenshots :: u64
  stat_lifecycle_events :: u64
  stat_drops_observed :: u64
  stat_scope_entered :: u64
  stat_scope_exited :: u64
  stat_ticks :: u32

definition SessionStatistics_default :: SessionStatistics where
  "SessionStatistics_default = \<lparr>stat_source_events = 0, stat_screenshots = 0, stat_lifecycle_events = 0,
     stat_drops_observed = 0, stat_scope_entered = 0, stat_scope_exited = 0, stat_ticks = 0\<rparr>"

definition statistics_pre :: "SandboxEvent \<Rightarrow> SessionStatistics \<Rightarrow> SessionStatistics" where
  "statistics_pre ev st =
     (case ev of
        Source _ \<Rightarrow> st\<lparr>stat_source_events := stat_source_events st + 1\<rparr>
      | SourceDated _ _ \<Rightarrow> st\<lparr>stat_source_events := stat_source_events st + 1\<rparr>
      | SandboxEvent.ScreenshotReceived _ \<Rightarrow> st\<lparr>stat_screenshots := stat_screenshots st + 1\<rparr>
      | StatsTick \<Rightarrow> st\<lparr>stat_ticks := stat_ticks st + 1\<rparr>
      | PersistTick \<Rightarrow> st\<lparr>stat_lifecycle_events := stat_lifecycle_events st + 1\<rparr>
      | SessionDeadline \<Rightarrow> st\<lparr>stat_lifecycle_events := stat_lifecycle_events st + 1\<rparr>
      | ServiceStop \<Rightarrow> st\<lparr>stat_lifecycle_events := stat_lifecycle_events st + 1\<rparr>)"

definition statistics_consume :: "AgentBusEvent \<Rightarrow> SessionStatistics \<Rightarrow> SessionStatistics" where
  "statistics_consume ev st =
     (case ev of
        AgentBusEvent.DropObserved _ _ \<Rightarrow> st\<lparr>stat_drops_observed := stat_drops_observed st + 1\<rparr>
      | ProcessEnteredScope _ _ \<Rightarrow> st\<lparr>stat_scope_entered := stat_scope_entered st + 1\<rparr>
      | ProcessExitedScope _ _ \<Rightarrow> st\<lparr>stat_scope_exited := stat_scope_exited st + 1\<rparr>
      | _ \<Rightarrow> st)"

subsection \<open>What reaches the wire\<close>

lemma gapless_reporter_pre: "gapless w (reporter_pre verbosity ev w)"
proof -
  obtain now w1 where n: "now_ms w = (now, w1)" by fastforce
  obtain s i where i: "identity (w_scope w) = (s, i)" by fastforce
  have "gapless w (send Event mk w1)" if "\<And>q. well_typed (mk q) \<and> env_seq (mk q) = q" for mk
    by (rule gapless_trans [OF gapless_now [OF n] gapless_send [OF that]])
  then show ?thesis by (auto simp: reporter_pre_def n i split: SandboxEvent.splits)
qed

lemma gapless_publish_bus_event: "gapless w (publish_bus_event ev w)"
proof -
  obtain now w1 where n: "now_ms w = (now, w1)" by fastforce
  show ?thesis
    by (cases ev) (auto simp: publish_bus_event_def n gapless_now [OF n]
        intro!: gapless_trans [OF gapless_now [OF n] gapless_send] split: prod.splits)
qed

interpretation reporter: publisher "reporter_pre verbosity" for verbosity
  by unfold_locales (rule gapless_reporter_pre)

interpretation bus_reporter: publisher publish_bus_event
  by unfold_locales (rule gapless_publish_bus_event)

text \<open>
  Source telemetry on the wire. Under full verbosity every source event is published exactly
  once, as the payload of its own type with its data unchanged and the current study and session
  ids, dated by its own time when the source stamped it and by the clock otherwise; under any other
  verbosity no source event is published. Nothing but source events is published here.
\<close>

theorem reporter_forwards_source_events:
  "published (w_log (reporter_pre verbosity ev w)) = published (w_log w)
   @ (case source_event ev of
        None \<Rightarrow> []
      | Some source \<Rightarrow> if verbosity = Full
          then [\<lparr>env_v = PROTOCOL_VERSION, env_event_type = source_event_type source,
                 env_ts = (case ev of SourceDated _ t \<Rightarrow> t | _ \<Rightarrow> w_clock w (w_reads w)),
                 env_study = sst_study_id (w_scope w), env_session = snd (identity (w_scope w)),
                 env_seq = w_seq w, env_data = into_payload source\<rparr>]
          else [])"
  by (cases ev) (simp_all add: reporter_pre_def source_event_def now_ms_def identity_def effect_simps
        envelope_from_source_def)

end
