(* ===== verification/Drops_Collector.thy ===== *)
theory Drops_Collector
  imports Agent_World Config
begin

text \<open>
  The drop collector (\<^verbatim>\<open>crates/agent/src/plugins/drops_collector.rs\<close>): copying a closed drop out of the
  file system with a size cap, de-duplication by content hash, the copy name, and the report and
  upload. One job runs at a time. What the file system answers during a job (sizes, the chunks a
  read yields, which calls fail) and whether the upload succeeds is the record \<open>DropIo\<close>; the hash
  function is the parameter \<open>sha256\<close>.
\<close>

definition COPY_CHUNK_BYTES :: nat where "COPY_CHUNK_BYTES = 64 * 1024"

record CollectorInner =
  dci_seen_hashes :: "rstr set"
  dci_collected :: u32
  dci_name_seq :: u64

definition CollectorInner_new :: CollectorInner where
  "CollectorInner_new = \<lparr>dci_seen_hashes = {}, dci_collected = 0, dci_name_seq = 0\<rparr>"

record DropIo =
  dio_size :: "u64 option"          \<comment> \<open>\<open>metadata(source)\<close>\<close>
  dio_create_dir :: bool
  dio_open :: bool
  dio_create_new :: bool
  dio_chunks :: "u8 list list"      \<comment> \<open>what successive reads return before end of file\<close>
  dio_io :: bool                    \<comment> \<open>no read, write, flush or sync failed\<close>
  dio_rename :: bool
  dio_copy_size :: "u64 option"     \<comment> \<open>\<open>metadata(copy)\<close>\<close>
  dio_upload :: bool

text \<open>The copy loop: the bytes written, or \<open>None\<close> once the cap is exceeded.\<close>

fun copy_loop :: "u64 \<Rightarrow> u64 \<Rightarrow> u8 list \<Rightarrow> u8 list list \<Rightarrow> u8 list option" where
  "copy_loop max_bytes tot copied [] = Some copied"
| "copy_loop max_bytes tot copied (chunk # rest) =
     (if chunk = [] then Some copied
      else let tot = tot + of_nat (length chunk) in
        if tot > max_bytes then None else copy_loop max_bytes tot (copied @ chunk) rest)"

text \<open>\<open>copy_capped\<close> returns the copied bytes (the source keeps only their digest).\<close>

definition copy_capped :: "DropIo \<Rightarrow> rstr \<Rightarrow> u64 \<Rightarrow> World \<Rightarrow> u8 list option \<times> World" where
  "copy_capped io destination max_bytes w =
     (if \<not> dio_open io then (None, w)
      else if \<not> dio_create_new io then (None, w)
      else let w = perform (CreateNew destination) w in
        if \<not> dio_io io then (None, w)
        else case copy_loop max_bytes 0 [] (dio_chunks io) of
          None \<Rightarrow> (None, w)
        | Some copied \<Rightarrow> (Some copied, perform (WriteFile destination copied) w))"

definition persist_copy :: "(u8 list \<Rightarrow> u8 list) \<Rightarrow> DropsConfig \<Rightarrow> DropIo \<Rightarrow> rstr \<Rightarrow> u32
    \<Rightarrow> CollectorInner \<Rightarrow> World \<Rightarrow> (rstr \<times> u64) option \<times> CollectorInner \<times> World" where
  "persist_copy sha256 config io source session_id inner w =
     (let seq = dci_name_seq inner;
          inner = inner\<lparr>dci_name_seq := dci_name_seq inner + 1\<rparr>;
          w = perform (CreateDirAll (drp_path config)) w in
      if \<not> dio_create_dir io then (None, inner, w)
      else
        let part_path = path_join (drp_path config)
              (show_nat (unat session_id) @ utf ''-'' @ show_nat (unat seq) @ utf ''.part'') in
        case copy_capped io part_path (drp_max_size config) w of (copied, w) \<Rightarrow>
        (case copied of
           None \<Rightarrow> (None, inner, perform (RemoveFile part_path) w)
         | Some bytes \<Rightarrow>
             let h8 = hash8 (sha256 bytes) in
             if h8 \<in> dci_seen_hashes inner then (None, inner, perform (RemoveFile part_path) w)
             else
               let extension = (case extension_of source of None \<Rightarrow> [] | Some e \<Rightarrow> e);
                   copy_name = copy_file_name session_id seq h8 (sanitize_extension extension);
                   copy_path = path_join (drp_path config) copy_name in
               if \<not> dio_rename io then (None, inner, perform (RemoveFile part_path) w)
               else (Some (copy_name, case dio_copy_size io of None \<Rightarrow> 0 | Some n \<Rightarrow> n),
                     inner\<lparr>dci_seen_hashes := insert h8 (dci_seen_hashes inner)\<rparr>,
                     perform (RenameFile part_path copy_path) w)))"

definition report_and_upload :: "DropsConfig \<Rightarrow> DropIo \<Rightarrow> rstr \<Rightarrow> rstr \<Rightarrow> u64 \<Rightarrow> Uuid \<Rightarrow> u32 \<Rightarrow> World \<Rightarrow> World" where
  "report_and_upload config io source copy_name copied_bytes study_id session_id w =
     (case now_ms w of (now, w) \<Rightarrow>
      let w = send Event (\<lambda>q. envelope_raw now q study_id session_id EventType.DropCopied
            (Payload.DropCopied \<lparr>dcp_source = source, dcp_copy = copy_name, dcp_size_bytes = copied_bytes\<rparr>)) w in
      case drp_upload_uri config of
        None \<Rightarrow> w
      | Some endpoint \<Rightarrow>
          let w = perform (Upload endpoint copy_name study_id session_id
                (path_join (drp_path config) copy_name) (drp_max_size config)) w in
          if dio_upload io then
            (case now_ms w of (now, w) \<Rightarrow>
              send Event (\<lambda>q. envelope_raw now q study_id session_id EventType.DropUploaded
                (Payload.DropUploaded \<lparr>du_copy = copy_name, du_size_bytes = copied_bytes\<rparr>)) w)
          else w)"

definition collect_drop :: "(u8 list \<Rightarrow> u8 list) \<Rightarrow> DropsConfig \<Rightarrow> DropIo \<Rightarrow> rstr
    \<Rightarrow> CollectorInner \<Rightarrow> World \<Rightarrow> CollectorInner \<times> World" where
  "collect_drop sha256 config io source inner w =
     (if drp_limit_per_session config \<le> dci_collected inner then (inner, w)
      else case identity (w_scope w) of (study_id, session_id) \<Rightarrow>
        case dio_size io of
          None \<Rightarrow> (inner, w)
        | Some sz \<Rightarrow>
            if sz > drp_max_size config then (inner, w)
            else case persist_copy sha256 config io source session_id inner w of (kept, inner, w) \<Rightarrow>
              (case kept of
                 None \<Rightarrow> (inner, w)
               | Some (copy_name, copied_bytes) \<Rightarrow>
                   (inner\<lparr>dci_collected := dci_collected inner + 1\<rparr>,
                    report_and_upload config io source copy_name copied_bytes study_id session_id w)))"

subsection \<open>Size cap\<close>

lemma copy_loop_capped:
  assumes "copy_loop max_bytes (of_nat (length copied)) copied chunks = Some out"
    and "\<forall>c \<in> set chunks. length c \<le> COPY_CHUNK_BYTES" "length copied \<le> unat max_bytes"
    and "unat max_bytes < 2 ^ 64 - COPY_CHUNK_BYTES"
  shows "length out \<le> unat max_bytes"
  using assms
proof (induction chunks arbitrary: copied)
  case (Cons c chunks)
  show ?case
  proof (cases "c = []")
    case False
    have small: "length copied + length c < 2 ^ 64" using Cons.prems(2-4) by (auto simp: COPY_CHUNK_BYTES_def)
    have n: "unat (of_nat (length copied + length c) :: u64) = length copied + length c"
      using small by (simp only: unat_of_nat take_bit_nat_eq_self_iff) simp
    have le: "length copied + length c \<le> unat max_bytes"
      using Cons.prems(1) False n by (auto simp: Let_def word_less_nat_alt not_less split: if_splits)
    have step: "copy_loop max_bytes (of_nat (length (copied @ c))) (copied @ c) chunks = Some out"
      using Cons.prems(1) False by (auto simp: Let_def split: if_splits)
    show ?thesis by (rule Cons.IH [OF step]) (use Cons.prems le in auto)
  qed (use Cons.prems in auto)
qed simp

subsection \<open>One job\<close>

definition copied_names :: "Effect list \<Rightarrow> rstr list" where
  "copied_names log = List.map_filter (\<lambda>env. case env_data env of
     Payload.DropCopied d \<Rightarrow> Some (dcp_copy d) | _ \<Rightarrow> None) (published log)"

lemma copied_names_append [simp]: "copied_names (xs @ ys) = copied_names xs @ copied_names ys"
  by (simp add: copied_names_def map_filter_def)

lemma copied_names_quiet [simp]: "published xs = [] \<Longrightarrow> copied_names xs = []"
  by (simp add: copied_names_def map_filter_simps)

text \<open>A job either keeps nothing, publishes nothing and burns neither budget nor hash, or keeps one
  new content under a fresh name.\<close>

definition kept_nothing :: "CollectorInner \<times> World \<Rightarrow> CollectorInner \<times> World \<Rightarrow> bool" where
  "kept_nothing s s' \<longleftrightarrow> (\<exists>added. w_log (snd s') = w_log (snd s) @ added \<and> published added = [])
     \<and> dci_seen_hashes (fst s') = dci_seen_hashes (fst s) \<and> dci_collected (fst s') = dci_collected (fst s)
     \<and> dci_name_seq (fst s') \<in> {dci_name_seq (fst s), dci_name_seq (fst s) + 1}"

definition kept_one :: "(u8 list \<Rightarrow> u8 list) \<Rightarrow> DropsConfig \<Rightarrow> DropIo \<Rightarrow> CollectorInner \<times> World
    \<Rightarrow> CollectorInner \<times> World \<Rightarrow> bool" where
  "kept_one sha256 config io s s' \<longleftrightarrow> (\<exists>bytes name ext added.
       copy_loop (drp_max_size config) 0 [] (dio_chunks io) = Some bytes
     \<and> name = copy_file_name (snd (identity (w_scope (snd s)))) (dci_name_seq (fst s)) (hash8 (sha256 bytes)) (sanitize_extension ext)
     \<and> hash8 (sha256 bytes) \<notin> dci_seen_hashes (fst s)
     \<and> dci_seen_hashes (fst s') = insert (hash8 (sha256 bytes)) (dci_seen_hashes (fst s))
     \<and> dci_collected (fst s) < drp_limit_per_session config
     \<and> dci_collected (fst s') = dci_collected (fst s) + 1
     \<and> dci_name_seq (fst s') = dci_name_seq (fst s) + 1
     \<and> w_log (snd s') = w_log (snd s) @ added \<and> copied_names added = [name])"

lemma report_log:
  "\<exists>added. w_log (report_and_upload config io source name n study session w) = w_log w @ added
     \<and> copied_names added = [name]"
  by (auto simp: report_and_upload_def now_ms_def Let_def effect_simps copied_names_def envelope_raw_def
        map_filter_simps split: option.splits)

lemma report_scope: "w_scope (report_and_upload config io source name n study session w) = w_scope w"
  by (auto simp: report_and_upload_def now_ms_def Let_def effect_simps split: option.splits)

lemma copy_capped_log:
  "copy_capped io dst m w = (r, w') \<Longrightarrow> \<exists>added. w_log w' = w_log w @ added \<and> published added = []"
  by (auto simp: copy_capped_def Let_def effect_simps split: if_splits option.splits)

lemma copy_capped_Some: "copy_capped io dst m w = (Some bytes, w') \<Longrightarrow> copy_loop m 0 [] (dio_chunks io) = Some bytes"
  by (auto simp: copy_capped_def Let_def split: if_splits option.splits)

lemma persist_copy_cases:
  assumes "persist_copy sha256 config io source session inner w = (r, inner', w')"
  obtains (none) "r = None" "dci_seen_hashes inner' = dci_seen_hashes inner" "dci_collected inner' = dci_collected inner"
      "dci_name_seq inner' = dci_name_seq inner + 1" "\<exists>added. w_log w' = w_log w @ added \<and> published added = []"
  | (kept) bytes ext n where
      "r = Some (copy_file_name session (dci_name_seq inner) (hash8 (sha256 bytes)) (sanitize_extension ext), n)"
      "copy_loop (drp_max_size config) 0 [] (dio_chunks io) = Some bytes" "hash8 (sha256 bytes) \<notin> dci_seen_hashes inner"
      "dci_seen_hashes inner' = insert (hash8 (sha256 bytes)) (dci_seen_hashes inner)"
      "dci_collected inner' = dci_collected inner" "dci_name_seq inner' = dci_name_seq inner + 1"
      "\<exists>added. w_log w' = w_log w @ added \<and> published added = []"
proof (cases "dio_create_dir io")
  case False
  with assms none show ?thesis by (auto simp: persist_copy_def Let_def effect_simps)
next
  case True
  let ?part = "path_join (drp_path config) (show_nat (unat session) @ utf ''-'' @ show_nat (unat (dci_name_seq inner)) @ utf ''.part'')"
  obtain c w1 where cc: "copy_capped io ?part (drp_max_size config) (perform (CreateDirAll (drp_path config)) w) = (c, w1)"
    by fastforce
  from copy_capped_log [OF cc] obtain a where a: "w_log w1 = w_log w @ CreateDirAll (drp_path config) # a" "published a = []"
    by (auto simp: effect_simps)
  show ?thesis
  proof (cases c)
    case None
    with assms True cc a none show ?thesis
      by (auto simp: persist_copy_def Let_def effect_simps simp del: utf_Cons)
  next
    case (Some bytes)
    note loop = copy_capped_Some [OF cc [unfolded Some]]
    show ?thesis
    proof (cases "hash8 (sha256 bytes) \<in> dci_seen_hashes inner \<or> \<not> dio_rename io")
      case True
      with assms \<open>dio_create_dir io\<close> cc a none Some show ?thesis
        by (auto simp: persist_copy_def Let_def effect_simps simp del: utf_Cons split: if_splits)
    next
      case False
      with assms \<open>dio_create_dir io\<close> cc a Some
        kept [of bytes "case extension_of source of None \<Rightarrow> [] | Some e \<Rightarrow> e" "case dio_copy_size io of None \<Rightarrow> 0 | Some n \<Rightarrow> n"]
        loop
      show ?thesis by (auto simp: persist_copy_def Let_def effect_simps simp del: utf_Cons)
    qed
  qed
qed

lemma collect_drop_cases:
  "kept_nothing (inner, w) (collect_drop sha256 config io source inner w)
   \<or> kept_one sha256 config io (inner, w) (collect_drop sha256 config io source inner w)"
proof (cases "drp_limit_per_session config \<le> dci_collected inner \<or> dio_size io = None
    \<or> (\<exists>sz. dio_size io = Some sz \<and> sz > drp_max_size config)")
  case True
  then show ?thesis
    by (auto simp: collect_drop_def kept_nothing_def split: prod.splits)
next
  case False
  obtain study session where i: "identity (w_scope w) = (study, session)" by fastforce
  obtain r inner' w' where p: "persist_copy sha256 config io source session inner w = (r, inner', w')"
    by (cases "persist_copy sha256 config io source session inner w") auto
  from p show ?thesis
  proof (cases rule: persist_copy_cases)
    case none
    with False i p show ?thesis by (auto simp: collect_drop_def kept_nothing_def)
  next
    case (kept bytes ext n)
    from kept(7) obtain a where a: "w_log w' = w_log w @ a" "published a = []" by blast
    let ?name = "copy_file_name session (dci_name_seq inner) (hash8 (sha256 bytes)) (sanitize_extension ext)"
    from report_log [of config io source ?name n study session w'] obtain b
      where b: "w_log (report_and_upload config io source ?name n study session w') = w_log w' @ b"
        "copied_names b = [?name]" by blast
    have "collect_drop sha256 config io source inner w
        = (inner'\<lparr>dci_collected := dci_collected inner' + 1\<rparr>, report_and_upload config io source ?name n study session w')"
      using False i p kept(1) by (auto simp: collect_drop_def)
    moreover have "kept_one sha256 config io (inner, w)
        (inner'\<lparr>dci_collected := dci_collected inner' + 1\<rparr>, report_and_upload config io source ?name n study session w')"
      unfolding kept_one_def
      using kept a b i False
      by (intro exI [of _ bytes] exI [of _ ?name] exI [of _ ext] exI [of _ "a @ b"]) (auto simp: not_le)
    ultimately show ?thesis by simp
  qed
qed

subsection \<open>All jobs of a boot\<close>

definition collector_step :: "(u8 list \<Rightarrow> u8 list) \<Rightarrow> DropsConfig \<Rightarrow> DropIo \<times> rstr
    \<Rightarrow> CollectorInner \<times> World \<Rightarrow> CollectorInner \<times> World" where
  "collector_step sha256 config job s = collect_drop sha256 config (fst job) (snd job) (fst s) (snd s)"

text \<open>The bookkeeping after \<open>k\<close> jobs.\<close>

definition collector_inv :: "DropsConfig \<Rightarrow> nat \<Rightarrow> CollectorInner \<times> World \<Rightarrow> bool" where
  "collector_inv config k s \<longleftrightarrow>
     dci_collected (fst s) \<le> drp_limit_per_session config
   \<and> length (copied_names (w_log (snd s))) = unat (dci_collected (fst s))
   \<and> finite (dci_seen_hashes (fst s)) \<and> card (dci_seen_hashes (fst s)) = unat (dci_collected (fst s))
   \<and> unat (dci_name_seq (fst s)) \<le> k
   \<and> distinct (copied_names (w_log (snd s)))
   \<and> (\<forall>n \<in> set (copied_names (w_log (snd s))). \<exists>i q h e. n = copy_file_name i q h e \<and> q < dci_name_seq (fst s))"

lemma unat_Suc_less: "(a :: 'a::len word) < b \<Longrightarrow> unat (a + 1) = Suc (unat a)"
proof -
  assume "a < b"
  then have "unat a < unat b" by (simp add: word_less_nat_alt)
  moreover have "unat b < 2 ^ LENGTH('a)" by simp
  ultimately have "Suc (unat a) < 2 ^ LENGTH('a)" by linarith
  then show ?thesis by (simp add: unat_word_ariths)
qed

lemma collector_step_inv:
  assumes "collector_inv config k s" "k < 2 ^ 64 - 1"
  shows "collector_inv config (Suc k) (collector_step sha256 config job s)"
proof -
  obtain inner w where s: "s = (inner, w)" by fastforce
  have seq: "unat (dci_name_seq inner + 1) = Suc (unat (dci_name_seq inner))"
    using assms s by (auto simp: collector_inv_def unat_word_ariths)
  then have lt: "q < dci_name_seq inner + 1" if "q < dci_name_seq inner" for q
    using that by (simp add: word_less_nat_alt)
  consider "kept_nothing s (collector_step sha256 config job s)" | "kept_one sha256 config (fst job) s (collector_step sha256 config job s)"
    using collect_drop_cases [of inner w sha256 config "fst job" "snd job"] s by (auto simp: collector_step_def)
  then show ?thesis
  proof cases
    case 1
    then show ?thesis using assms(1) s seq lt by (fastforce simp: kept_nothing_def collector_inv_def)
  next
    case 2
    let ?s' = "collector_step sha256 config job s"
    from 2 s obtain bytes name ext added where k: "name = copy_file_name (snd (identity (w_scope w))) (dci_name_seq inner) (hash8 (sha256 bytes)) (sanitize_extension ext)"
      "hash8 (sha256 bytes) \<notin> dci_seen_hashes inner"
      "dci_seen_hashes (fst ?s') = insert (hash8 (sha256 bytes)) (dci_seen_hashes inner)"
      "dci_collected inner < drp_limit_per_session config" "dci_collected (fst ?s') = dci_collected inner + 1"
      "dci_name_seq (fst ?s') = dci_name_seq inner + 1" "w_log (snd ?s') = w_log w @ added" "copied_names added = [name]"
      by (auto simp: kept_one_def)
    have suc: "unat (dci_collected inner + 1) = Suc (unat (dci_collected inner))"
      using k(4) by (rule unat_Suc_less)
    then have "dci_collected inner + 1 \<le> drp_limit_per_session config"
      using k(4) by (simp add: word_le_nat_alt word_less_nat_alt)
    moreover have "name \<notin> set (copied_names (w_log w))"
    proof
      assume "name \<in> set (copied_names (w_log w))"
      then obtain i q h e where "name = copy_file_name i q h e" "q < dci_name_seq inner"
        using assms(1) s by (auto simp: collector_inv_def)
      with k(1) show False by (auto dest: copy_file_name_eqD)
    qed
    moreover have "dci_name_seq inner < dci_name_seq inner + 1" using seq by (simp add: word_less_nat_alt)
    ultimately show ?thesis
      using assms(1) s k seq suc lt by (fastforce simp: collector_inv_def)
  qed
qed

lemma collector_run_inv:
  assumes "length jobs < 2 ^ 64 - 1" "collector_inv config 0 s"
  shows "collector_inv config (length jobs) (fold (collector_step sha256 config) jobs s)"
  using assms
proof (induction jobs rule: rev_induct)
  case (snoc job jobs)
  then show ?case using collector_step_inv [of config "length jobs"] by simp
qed simp

text \<open>
  C20. The collection budget and de-duplication. Over all jobs of a boot, whatever the malware does to
  its files and whichever calls fail, at most \<open>limit_per_session\<close> drops are collected, the counter
  is exactly the number of \<open>drop.copied\<close> reports (failed, vanished, oversized and duplicate drops
  spend nothing), as many different content hashes were kept, and all copies have different names.
\<close>

theorem collector_budget:
  assumes "length jobs < 2 ^ 64 - 1" "w_log w = []"
    and "fold (collector_step sha256 config) jobs (CollectorInner_new, w) = (inner', w')"
  shows "dci_collected inner' \<le> drp_limit_per_session config
       \<and> length (copied_names (w_log w')) = unat (dci_collected inner')
       \<and> card (dci_seen_hashes inner') = unat (dci_collected inner')
       \<and> distinct (copied_names (w_log w'))"
proof -
  have "collector_inv config 0 (CollectorInner_new, w)"
    using assms(2) by (simp add: collector_inv_def CollectorInner_new_def)
  from collector_run_inv [OF assms(1) this, of sha256] assms(3) show ?thesis by (simp add: collector_inv_def)
qed

definition good_io :: "u8 list \<Rightarrow> DropIo" where
  "good_io bytes = \<lparr>dio_size = Some 3, dio_create_dir = True, dio_open = True, dio_create_new = True,
     dio_chunks = [bytes], dio_io = True, dio_rename = True, dio_copy_size = Some 3, dio_upload = True\<rparr>"

definition twin_jobs :: "(DropIo \<times> rstr) list" where
  "twin_jobs = [(good_io [1, 2, 3], utf ''a.js''), (good_io [1, 2, 3], utf ''b.js'')]"

theorem collector_budget_witness:
  "length (copied_names (w_log (snd (fold (collector_step (\<lambda>_. replicate 32 0) DropsConfig_default) twin_jobs
     (CollectorInner_new, world0))))) = 1"
proof -
  let ?r = "fold (collector_step (\<lambda>_. replicate 32 0) DropsConfig_default) twin_jobs (CollectorInner_new, world0)"
  have pre: "length twin_jobs < 2 ^ 64 - 1" "w_log world0 = []" by (simp_all add: world0_def twin_jobs_def)
  have "dci_collected (fst ?r) = 1" by code_simp
  then show ?thesis using collector_budget [OF pre, of "\<lambda>_. replicate 32 0" DropsConfig_default "fst ?r" "snd ?r"] by simp
qed

text \<open>
  A drop that grows while it is copied cannot exceed the cap, and no partial file is left
  behind: whatever a job writes has at most \<open>max_size\<close> bytes (reads return at most a chunk, and the
  cap is not within a chunk of the 64-bit range), and every part file it created it also removed or
  renamed.
\<close>

theorem collected_copy_capped_and_clean:
  assumes "w_log w = []" "\<forall>c \<in> set (dio_chunks io). length c \<le> COPY_CHUNK_BYTES"
    and "unat (drp_max_size config) < 2 ^ 64 - COPY_CHUNK_BYTES"
    and "collect_drop sha256 config io source inner w = (inner', w')"
  shows "(\<forall>dst bytes. WriteFile dst bytes \<in> set (w_log w') \<longrightarrow> length bytes \<le> unat (drp_max_size config))
     \<and> (\<forall>part. CreateNew part \<in> set (w_log w') \<longrightarrow>
           RemoveFile part \<in> set (w_log w') \<or> (\<exists>q. RenameFile part q \<in> set (w_log w')))"
proof (intro conjI)
  have rep: "e \<in> set (w_log (report_and_upload config io src name n study session v)) \<longleftrightarrow> e \<in> set (w_log v)"
    if "e \<in> {WriteFile d b, CreateNew d, RemoveFile d, RenameFile d q}" for e d b q src name n study session v
    using that by (auto simp: report_and_upload_def now_ms_def Let_def effect_simps split: option.splits)
  have loop: "copy_loop (drp_max_size config) 0 [] (dio_chunks io) = Some bytes \<Longrightarrow> length bytes \<le> unat (drp_max_size config)" for bytes
    using copy_loop_capped [of "drp_max_size config" "[]" "dio_chunks io" bytes] assms(2,3) by simp
  show "\<forall>dst bytes. WriteFile dst bytes \<in> set (w_log w') \<longrightarrow> length bytes \<le> unat (drp_max_size config)"
    using assms(1,4) loop
    by (auto simp: collect_drop_def persist_copy_def copy_capped_def Let_def effect_simps rep
          split: if_splits option.splits prod.splits simp del: utf_Cons)
  show "\<forall>part. CreateNew part \<in> set (w_log w') \<longrightarrow>
           RemoveFile part \<in> set (w_log w') \<or> (\<exists>q. RenameFile part q \<in> set (w_log w'))"
    using assms(1,4)
    by (auto simp: collect_drop_def persist_copy_def copy_capped_def Let_def effect_simps rep
          split: if_splits option.splits prod.splits simp del: utf_Cons)
qed

definition sample_collection :: "CollectorInner \<times> World" where
  "sample_collection = collect_drop (\<lambda>_. replicate 32 0) DropsConfig_default (good_io [1, 2, 3]) (utf ''a.js'')
     CollectorInner_new world0"

lemma case_CreateNew: "(case e of CreateNew part \<Rightarrow> P part | _ \<Rightarrow> False) \<longleftrightarrow> (\<exists>part. e = CreateNew part \<and> P part)"
  by (cases e) auto

lemma case_WriteFile: "(case e of WriteFile dst bytes \<Rightarrow> P dst bytes | _ \<Rightarrow> False) \<longleftrightarrow> (\<exists>dst bytes. e = WriteFile dst bytes \<and> P dst bytes)"
  by (cases e) auto

theorem collected_copy_capped_and_clean_witness:
  "\<exists>part bytes. CreateNew part \<in> set (w_log (snd sample_collection)) \<and> WriteFile part bytes \<in> set (w_log (snd sample_collection))
     \<and> length bytes \<le> 10 * 1024 * 1024
     \<and> (RemoveFile part \<in> set (w_log (snd sample_collection)) \<or> (\<exists>q. RenameFile part q \<in> set (w_log (snd sample_collection))))"
proof -
  have pre: "w_log world0 = []" "\<forall>c \<in> set (dio_chunks (good_io [1, 2, 3])). length c \<le> COPY_CHUNK_BYTES"
    "unat (drp_max_size DropsConfig_default) < 2 ^ 64 - COPY_CHUNK_BYTES"
    by (simp_all add: world0_def good_io_def COPY_CHUNK_BYTES_def DropsConfig_default_def)
  have run: "collect_drop (\<lambda>_. replicate 32 0) DropsConfig_default (good_io [1, 2, 3]) (utf ''a.js'')
     CollectorInner_new world0 = (fst sample_collection, snd sample_collection)"
    by (simp add: sample_collection_def)
  have "list_ex (\<lambda>e. case e of CreateNew part \<Rightarrow>
      list_ex (\<lambda>e. case e of WriteFile dst _ \<Rightarrow> dst = part | _ \<Rightarrow> False) (w_log (snd sample_collection)) | _ \<Rightarrow> False)
    (w_log (snd sample_collection))"
    by code_simp
  then obtain part bytes where "CreateNew part \<in> set (w_log (snd sample_collection))"
    "WriteFile part bytes \<in> set (w_log (snd sample_collection))"
    unfolding list_ex_iff case_CreateNew case_WriteFile by blast
  moreover have "unat (drp_max_size DropsConfig_default) = 10 * 1024 * 1024" by (simp add: DropsConfig_default_def)
  ultimately show ?thesis using collected_copy_capped_and_clean [OF pre run] by metis
qed

subsection \<open>Numbering\<close>

lemma gapless_report: "gapless w (report_and_upload config io source name n study session w)"
proof -
  obtain now w1 where n: "now_ms w = (now, w1)" by fastforce
  have g: "gapless w (send Event mk w1)" if "\<And>q. well_typed (mk q) \<and> env_seq (mk q) = q" for mk
    by (rule gapless_trans [OF gapless_now [OF n] gapless_send [OF that]])
  have up: "gapless v (case now_ms (perform (Upload a b c d e f) v) of (now, v) \<Rightarrow> send Event (mk now) v)"
    if "\<And>now q. well_typed (mk now q) \<and> env_seq (mk now q) = q" for a b c d e f v mk
    by (auto split: prod.splits intro!: gapless_trans [OF gapless_perform gapless_trans [OF gapless_now gapless_send [OF that]]])
  show ?thesis
    by (auto simp: report_and_upload_def n Let_def intro!: g gapless_trans [OF g] up gapless_perform split: option.splits)
qed

lemma gapless_collect_drop: "gapless w (snd (collect_drop sha256 config io source inner w))"
proof -
  obtain study session where i: "identity (w_scope w) = (study, session)" by fastforce
  obtain r inner' w' where p: "persist_copy sha256 config io source session inner w = (r, inner', w')"
    by (cases "persist_copy sha256 config io source session inner w") auto
  have "\<exists>added. w_log w' = w_log w @ added \<and> published added = []"
    using p by (cases rule: persist_copy_cases) auto
  moreover have "w_seq w' = w_seq w"
    using p by (auto simp: persist_copy_def copy_capped_def Let_def effect_simps simp del: utf_Cons
        split: if_splits option.splits prod.splits)
  ultimately have "gapless w w'" by (auto intro: gapless_quiet)
  then show ?thesis
    by (auto simp: collect_drop_def i p intro: gapless_trans [OF _ gapless_report] split: option.splits)
qed

interpretation collector: publisher "\<lambda>i w. snd (collect_drop sha256 config (fst i) (fst (snd i)) (snd (snd i)) w)" for sha256 config
  by unfold_locales (rule gapless_collect_drop)

end
