(* ===== verification/Screenshot_Intake.thy ===== *)
theory Screenshot_Intake
  imports Agent_World Config
begin

text \<open>
  The job-queue handle (\<^verbatim>\<open>crates/agent/src/app/worker.rs\<close>) and the screenshot intake
  (\<^verbatim>\<open>plugins/screenshot_intake.rs\<close>). The bounded channel is a library: what \<open>try_send\<close> answers is an
  input. So is what the file system and the uploader answer to a job.
\<close>

subsection \<open>Submitting to a job queue\<close>

datatype TrySend = SendOk | SendFull | SendClosed

text \<open>The result and the \<open>dropped\<close> counter.\<close>

definition submit :: "TrySend \<Rightarrow> u64 \<Rightarrow> bool \<times> u64" where
  "submit outcome dropped =
     (case outcome of SendOk \<Rightarrow> (True, dropped) | SendFull \<Rightarrow> (False, dropped + 1) | SendClosed \<Rightarrow> (False, dropped))"

subsection \<open>Intake\<close>

record FrameJob =
  fj_study_id :: Uuid
  fj_session_id :: u32
  fj_frame :: ScreenshotFrame

record ScreenshotIntake =
  sii_accepted :: u32
  sii_started :: bool
  sii_dropped :: u64
  sii_queued :: "FrameJob list"

definition ScreenshotIntake_new :: ScreenshotIntake where
  "ScreenshotIntake_new = \<lparr>sii_accepted = 0, sii_started = False, sii_dropped = 0, sii_queued = []\<rparr>"

definition default_frame :: ScreenshotFrame where
  "default_frame = \<lparr>sfr_seq = 0, sfr_jpeg = []\<rparr>"

text \<open>The hook takes the frame out of the event, so it returns the event too.\<close>

definition sip_pre :: "bool \<Rightarrow> ScreenshotsConfig \<Rightarrow> TrySend \<Rightarrow> SandboxEvent \<Rightarrow> ScreenshotIntake \<Rightarrow> World
    \<Rightarrow> SandboxEvent \<times> ScreenshotIntake \<times> World" where
  "sip_pre capture_enabled config outcome ev p w =
     (case ev of
        SandboxEvent.ScreenshotReceived frame \<Rightarrow>
          (if \<not> capture_enabled then (ev, p, w)
           else let accepted = sii_accepted p + 1; p = p\<lparr>sii_accepted := accepted\<rparr> in
             if accepted > scs_max_per_session config then (ev, p, w)
             else case identity (w_scope w) of (study_id, session_id) \<Rightarrow>
               case now_ms w of (now, w) \<Rightarrow>
               let w = send Event (\<lambda>q. envelope_raw now q study_id session_id EventType.ScreenshotReceived
                     (Payload.ScreenshotReceived \<lparr>scr_seq = sfr_seq frame,
                        scr_size_bytes = (if length (sfr_jpeg frame) < 2 ^ 64 then of_nat (length (sfr_jpeg frame)) else - 1)\<rparr>)) w;
                   ev = SandboxEvent.ScreenshotReceived default_frame in
               if \<not> sii_started p then (ev, p, w)
               else case submit outcome (sii_dropped p) of (ok, dropped) \<Rightarrow>
                 (ev, p\<lparr>sii_dropped := dropped, sii_queued := sii_queued p
                    @ (if ok then [\<lparr>fj_study_id = study_id, fj_session_id = session_id, fj_frame = frame\<rparr>] else [])\<rparr>, w))
      | _ \<Rightarrow> (ev, p, w))"

record FrameIo =
  fio_create_dir :: bool
  fio_write :: bool
  fio_create_new :: bool
  fio_write_all :: bool
  fio_upload :: bool
  fio_temp_path :: rstr   \<comment> \<open>the random staging path in the temporary directory\<close>

definition wire_name :: "u32 \<Rightarrow> u32 \<Rightarrow> rstr" where
  "wire_name session_id seq =
     utf ''screenshot-'' @ show_nat (unat session_id) @ utf ''-'' @ show_nat (unat seq) @ utf ''.jpeg''"

text \<open>Where the bytes live for the upload; \<open>None\<close> ends the job.\<close>

definition stage_frame :: "ScreenshotsConfig \<Rightarrow> FrameIo \<Rightarrow> FrameJob \<Rightarrow> World \<Rightarrow> rstr option \<times> World" where
  "stage_frame config io job w =
     (let jpeg = sfr_jpeg (fj_frame job) in
      if scs_save config then
        (let path = path_join (scs_path config) (wire_name (fj_session_id job) (sfr_seq (fj_frame job)));
             w = perform (CreateDirAll (scs_path config)) w in
         if \<not> fio_create_dir io then (None, w)
         else if \<not> fio_write io then (None, w)
         else (Some path, perform (WriteFile path jpeg) w))
      else if scs_upload_uri config \<noteq> None then
        (let path = fio_temp_path io in
         if \<not> fio_create_new io then (None, w)
         else let w = perform (CreateNew path) w in
           if \<not> fio_write_all io then (None, w)
           else (Some path, perform (WriteFile path jpeg) w))
      else (None, w))"

definition process_frame :: "ScreenshotsConfig \<Rightarrow> FrameIo \<Rightarrow> FrameJob \<Rightarrow> World \<Rightarrow> World" where
  "process_frame config io job w =
     (case stage_frame config io job w of (local_path, w) \<Rightarrow>
        (case local_path of
           None \<Rightarrow> w
         | Some path \<Rightarrow>
             let w = (case scs_upload_uri config of
                   None \<Rightarrow> w
                 | Some endpoint \<Rightarrow>
                     let jpeg = sfr_jpeg (fj_frame job);
                         w = perform (Upload endpoint (wire_name (fj_session_id job) (sfr_seq (fj_frame job)))
                               (fj_study_id job) (fj_session_id job) path
                               (if length jpeg < 2 ^ 64 then of_nat (length jpeg) else - 1)) w in
                     if fio_upload io then
                       (case now_ms w of (now, w) \<Rightarrow>
                          send Event (\<lambda>q. envelope_raw now q (fj_study_id job) (fj_session_id job)
                            EventType.ScreenshotUploaded (Payload.ScreenshotUploaded \<lparr>su_seq = sfr_seq (fj_frame job)\<rparr>)) w)
                     else w) in
             if \<not> scs_save config then perform (RemoveFile path) w else w))"

subsection \<open>Quota\<close>

definition is_frame_event :: "SandboxEvent \<Rightarrow> bool" where
  "is_frame_event ev = (case ev of SandboxEvent.ScreenshotReceived _ \<Rightarrow> True | _ \<Rightarrow> False)"

definition sip_step :: "bool \<Rightarrow> ScreenshotsConfig \<Rightarrow> TrySend \<times> SandboxEvent \<Rightarrow> ScreenshotIntake \<times> World
    \<Rightarrow> ScreenshotIntake \<times> World" where
  "sip_step capture_enabled config input s = snd (sip_pre capture_enabled config (fst input) (snd input) (fst s) (snd s))"

lemma sip_step_effect:
  "sii_accepted (fst (sip_step en config input s))
     = (if en \<and> is_frame_event (snd input) then sii_accepted (fst s) + 1 else sii_accepted (fst s))"
  "length (published (w_log (snd (sip_step en config input s))))
     = length (published (w_log (snd s)))
       + (if en \<and> is_frame_event (snd input) \<and> sii_accepted (fst s) + 1 \<le> scs_max_per_session config then 1 else 0)"
  by (cases "snd input";
      auto simp: sip_step_def sip_pre_def is_frame_event_def Let_def now_ms_def effect_simps
        not_le not_less split: prod.splits)+

text \<open>
  The screenshot quota holds on the receiving side. Over a boot in which fewer than \<open>2 ^ 32\<close>
  frames arrive, among any other events and whatever the job queue answers, exactly the first
  \<open>max_per_session\<close> frames are accepted and reported when capture is enabled, and none when it is
  disabled.
\<close>

theorem screenshot_quota:
  assumes "length (filter (\<lambda>i. is_frame_event (snd i)) inputs) < 2 ^ 32" "w_log w = []"
  shows "length (published (w_log (snd (fold (sip_step en config) inputs (ScreenshotIntake_new, w)))))
       = (if en then min (unat (scs_max_per_session config)) (length (filter (\<lambda>i. is_frame_event (snd i)) inputs)) else 0)"
proof -
  let ?n = "\<lambda>is. length (filter (\<lambda>i. is_frame_event (snd i)) is)"
  let ?r = "\<lambda>is. fold (sip_step en config) is (ScreenshotIntake_new, w)"
  have "unat (sii_accepted (fst (?r inputs))) = (if en then ?n inputs else 0)
      \<and> length (published (w_log (snd (?r inputs)))) = (if en then min (unat (scs_max_per_session config)) (?n inputs) else 0)"
    using assms(1)
  proof (induction inputs rule: rev_induct)
    case Nil
    then show ?case using assms(2) by (simp add: ScreenshotIntake_new_def)
  next
    case (snoc i inputs)
    then have ih: "unat (sii_accepted (fst (?r inputs))) = (if en then ?n inputs else 0)"
      "length (published (w_log (snd (?r inputs)))) = (if en then min (unat (scs_max_per_session config)) (?n inputs) else 0)"
      by (simp_all split: if_splits)
    have suc: "unat (sii_accepted (fst (?r inputs)) + 1) = Suc (?n inputs)" if "en" "is_frame_event (snd i)"
      using that snoc.prems ih(1) by (simp add: unat_word_ariths)
    show ?case
      using ih suc by (auto simp: sip_step_effect word_le_nat_alt)
  qed
  then show ?thesis by blast
qed

theorem screenshot_quota_witness:
  "length (published (w_log (snd (fold (sip_step True (ScreenshotsConfig_default\<lparr>scs_max_per_session := 1\<rparr>))
     [(SendOk, SandboxEvent.ScreenshotReceived default_frame), (SendFull, SandboxEvent.ScreenshotReceived default_frame)]
     (ScreenshotIntake_new, \<lparr>w_scope = opened, w_seq = 0, w_clock = (\<lambda>n. of_nat n), w_reads = 0,
        w_answer = (\<lambda>_. True), w_calls = 0, w_log = []\<rparr>))))) = 1"
  using screenshot_quota [of "[(SendOk, SandboxEvent.ScreenshotReceived default_frame),
      (SendFull, SandboxEvent.ScreenshotReceived default_frame)]"
      "\<lparr>w_scope = opened, w_seq = 0, w_clock = (\<lambda>n. of_nat n), w_reads = 0,
        w_answer = (\<lambda>_. True), w_calls = 0, w_log = []\<rparr>" True "ScreenshotsConfig_default\<lparr>scs_max_per_session := 1\<rparr>"]
  by (simp add: is_frame_event_def del: fold_simps)

subsection \<open>Staging\<close>

text \<open>A staged frame whose write fails leaves its file in the temporary directory: the early return
  skips the clean-up.\<close>

lemma failed_staging_leaves_file:
  assumes "\<not> scs_save config" "scs_upload_uri config \<noteq> None" "fio_create_new io" "\<not> fio_write_all io"
  shows "w_log (process_frame config io job w) = w_log w @ [CreateNew (fio_temp_path io)]"
  using assms by (auto simp: process_frame_def stage_frame_def Let_def effect_simps)

subsection \<open>Numbering\<close>

lemma gapless_sip_pre: "gapless w (snd (snd (sip_pre en config outcome ev p w)))"
proof -
  obtain now w1 where n: "now_ms w = (now, w1)" by fastforce
  have "gapless w (send Event mk w1)" if "\<And>q. well_typed (mk q) \<and> env_seq (mk q) = q" for mk
    by (rule gapless_trans [OF gapless_now [OF n] gapless_send [OF that]])
  then show ?thesis by (auto simp: sip_pre_def n Let_def split: SandboxEvent.splits prod.splits)
qed

lemma gapless_process_frame: "gapless w (process_frame config io job w)"
proof -
  obtain path w1 where st: "stage_frame config io job w = (path, w1)" by fastforce
  have g1: "gapless w w1"
    using st by (auto simp: stage_frame_def Let_def split: if_splits
        intro!: gapless_perform gapless_trans [OF gapless_perform gapless_perform])
  have up: "gapless v (case now_ms (perform (Upload a b c d e f) v) of (now, v) \<Rightarrow> send Event (mk now) v)"
    if "\<And>now q. well_typed (mk now q) \<and> env_seq (mk now q) = q" for a b c d e f v mk
    by (auto split: prod.splits intro!: gapless_trans [OF gapless_perform gapless_trans [OF gapless_now gapless_send [OF that]]])
  show ?thesis
    by (auto simp: process_frame_def st Let_def g1 intro!: gapless_trans [OF g1] gapless_perform
          gapless_trans [OF _ gapless_perform] up split: option.splits)
qed

interpretation intake: publisher "\<lambda>i w. snd (snd (sip_pre en config (fst i) (fst (snd i)) (snd (snd i)) w))" for en config
  by unfold_locales (rule gapless_sip_pre)

interpretation frame_worker: publisher "\<lambda>i. process_frame config (fst i) (snd i)" for config
  by unfold_locales (rule gapless_process_frame)

end
