(* ===== verification/Driver_Event_Source.thy ===== *)
theory Driver_Event_Source
  imports App_Event Driver_Wire Path_Text
begin

text \<open>
  The driver event source (\<^verbatim>\<open>crates/agent/src/adapters/driving/driver_event_source.rs\<close>): mapping
  decoded records to source events, the process-name cache, the time conversion, and the loop that
  drains one batch of the device. The device and the clock are inputs: the batch is the byte list
  the driver returned, \<open>now\<close> the clock reading the loop takes for its first record.
\<close>

definition NAME_CACHE_CAP :: nat where "NAME_CACHE_CAP = 4096"

record DrainContext =
  dc_names :: "(u32 \<times> rstr) list"
  dc_offset_captured :: bool
  dc_clock_offset_ms :: i64

definition DrainContext_new :: DrainContext where
  "DrainContext_new = \<lparr>dc_names = [], dc_offset_captured = False, dc_clock_offset_ms = 0\<rparr>"

definition name_for :: "DrainContext \<Rightarrow> u32 \<Rightarrow> rstr" where
  "name_for ctx pid = (case map_of (dc_names ctx) pid of None \<Rightarrow> utf ''<unknown>'' | Some n \<Rightarrow> n)"

text \<open>\<open>HashMap::insert\<close>: replace the entry of the key or add one.\<close>

definition insert_name :: "u32 \<Rightarrow> rstr \<Rightarrow> (u32 \<times> rstr) list \<Rightarrow> (u32 \<times> rstr) list" where
  "insert_name pid name names = (pid, name) # filter (\<lambda>e. fst e \<noteq> pid) names"

definition remember_name :: "u32 \<Rightarrow> rstr option \<Rightarrow> DrainContext \<Rightarrow> DrainContext" where
  "remember_name pid name ctx =
     (let names = (if NAME_CACHE_CAP \<le> length (dc_names ctx) then [] else dc_names ctx) in
      ctx\<lparr>dc_names := insert_name pid (case name of None \<Rightarrow> utf ''<unnamed>'' | Some n \<Rightarrow> n) names\<rparr>)"

definition registry_type_name :: "u32 \<Rightarrow> rstr" where
  "registry_type_name t =
     (if t = 1 then utf ''REG_SZ'' else if t = 2 then utf ''REG_EXPAND_SZ''
      else if t = 3 then utf ''REG_BINARY'' else if t = 4 then utf ''REG_DWORD''
      else if t = 5 then utf ''REG_DWORD_BIG_ENDIAN'' else if t = 6 then utf ''REG_LINK''
      else if t = 7 then utf ''REG_MULTI_SZ'' else if t = 8 then utf ''REG_RESOURCE_LIST''
      else if t = 9 then utf ''REG_FULL_RESOURCE_DESCRIPTOR''
      else if t = 10 then utf ''REG_RESOURCE_REQUIREMENTS_LIST''
      else if t = 11 then utf ''REG_QWORD''
      else utf ''REG_'' @ show_nat (unat t))"

definition EPOCH_DIFF_100NS :: nat where "EPOCH_DIFF_100NS = 11644473600000000000"
definition TICKS_PER_MS :: nat where "TICKS_PER_MS = 10000"

definition filetime_to_unix_ms :: "u64 \<Rightarrow> i64" where
  "filetime_to_unix_ms ticks =
     (if unat ticks < EPOCH_DIFF_100NS then 0
      else let ms = (unat ticks - EPOCH_DIFF_100NS) div TICKS_PER_MS in
        if ms < 2 ^ 63 then of_nat ms else of_nat (2 ^ 63 - 1))"

definition name_from :: "rstr option \<Rightarrow> rstr" where
  "name_from v = (case v of None \<Rightarrow> utf ''<unknown>'' | Some p \<Rightarrow> image_name p)"

definition map_record :: "Record \<Rightarrow> DrainContext \<Rightarrow> SandboxEvent option \<times> DrainContext" where
  "map_record record ctx =
     (let pid = r_pid record in
      case r_payload record of
        WirePayload.ProcessCreated parent_pid command_line img \<Rightarrow>
          (let name = name_from img in
           (Some (Source (SourceEvent.ProcessStarted \<lparr>ps_pid = pid, ps_parent_pid = Some parent_pid,
              ps_name = name, ps_image_path = img, ps_command_line = command_line, ps_os_session_id = None\<rparr>)),
            remember_name pid (Some name) ctx))
      | WirePayload.ProcessExited \<Rightarrow>
          (Some (Source (SourceEvent.ProcessStopped \<lparr>pst_pid = pid, pst_name = name_for ctx pid\<rparr>)), ctx)
      | WirePayload.Thread thread_id \<Rightarrow>
          (if r_kind record = KThreadExited
           then (Some (Source (SourceEvent.ThreadStopped \<lparr>tst_pid = pid, tst_tid = thread_id\<rparr>)), ctx)
           else (Some (Source (SourceEvent.ThreadStarted \<lparr>ts_pid = pid, ts_tid = thread_id, ts_parent_tid = None\<rparr>)), ctx))
      | WirePayload.ImageLoaded _ _ name \<Rightarrow>
          (Some (Source (SourceEvent.ImageLoaded \<lparr>il_pid = pid, il_name = name_from name, il_image_path = name,
              il_image_size = None, il_image_checksum = None\<rparr>)), ctx)
      | WirePayload.RegistryKeyCreated path \<Rightarrow>
          (Some (Source (SourceEvent.RegistryKeyCreated \<lparr>rk_pid = pid, rk_key_name = path, rk_key_handle = None\<rparr>)), ctx)
      | WirePayload.RegistryKeyDeleted path \<Rightarrow>
          (Some (Source (SourceEvent.RegistryKeyDeleted \<lparr>rk_pid = pid, rk_key_name = path, rk_key_handle = None\<rparr>)), ctx)
      | WirePayload.RegistrySetValue key_path value_name data_type data \<Rightarrow>
          (Some (Source (SourceEvent.RegistryValueSet \<lparr>rvs_pid = pid, rvs_key_name = key_path,
              rvs_value_name = Some value_name, rvs_key_handle = None,
              rvs_value_type = Some (registry_type_name data_type),
              rvs_data_size = Some (if length data < 2 ^ 32 then of_nat (length data) else 0)\<rparr>)), ctx)
      | WirePayload.FileCreated path \<Rightarrow>
          (Some (Source (SourceEvent.FileCreated \<lparr>fc_pid = pid, fc_file_object = None, fc_file_name = Some path,
              fc_create_options = None, fc_create_disposition = None\<rparr>)), ctx)
      | WirePayload.FileWritten offset bytes path \<Rightarrow>
          (Some (Source (SourceEvent.FileWritten \<lparr>fw_pid = pid, fw_file_object = None, fw_file_key = None,
              fw_file_name = Some path, fw_io_size = Some (ucast bytes), fw_offset = Some offset\<rparr>)), ctx)
      | WirePayload.FileCleanedUp path \<Rightarrow>
          (Some (Source (SourceEvent.FileCleanedUp \<lparr>fr_pid = pid, fr_file_object = None, fr_file_key = None,
              fr_file_name = Some path\<rparr>)), ctx)
      | WirePayload.FileDeleted path \<Rightarrow>
          (Some (Source (SourceEvent.FileDeleted \<lparr>fd_pid = pid, fd_file_object = None, fd_file_key = None,
              fd_file_name = Some path\<rparr>)), ctx)
      | WirePayload.FileRenamed old_path new_path \<Rightarrow>
          (Some (Source (SourceEvent.FileRenamed \<lparr>fn_pid = pid, fn_file_object = None, fn_file_name = Some old_path,
              fn_new_name = Some new_path, fn_file_key = None\<rparr>)), ctx)
      | WirePayload.BehaviorCall thread_id api arg0 arg1 arg2 arg3 \<Rightarrow>
          (Some (Source (SourceEvent.BehaviorCall \<lparr>bc_pid = pid, bc_tid = thread_id, bc_api = api,
              bc_arg0 = arg0, bc_arg1 = arg1, bc_arg2 = arg2, bc_arg3 = arg3\<rparr>)), ctx)
      | WirePayload.ProtectionEvent protected_pid _ target_is_thread original_access stripped_access \<Rightarrow>
          (Some (Source (SourceEvent.ProtectionStripped \<lparr>prt_opener_pid = pid, prt_protected_pid = protected_pid,
              prt_target_is_thread = target_is_thread, prt_original_access = original_access,
              prt_stripped_access = stripped_access\<rparr>)), ctx)
      | WirePayload.DropCaptured _ _ _ \<Rightarrow> (None, ctx))"

text \<open>The body of the loop for a record that decoded: anchor the clock offset once, date the event,
  hand it over.\<close>

definition deliver :: "i64 \<Rightarrow> Record \<Rightarrow> DrainContext \<Rightarrow> SandboxEvent list \<times> DrainContext" where
  "deliver now record ctx =
     (let at = filetime_to_unix_ms (r_time record);
          ctx = (if dc_offset_captured ctx then ctx
                 else ctx\<lparr>dc_clock_offset_ms := i64_saturate (sint now - sint at), dc_offset_captured := True\<rparr>);
          event_ts = i64_saturate (sint at + sint (dc_clock_offset_ms ctx)) in
      case map_record record ctx of (ev, ctx) \<Rightarrow>
        (case ev of Some (Source source) \<Rightarrow> [SourceDated source event_ts] | _ \<Rightarrow> [], ctx))"

text \<open>The inner loop of \<open>run\<close> over one batch; the accumulators are the accepted events and the two
  counters. It ends because every usable size is at least a header.\<close>

function drain :: "i64 \<Rightarrow> u8 list \<Rightarrow> DrainContext \<Rightarrow> SandboxEvent list \<Rightarrow> nat \<Rightarrow> nat
    \<Rightarrow> SandboxEvent list \<times> nat \<times> nat \<times> DrainContext" where
  "drain now rest ctx evs decoded skipped =
     (if rest = [] then (evs, decoded, skipped, ctx)
      else case record_size rest of
        Inl _ \<Rightarrow> (evs, decoded, skipped + 1, ctx)
      | Inr sz \<Rightarrow>
          (case decode rest of
             Inr record \<Rightarrow>
               (case deliver now record ctx of (new, ctx') \<Rightarrow>
                  drain now (drop sz rest) ctx' (evs @ new) (decoded + 1) skipped)
           | Inl _ \<Rightarrow> drain now (drop sz rest) ctx evs decoded (skipped + 1)))"
  by pat_completeness auto
termination
  by (relation "measure (\<lambda>(_, rest, _). length rest)")
     (auto simp: HEADER_SIZE_def dest!: record_size_bounds)

declare drain.simps [simp del]

subsection \<open>The drain loop\<close>

text \<open>A chunk of a batch: bytes whose size header says exactly how long they are.\<close>

definition chunk :: "u8 list \<Rightarrow> bool" where
  "chunk f \<longleftrightarrow> record_size f = Inr (length f)"

lemma chunk_length: "chunk f \<Longrightarrow> HEADER_SIZE \<le> length f"
  by (auto simp: chunk_def dest: record_size_bounds)

lemma chunk_declared: "chunk f \<Longrightarrow> declared_size f = length f"
  using chunk_length [of f] by (simp add: chunk_def record_size_eq split: if_splits)

lemma chunk_append:
  assumes "chunk f"
  shows "record_size (f @ rest) = Inr (length f)"
    and "decode (f @ rest) = Inr r \<longleftrightarrow> decode f = Inr r"
proof -
  have h: "HEADER_SIZE \<le> length f" by (rule chunk_length [OF assms])
  have d: "declared_size (f @ rest) = length f"
    using header_take(1) [OF h, of "f @ rest"] chunk_declared [OF assms] by simp
  then show "record_size (f @ rest) = Inr (length f)" using h by (simp add: record_size_eq)
  show "decode (f @ rest) = Inr r \<longleftrightarrow> decode f = Inr r"
    using decode_take [of "f @ rest" r "length f"] d decode_append(1) [of f r rest] by auto
qed

text \<open>What the records of a batch produce, one after the other.\<close>

fun deliver_all :: "i64 \<Rightarrow> Record list \<Rightarrow> DrainContext \<Rightarrow> SandboxEvent list \<times> DrainContext" where
  "deliver_all now [] ctx = ([], ctx)"
| "deliver_all now (r # rs) ctx =
     (case deliver now r ctx of (new, ctx) \<Rightarrow> case deliver_all now rs ctx of (evs, ctx) \<Rightarrow> (new @ evs, ctx))"

definition good_records :: "u8 list list \<Rightarrow> Record list" where
  "good_records fs = List.map_filter (\<lambda>f. case decode f of Inr r \<Rightarrow> Some r | Inl _ \<Rightarrow> None) fs"

lemma good_records_simps [simp]:
  "good_records [] = []"
  "good_records (f # fs) = (case decode f of Inr r \<Rightarrow> r # good_records fs | Inl _ \<Rightarrow> good_records fs)"
  by (simp_all add: good_records_def map_filter_simps split: sum.splits)

lemma drain_chunks:
  assumes "list_all chunk fs"
  shows "drain now (concat fs @ rest) ctx evs decoded skipped
       = (case deliver_all now (good_records fs) ctx of (new, ctx') \<Rightarrow>
            drain now rest ctx' (evs @ new) (decoded + length (good_records fs))
              (skipped + (length fs - length (good_records fs))))"
  using assms
proof (induction fs arbitrary: ctx evs decoded skipped)
  case (Cons f fs)
  then have c: "chunk f" and cs: "list_all chunk fs" by simp_all
  have ne: "f \<noteq> []" using chunk_length [OF c] by (auto simp: HEADER_SIZE_def)
  have le: "length (good_records gs) \<le> length gs" for gs
    by (induction gs) (auto split: sum.splits)
  show ?case
  proof (cases "decode f")
    case (Inl e)
    then obtain e' where "decode (f @ concat fs @ rest) = Inl e'"
      using chunk_append(2) [OF c] by (cases "decode (f @ concat fs @ rest)") auto
    then show ?thesis
      using Cons.IH [OF cs] Inl ne chunk_append(1) [OF c] le [of fs]
      by (subst drain.simps) (simp add: Suc_diff_le split: prod.splits)
  next
    case (Inr r)
    then have "decode (f @ concat fs @ rest) = Inr r" using chunk_append(2) [OF c] by simp
    then show ?thesis
      using Cons.IH [OF cs] Inr ne chunk_append(1) [OF c]
      by (subst drain.simps) (simp split: prod.splits)
  qed
qed simp

text \<open>
  A malformed record costs only itself. A batch made of chunks whose size headers are right
  yields exactly the events of the chunks that decode, in their order, and counts every other chunk
  as skipped once; if garbage without a usable size follows, everything before it is still
  delivered and the remainder is dropped as one skip.
\<close>

theorem drain_skips_only_bad_records:
  assumes "list_all chunk fs" "rest = [] \<or> (\<exists>e. record_size rest = Inl e)"
  shows "drain now (concat fs @ rest) ctx [] 0 0
       = (fst (deliver_all now (good_records fs) ctx), length (good_records fs),
          length fs - length (good_records fs) + (if rest = [] then 0 else 1),
          snd (deliver_all now (good_records fs) ctx))"
  using assms(2) by (auto simp: drain_chunks [OF assms(1)] drain.simps [of _ rest] split: prod.splits)

theorem drain_skips_only_bad_records_witness:
  "fst (snd (drain 5 (minimal_rename_fixture @ [1, 2, 3]) DrainContext_new [] 0 0)) = 1"
proof -
  have c: "list_all chunk [minimal_rename_fixture]"
    using is_frame_take [OF decode_minimal_rename_fixture]
    by (simp add: chunk_def decode_record_size [OF decode_minimal_rename_fixture])
       (simp add: minimal_rename_fixture_def declared_size_def from_le_bytes_def)
  have "[1, 2, 3] = [] \<or> (\<exists>e. record_size [1, 2, 3] = Inl e)"
    by (simp add: record_size_def u32_at_def u8_at_def get_def)
  from drain_skips_only_bad_records [OF c this, of 5 DrainContext_new]
  show ?thesis by (simp add: decode_minimal_rename_fixture)
qed

subsection \<open>Time conversion\<close>

lemma i64_saturate_sint [simp]: "i64_saturate (sint t) = t"
proof -
  have "- (2 ^ 63) \<le> sint t" "sint t \<le> 2 ^ 63 - 1"
    using sint_greater_eq [of t] sint_less [of t] by simp_all
  then show ?thesis by (simp add: i64_saturate_def)
qed

lemma filetime_below_epoch: "unat ticks < EPOCH_DIFF_100NS \<Longrightarrow> filetime_to_unix_ms ticks = 0"
  by (simp add: filetime_to_unix_ms_def)

lemma map_record_context:
  "map_record r ctx = (ev, ctx') \<Longrightarrow> dc_offset_captured ctx' = dc_offset_captured ctx
     \<and> dc_clock_offset_ms ctx' = dc_clock_offset_ms ctx"
  by (cases "r_payload r") (auto simp: map_record_def Let_def remember_name_def split: if_splits)

lemma deliver_old_time:
  assumes "unat (r_time r) < EPOCH_DIFF_100NS" "deliver now r ctx = (evs, ctx')"
    and "dc_offset_captured ctx \<Longrightarrow> dc_clock_offset_ms ctx = now"
  shows "dc_clock_offset_ms ctx' = now \<and> (\<forall>ev \<in> set evs. \<exists>source. ev = SourceDated source now)"
  using assms
  by (auto simp: deliver_def Let_def filetime_below_epoch split: prod.splits if_splits option.splits SandboxEvent.splits
        dest!: map_record_context)

text \<open>
  The conversion of kernel times is off by a factor of one hundred in its epoch. Every FILETIME
  below 11644473600000000000 ticks (beyond the year 38000; the first of January 2024 is 133485408000000000)
  converts to 0, and so all the records drained in a boot carry one and the same event time, the
  clock reading taken at the first record, instead of their own.
\<close>

theorem drained_events_share_one_time:
  assumes "list_all (\<lambda>r. unat (r_time r) < 11644473600000000000) rs"
  shows "list_all (\<lambda>ev. \<exists>source. ev = SourceDated source now) (fst (deliver_all now rs DrainContext_new))
     \<and> list_all (\<lambda>r. filetime_to_unix_ms (r_time r) = 0) rs"
proof (intro conjI)
  have dated: "list_all (\<lambda>ev. \<exists>source. ev = SourceDated source now) (fst (deliver_all now rs ctx))"
    if "dc_offset_captured ctx \<Longrightarrow> dc_clock_offset_ms ctx = now" for ctx
    using assms that
  proof (induction rs arbitrary: ctx)
    case (Cons r rs)
    obtain new ctx' where d: "deliver now r ctx = (new, ctx')" by fastforce
    from Cons.prems(1) have "unat (r_time r) < EPOCH_DIFF_100NS" by (simp add: EPOCH_DIFF_100NS_def)
    from deliver_old_time [OF this d] Cons.prems(2)
    have "dc_clock_offset_ms ctx' = now" "\<forall>ev \<in> set new. \<exists>source. ev = SourceDated source now" by auto
    with Cons.IH [of ctx'] Cons.prems(1) show ?case by (auto simp: d list_all_iff split: prod.splits)
  qed simp
  show "list_all (\<lambda>ev. \<exists>source. ev = SourceDated source now) (fst (deliver_all now rs DrainContext_new))"
    by (rule dated) (simp add: DrainContext_new_def)
  show "list_all (\<lambda>r. filetime_to_unix_ms (r_time r) = 0) rs"
    using assms by (auto simp: list_all_iff filetime_below_epoch EPOCH_DIFF_100NS_def)
qed

definition exit_at :: "u64 \<Rightarrow> u32 \<Rightarrow> Record" where
  "exit_at time pid = \<lparr>r_kind = KProcessExited, r_pid = pid, r_sequence = 1, r_time = time,
     r_process_create_time = 0, r_trunc_flags = 0, r_payload = WirePayload.ProcessExited\<rparr>"

text \<open>Two exits a whole second apart.\<close>

theorem drained_events_share_one_time_witness:
  "list_all (\<lambda>ev. \<exists>source. ev = SourceDated source 5)
     (fst (deliver_all 5 [exit_at 133485408000000000 7, exit_at 133485408010000000 8] DrainContext_new))"
  using drained_events_share_one_time [of "[exit_at 133485408000000000 7, exit_at 133485408010000000 8]" 5]
  by (simp add: exit_at_def)

end
