(* ===== verification/Launchers.thy ===== *)
theory Launchers
  imports Screenshot_Intake Driver_Event_Source
begin

text \<open>
  Detonation and the user-actor launch (\<^verbatim>\<open>crates/agent/src/plugins/target_launcher.rs\<close>,
  \<^verbatim>\<open>user_actor_supervisor.rs\<close>). What the job queue, the association resolver and the process launcher
  answer are inputs.
\<close>

subsection \<open>Target launcher\<close>

record TargetLauncher =
  tlp_attempted :: bool
  tlp_started :: bool
  tlp_dropped :: u64
  tlp_queued :: nat   \<comment> \<open>detonation jobs handed to the queue\<close>

definition TargetLauncher_new :: TargetLauncher where
  "TargetLauncher_new = \<lparr>tlp_attempted = False, tlp_started = False, tlp_dropped = 0, tlp_queued = 0\<rparr>"

definition should_launch :: "AgentConfig \<Rightarrow> ScopeState \<Rightarrow> bool" where
  "should_launch config state \<longleftrightarrow> length (sst_sessions state) = 1 \<or> tg_every_session (ac_target config)"

text \<open>The condition chain of the \<open>if let\<close> stops at the first false conjunct, so \<open>attempted\<close> is set only
  for a marker start.\<close>

definition tlp_pre :: "AgentConfig \<Rightarrow> TrySend \<Rightarrow> SandboxEvent \<Rightarrow> TargetLauncher \<Rightarrow> World \<Rightarrow> TargetLauncher" where
  "tlp_pre config outcome ev p w =
     (case ev of
        Source (SourceEvent.ProcessStarted data) \<Rightarrow>
          (if \<not> is_marker_process (pf_non_s0_process (ac_platform config)) (ps_name data) then p
           else let attempted = tlp_attempted p; p = p\<lparr>tlp_attempted := True\<rparr> in
             if attempted then p
             else if \<not> should_launch config (w_scope w) then p
             else if \<not> tlp_started p then p
             else case submit outcome (tlp_dropped p) of (ok, dropped) \<Rightarrow>
               p\<lparr>tlp_dropped := dropped, tlp_queued := tlp_queued p + (if ok then 1 else 0)\<rparr>)
      | _ \<Rightarrow> p)"

datatype ResolveError = AssociationFailed | ResolvedToNothing

text \<open>\<open>resolve\<close> is the association port.\<close>

definition resolve_spec :: "(rstr \<Rightarrow> rstr option) \<Rightarrow> AgentConfig \<Rightarrow> ResolveError + LaunchSpec" where
  "resolve_spec resolve config =
     (let target = tg_path (ac_target config); config_args = tg_args (ac_target config);
          is_exe = (case extension_of target of None \<Rightarrow> False | Some ext \<Rightarrow> eq_ignore_ascii_case ext (utf ''exe'')) in
      if is_exe then Inr \<lparr>ls_path = target, ls_args = config_args, ls_working_dir = None\<rparr>
      else bind_r (ok_or AssociationFailed (resolve target)) (\<lambda>command.
        case split_command_line command of
          [] \<Rightarrow> Inl ResolvedToNothing
        | program # rest \<Rightarrow> Inr \<lparr>ls_path = program, ls_args = rest @ config_args, ls_working_dir = None\<rparr>))"

text \<open>\<open>outcome\<close> is what the launcher answers: \<open>None\<close> an error, \<open>Some pid\<close> success.\<close>

definition launch_flow :: "(rstr \<Rightarrow> rstr option) \<Rightarrow> AgentConfig \<Rightarrow> u32 option option \<Rightarrow> World \<Rightarrow> World" where
  "launch_flow resolve config outcome w =
     (case resolve_spec resolve config of
        Inl _ \<Rightarrow> w
      | Inr spec \<Rightarrow>
          let w = perform (BusPublish (ExtendScopeExpectation (image_name (ls_path spec)))) w;
              w = perform (Launch spec) w in
          case outcome of
            None \<Rightarrow> w
          | Some pid \<Rightarrow>
              (case identity (w_scope w) of (study_id, session_id) \<Rightarrow>
               let launcher = (case pf_launch_mechanism (ac_platform config) of
                     LaunchMechanism.Token \<Rightarrow> Launcher.Token | LaunchMechanism.SchedTask \<Rightarrow> Launcher.SchedTask) in
               case now_ms w of (now, w) \<Rightarrow>
                 send Event (\<lambda>q. envelope_raw now q study_id session_id EventType.TargetLaunched
                   (Payload.TargetLaunched \<lparr>tl_pid = pid, tl_path = ls_path spec,
                      tl_args = (if ls_args spec = [] then None else Some (join (utf '' '') (ls_args spec))),
                      tl_launcher = launcher\<rparr>)) w))"

subsection \<open>User-actor supervisor\<close>

record Supervisor =
  sup_attempted :: bool
  sup_started :: bool
  sup_dropped :: u64
  sup_queued :: "LaunchSpec list"

definition NONCE_ARGUMENT :: rstr where "NONCE_ARGUMENT = utf ''--nonce''"

text \<open>\<open>exe_dir\<close> is the directory of the agent's executable, when it is known.\<close>

definition resolve_relative_to_agent_exe :: "rstr option \<Rightarrow> rstr \<Rightarrow> rstr" where
  "resolve_relative_to_agent_exe exe_dir path =
     (if is_absolute_path path then path
      else case exe_dir of None \<Rightarrow> path | Some dir \<Rightarrow> path_join dir path)"

definition launch_spec :: "AgentConfig \<Rightarrow> rstr option \<Rightarrow> rstr \<Rightarrow> LaunchSpec" where
  "launch_spec config exe_dir nonce =
     \<lparr>ls_path = resolve_relative_to_agent_exe exe_dir (ua_path (ac_user_actor config)),
      ls_args = [NONCE_ARGUMENT, nonce], ls_working_dir = None\<rparr>"

definition sup_pre :: "AgentConfig \<Rightarrow> rstr option \<Rightarrow> rstr \<Rightarrow> TrySend \<Rightarrow> SandboxEvent \<Rightarrow> Supervisor \<Rightarrow> Supervisor" where
  "sup_pre config exe_dir nonce outcome ev p =
     (case ev of
        Source (SourceEvent.ProcessStarted data) \<Rightarrow>
          (if \<not> is_marker_process (pf_non_s0_process (ac_platform config)) (ps_name data) then p
           else let attempted = sup_attempted p; p = p\<lparr>sup_attempted := True\<rparr> in
             if attempted then p
             else if \<not> sup_started p then p
             else case submit outcome (sup_dropped p) of (ok, dropped) \<Rightarrow>
               p\<lparr>sup_dropped := dropped,
                 sup_queued := sup_queued p @ (if ok then [launch_spec config exe_dir nonce] else [])\<rparr>)
      | _ \<Rightarrow> p)"

text \<open>The launch job: the pid gate of the IPC server, 0 meaning ungated.\<close>

definition launch_job :: "u32 option option \<Rightarrow> LaunchSpec \<Rightarrow> u32 \<Rightarrow> World \<Rightarrow> u32 \<times> World" where
  "launch_job outcome spec pid_gate w =
     ((case outcome of Some (Some pid) \<Rightarrow> max pid 1 | _ \<Rightarrow> pid_gate), perform (Launch spec) w)"

subsection \<open>One detonation per boot\<close>

definition is_marker_start :: "AgentConfig \<Rightarrow> SandboxEvent \<Rightarrow> bool" where
  "is_marker_start config ev = (case ev of Source (SourceEvent.ProcessStarted data) \<Rightarrow>
     is_marker_process (pf_non_s0_process (ac_platform config)) (ps_name data) | _ \<Rightarrow> False)"

lemma tlp_pre_other: "\<not> is_marker_start config ev \<Longrightarrow> tlp_pre config outcome ev p w = p"
  by (cases ev) (auto simp: tlp_pre_def is_marker_start_def split: SourceEvent.splits)

lemma tlp_pre_marker:
  "is_marker_start config ev \<Longrightarrow> tlp_attempted (tlp_pre config outcome ev p w)
     \<and> tlp_started (tlp_pre config outcome ev p w) = tlp_started p
     \<and> tlp_queued (tlp_pre config outcome ev p w)
       = tlp_queued p + (if \<not> tlp_attempted p \<and> should_launch config (w_scope w) \<and> tlp_started p \<and> outcome = SendOk then 1 else 0)"
  by (cases ev; cases outcome)
     (auto simp: tlp_pre_def is_marker_start_def submit_def Let_def split: SourceEvent.splits)

definition tlp_run :: "AgentConfig \<Rightarrow> (TrySend \<times> SandboxEvent \<times> World) list \<Rightarrow> TargetLauncher \<Rightarrow> TargetLauncher" where
  "tlp_run config inputs p = fold (\<lambda>(outcome, ev, w) p. tlp_pre config outcome ev p w) inputs p"

lemma tlp_run_attempted: "tlp_attempted p \<Longrightarrow> tlp_queued (tlp_run config inputs p) = tlp_queued p \<and> tlp_attempted (tlp_run config inputs p)"
proof (induction inputs arbitrary: p)
  case (Cons i inputs)
  obtain outcome ev w where i: "i = (outcome, ev, w)" by (cases i)
  have "tlp_attempted (tlp_pre config outcome ev p w)" "tlp_queued (tlp_pre config outcome ev p w) = tlp_queued p"
    using Cons.prems by (cases "is_marker_start config ev"; simp add: tlp_pre_other tlp_pre_marker)+
  with Cons.IH show ?case by (simp add: tlp_run_def i)
qed (simp add: tlp_run_def)

text \<open>
  The sample is detonated once. Over all the events of a boot the launcher hands at most one job
  to its queue, and it decides at the first start of the marker process: the job is queued exactly
  if the session is the first or every session relaunches, and the queue takes it.
\<close>

theorem detonates_once:
  assumes "\<not> tlp_attempted p" "tlp_started p" "list_all (\<lambda>(_, ev, _). \<not> is_marker_start config ev) before"
    and "is_marker_start config ev"
  shows "tlp_queued (tlp_run config (before @ (outcome, ev, w) # later) p)
       = tlp_queued p + (if should_launch config (w_scope w) \<and> outcome = SendOk then 1 else 0)"
proof -
  have "tlp_run config before p = p"
    using assms(3) by (induction before) (auto simp: tlp_run_def tlp_pre_other)
  then have "tlp_run config (before @ (outcome, ev, w) # later) p = tlp_run config later (tlp_pre config outcome ev p w)"
    by (simp add: tlp_run_def)
  then show ?thesis
    using tlp_run_attempted tlp_pre_marker [OF assms(4), of outcome p w] assms(1,2) by simp
qed

definition explorer_start :: SandboxEvent where
  "explorer_start = Source (SourceEvent.ProcessStarted \<lparr>ps_pid = 9, ps_parent_pid = None, ps_name = utf ''Explorer.EXE'',
     ps_image_path = None, ps_command_line = None, ps_os_session_id = None\<rparr>)"

lemma explorer_is_marker: "is_marker_start AgentConfig_default explorer_start"
  by (simp add: is_marker_start_def explorer_start_def section_defaults is_marker_process_def strip_exe_def
        eq_ignore_ascii_case_def to_ascii_lowercase_def ascii_lower_def)

theorem detonates_once_witness:
  "tlp_queued (tlp_run AgentConfig_default [(SendOk, StatsTick, world0), (SendOk, explorer_start, world0),
      (SendOk, explorer_start, world0)] (TargetLauncher_new\<lparr>tlp_started := True\<rparr>)) = 1"
proof -
  have "\<not> is_marker_start AgentConfig_default StatsTick" by (simp add: is_marker_start_def)
  with detonates_once [of "TargetLauncher_new\<lparr>tlp_started := True\<rparr>" AgentConfig_default "[(SendOk, StatsTick, world0)]"
      explorer_start SendOk world0 "[(SendOk, explorer_start, world0)]"]
  show ?thesis by (simp add: explorer_is_marker TargetLauncher_new_def should_launch_def world0_def opened_def)
qed

text \<open>
  C37. With the kernel driver as the event source the sample is never detonated and the user-actor
  never launched. The drain loop hands over dated events only, and both launchers react to undated
  source events only: over any number of batches, whatever processes start, no job is queued.
\<close>

theorem driver_source_never_launches:
  "list_all (\<lambda>ev. tlp_pre config outcome ev p w = p \<and> sup_pre config exe_dir nonce outcome ev s = s)
     (fst (drain now batch ctx [] decoded skipped))"
proof -
  define idle where "idle = (\<lambda>ev. tlp_pre config outcome ev p w = p \<and> sup_pre config exe_dir nonce outcome ev s = s)"
  have dated: "list_all idle (fst (deliver now r ctx))" for now r ctx
    by (auto simp: deliver_def Let_def idle_def tlp_pre_def sup_pre_def split: prod.splits option.splits SandboxEvent.splits)
  have "list_all idle evs \<Longrightarrow> list_all idle (fst (drain now batch ctx evs decoded skipped))" for evs
  proof (induction now batch ctx evs decoded skipped rule: drain.induct)
    case (1 now rest ctx evs decoded skipped)
    show ?case
    proof (cases "rest = []")
      case False
      show ?thesis
      proof (cases "record_size rest")
        case (Inr sz)
        show ?thesis
        proof (cases "decode rest")
          case (Inl e)
          then show ?thesis using 1 False Inr by (subst drain.simps) simp
        next
          case (Inr r)
          obtain new ctx' where d: "deliver now r ctx = (new, ctx')" by fastforce
          have "list_all idle (evs @ new)" using "1.prems" dated [of now r ctx] d by simp
          then show ?thesis using "1.IH"(2) False \<open>record_size rest = Inr sz\<close> Inr d by (subst drain.simps) simp
        qed
      qed (use "1.prems" False in \<open>subst drain.simps; simp\<close>)
    qed (use "1.prems" in \<open>subst drain.simps; simp\<close>)
  qed
  then show ?thesis unfolding idle_def by simp
qed

subsection \<open>Numbering\<close>

lemma gapless_launch_flow: "gapless w (launch_flow resolve config outcome w)"
proof (cases "resolve_spec resolve config")
  case (Inr spec)
  let ?w = "perform (Launch spec) (perform (BusPublish (ExtendScopeExpectation (image_name (ls_path spec)))) w)"
  have launched: "gapless w ?w" by (rule gapless_trans [OF gapless_perform gapless_perform]) simp_all
  show ?thesis
  proof (cases outcome)
    case (Some pid)
    obtain now w' where now: "now_ms ?w = (now, w')" by (cases "now_ms ?w")
    obtain study session where id: "identity (w_scope ?w) = (study, session)" by (cases "identity (w_scope ?w)")
    show ?thesis
      unfolding launch_flow_def Let_def Inr Some sum.case option.case id now prod.case
      by (rule gapless_trans [OF gapless_trans [OF launched gapless_now [OF now]] gapless_send])
         (simp add: well_typed_def envelope_raw_def)
  qed (simp add: launch_flow_def Inr launched Let_def)
qed (simp add: launch_flow_def)

interpretation launch_worker: publisher "launch_flow resolve config" for resolve config
  by unfold_locales (rule gapless_launch_flow)

end
