(* ===== verification/Ipc_Server.thy ===== *)
theory Ipc_Server
  imports Ipc_Frame Agent_World Config
begin

text \<open>
  The agent's side of one pipe connection (\<^verbatim>\<open>crates/agent/src/adapters/driving/ipc_server.rs\<close>): the
  frame loop with its handshake, refusals, config push and screenshot intake, and the wire reports
  around it. The bytes the client sends are one list, the whole life of the connection; per turn of
  the loop the outside decides whether the deadline passed, the server was stopped, a read or write
  failed, and what the client's process id and token are. JSON is a library: parsing and printing
  of the messages are parameters.
\<close>

unbundle bit_operations_syntax

record Hello =
  hl_protocol :: u16
  hl_nonce :: "u8 list"   \<comment> \<open>the bytes of the string\<close>
  hl_module_version :: rstr

record Welcome =
  wl_session_id :: u32
  wl_config :: UserActorConfig

definition IPC_PROTOCOL_VERSION :: u16 where "IPC_PROTOCOL_VERSION = 1"
definition PRE_HANDSHAKE_MAX_PAYLOAD :: nat where "PRE_HANDSHAKE_MAX_PAYLOAD = 4096"

datatype IpcServerError = Setup | Io | ProtocolViolation FrameError

record Serde =
  sd_hello :: "u8 list \<Rightarrow> Hello option"
  sd_welcome :: "Welcome \<Rightarrow> u8 list option"
  sd_error :: "rstr \<Rightarrow> u8 list option"
  sd_show :: "IpcServerError \<Rightarrow> rstr"   \<comment> \<open>the error's display text\<close>

record ClientSession =
  cl_nonce :: "u8 list"
  cl_welcome :: Welcome
  cl_wire :: bool

text \<open>What the outside decides in one turn.\<close>

record Turn =
  tn_elapsed :: bool
  tn_cancelled :: bool
  tn_read_fails :: bool
  tn_refusal_elapsed :: bool
  tn_write_ok :: bool
  tn_pid :: u32
  tn_gate :: u32
  tn_system :: bool

record Conn =
  cn_handshaked :: "rstr option"
  cn_sent :: "(u16 \<times> u8 list) list"
  cn_accepted :: "SandboxEvent list"
  cn_world :: World

definition build_welcome :: "ScopeState \<Rightarrow> UserActorConfig \<Rightarrow> Welcome" where
  "build_welcome state config =
     \<lparr>wl_session_id = (case current_session state of None \<Rightarrow> 0 | Some s \<Rightarrow> ses_id s), wl_config = config\<rparr>"

definition constant_time_eq :: "u8 list \<Rightarrow> u8 list \<Rightarrow> bool" where
  "constant_time_eq a b =
     (if length a \<noteq> length b then False
      else fold (\<lambda>(x, y) acc. acc OR (x XOR y)) (zip a b) 0 = 0)"

subsection \<open>Reports\<close>

definition publish_user_actor_started :: "ClientSession \<Rightarrow> rstr \<Rightarrow> u32 option \<Rightarrow> World \<Rightarrow> World" where
  "publish_user_actor_started s module_version pid w =
     (if \<not> cl_wire s then w
      else case identity (w_scope w) of (study_id, session_id) \<Rightarrow>
        case now_ms w of (now, w) \<Rightarrow>
          send Event (\<lambda>q. envelope_raw now q study_id session_id EventType.UserActorStarted
            (Payload.UserActorStarted \<lparr>uas_module_version = module_version, uas_pid = pid\<rparr>)) w)"

definition publish_user_actor_stopped :: "ClientSession \<Rightarrow> rstr option \<Rightarrow> World \<Rightarrow> World" where
  "publish_user_actor_stopped s reason w =
     (if \<not> cl_wire s then w
      else case identity (w_scope w) of (study_id, session_id) \<Rightarrow>
        case now_ms w of (now, w) \<Rightarrow>
          send Event (\<lambda>q. envelope_raw now q study_id session_id EventType.UserActorStopped
            (Payload.UserActorStopped \<lparr>uat_reason = reason\<rparr>)) w)"

subsection \<open>Frames\<close>

definition error_frame_body :: "Serde \<Rightarrow> string \<Rightarrow> IpcServerError + u8 list" where
  "error_frame_body sd message = ok_or Io (sd_error sd (utf message))"

definition welcome_body :: "Serde \<Rightarrow> ClientSession \<Rightarrow> IpcServerError + u8 list" where
  "welcome_body sd s = ok_or Io (sd_welcome sd (cl_welcome s))"

text \<open>Writing a frame to the client.\<close>

definition write_frame :: "Turn \<Rightarrow> u16 \<Rightarrow> u8 list \<Rightarrow> Conn \<Rightarrow> (IpcServerError + unit) \<times> Conn" where
  "write_frame t message_type payload c =
     (case send_frame message_type payload of
        None \<Rightarrow> (Inl Setup, c)
      | Some _ \<Rightarrow> if tn_write_ok t then (Inr (), c\<lparr>cn_sent := cn_sent c @ [(message_type, payload)]\<rparr>)
                  else (Inl Io, c))"

definition read_or_disconnect :: "Turn \<Rightarrow> nat \<Rightarrow> u8 list
    \<Rightarrow> IpcServerError + ((FrameHeader \<times> u8 list) \<times> u8 list) option" where
  "read_or_disconnect t cap bytes =
     (if tn_cancelled t then Inr None
      else if tn_read_fails t then Inl Io
      else case read_frame cap bytes of
        Inl (Protocol e) \<Rightarrow> Inl (ProtocolViolation e)
      | Inl (OverCap _ _) \<Rightarrow> Inl Io
      | Inr r \<Rightarrow> Inr r)"

text \<open>One turn either ends the connection or goes on.\<close>

datatype Flow = Again | Finish "IpcServerError + unit"

definition finish_or :: "(IpcServerError + unit) \<times> Conn \<Rightarrow> Flow \<times> Conn" where
  "finish_or r = (case r of (Inl e, c) \<Rightarrow> (Finish (Inl e), c) | (Inr _, c) \<Rightarrow> (Again, c))"

definition on_timeout :: "Serde \<Rightarrow> Turn \<Rightarrow> Conn \<Rightarrow> (IpcServerError + unit) \<times> Conn" where
  "on_timeout sd t c =
     (case error_frame_body sd ''handshake timeout'' of
        Inl e \<Rightarrow> (Inl e, c)
      | Inr body \<Rightarrow> (Inr (), snd (write_frame t ERROR body c)))"

definition on_early_frame :: "Serde \<Rightarrow> Turn \<Rightarrow> Conn \<Rightarrow> Flow \<times> Conn" where
  "on_early_frame sd t c =
     (case error_frame_body sd ''handshake required'' of
        Inl e \<Rightarrow> (Finish (Inl e), c)
      | Inr body \<Rightarrow>
          if tn_refusal_elapsed t then (Finish (Inr ()), c)
          else (Again, snd (write_frame t ERROR body c)))"

definition send_welcome :: "ClientSession \<Rightarrow> Serde \<Rightarrow> Turn \<Rightarrow> Conn \<Rightarrow> Flow \<times> Conn" where
  "send_welcome s sd t c =
     (case welcome_body sd s of
        Inl e \<Rightarrow> (Finish (Inl e), c)
      | Inr body \<Rightarrow> finish_or (write_frame t WELCOME body c))"

definition hello_ok :: "ClientSession \<Rightarrow> Turn \<Rightarrow> Hello \<Rightarrow> bool" where
  "hello_ok s t hello \<longleftrightarrow>
     hl_protocol hello = IPC_PROTOCOL_VERSION \<and> constant_time_eq (hl_nonce hello) (cl_nonce s)
     \<and> (tn_gate t = 0 \<or> tn_pid t = tn_gate t \<or> tn_system t)"

definition on_hello :: "ClientSession \<Rightarrow> Serde \<Rightarrow> Turn \<Rightarrow> u8 list \<Rightarrow> Conn \<Rightarrow> Flow \<times> Conn" where
  "on_hello s sd t payload c =
     (case sd_hello sd payload of
        None \<Rightarrow> (Finish (Inl Io), c)
      | Some hello \<Rightarrow>
          if \<not> hello_ok s t hello then
            (case error_frame_body sd ''handshake rejected'' of
               Inl e \<Rightarrow> (Finish (Inl e), c)
             | Inr body \<Rightarrow> (case write_frame t ERROR body c of (r, c) \<Rightarrow> (Finish r, c)))
          else
            let c = c\<lparr>cn_handshaked := Some (hl_module_version hello)\<rparr>;
                c = c\<lparr>cn_world := publish_user_actor_started s (hl_module_version hello)
                        (if tn_pid t \<noteq> 0 then Some (tn_pid t) else None) (cn_world c)\<rparr> in
            send_welcome s sd t c)"

definition on_screenshot :: "u8 list \<Rightarrow> Conn \<Rightarrow> Flow \<times> Conn" where
  "on_screenshot payload c =
     (case decode_screenshot payload of
        Inl e \<Rightarrow> (Finish (Inl (ProtocolViolation e)), c)
      | Inr (seq, jpeg) \<Rightarrow>
          (Again, c\<lparr>cn_accepted := cn_accepted c @ [SandboxEvent.ScreenshotReceived \<lparr>sfr_seq = seq, sfr_jpeg = jpeg\<rparr>]\<rparr>))"

definition handle_frame :: "ClientSession \<Rightarrow> Serde \<Rightarrow> Turn \<Rightarrow> u16 \<Rightarrow> u8 list \<Rightarrow> Conn \<Rightarrow> Flow \<times> Conn" where
  "handle_frame s sd t message_type payload c =
     (if cn_handshaked c = None \<and> message_type \<noteq> HELLO then on_early_frame sd t c
      else if message_type = HELLO then on_hello s sd t payload c
      else if message_type = GET_CONFIG then send_welcome s sd t c
      else if message_type = SCREENSHOT then on_screenshot payload c
      else if message_type = ERROR then (Again, c)
      else (Finish (Inr ()), c))"

definition payload_cap :: "Conn \<Rightarrow> nat" where
  "payload_cap c = (if cn_handshaked c = None then PRE_HANDSHAKE_MAX_PAYLOAD else MAX_PAYLOAD_LEN)"

subsection \<open>The loop\<close>

lemma read_frame_rest:
  "read_frame cap bytes = Inr (Some ((h, payload), rest)) \<Longrightarrow>
     length payload \<le> cap \<and> bytes = to_bytes h @ payload @ rest \<and> length rest < length bytes"
  by (auto simp: read_frame_def Let_def HEADER_LEN_def append_take_drop_id dest!: header.enc_dec
        split: if_splits sum.splits)
     (metis append_take_drop_id drop_drop add.commute)

lemma read_or_disconnect_rest:
  "read_or_disconnect t cap bytes = Inr (Some ((h, payload), rest)) \<Longrightarrow>
     length payload \<le> cap \<and> bytes = to_bytes h @ payload @ rest \<and> length rest < length bytes"
  by (auto simp: read_or_disconnect_def dest: read_frame_rest split: if_splits sum.splits ReadError.splits)

text \<open>Every turn that goes on has consumed a frame, so the loop ends with the client's bytes.\<close>

function serve_loop :: "ClientSession \<Rightarrow> Serde \<Rightarrow> (nat \<Rightarrow> Turn) \<Rightarrow> nat \<Rightarrow> u8 list \<Rightarrow> Conn
    \<Rightarrow> (IpcServerError + unit) \<times> Conn" where
  "serve_loop s sd turns k bytes c =
     (if cn_handshaked c = None \<and> tn_elapsed (turns k)
      then on_timeout sd (turns k) c
      else case read_or_disconnect (turns k) (payload_cap c) bytes of
        Inl e \<Rightarrow> (Inl e, c)
      | Inr None \<Rightarrow> (Inr (), c)
      | Inr (Some ((frame, payload), rest)) \<Rightarrow>
          (case handle_frame s sd (turns k) (fh_message_type frame) payload c of
             (Finish r, c) \<Rightarrow> (r, c)
           | (Again, c) \<Rightarrow> serve_loop s sd turns (Suc k) rest c))"
  by pat_completeness auto
termination
  by (relation "measure (\<lambda>(s, sd, turns, k, bytes, c). length bytes)") (auto dest: read_or_disconnect_rest)

declare serve_loop.simps [simp del]

definition serve :: "ClientSession \<Rightarrow> Serde \<Rightarrow> (nat \<Rightarrow> Turn) \<Rightarrow> u8 list \<Rightarrow> Conn \<Rightarrow> (IpcServerError + unit) \<times> Conn" where
  "serve s sd turns bytes c =
     (case serve_loop s sd turns 0 bytes c of (result, c) \<Rightarrow>
        (result,
         if cn_handshaked c \<noteq> None
         then c\<lparr>cn_world := publish_user_actor_stopped s
                  (case result of Inl e \<Rightarrow> Some (sd_show sd e) | Inr _ \<Rightarrow> None) (cn_world c)\<rparr>
         else c))"

text \<open>A fresh connection.\<close>

definition connected :: "World \<Rightarrow> Conn" where
  "connected w = \<lparr>cn_handshaked = None, cn_sent = [], cn_accepted = [], cn_world = w\<rparr>"

subsection \<open>Nonce comparison\<close>

lemma or_zero_iff: "(a :: u8) OR b = 0 \<longleftrightarrow> a = 0 \<and> b = 0"
  by (auto simp: bit_eq_iff bit_simps)

lemma xor_zero_iff: "(a :: u8) XOR b = 0 \<longleftrightarrow> a = b"
  by (auto simp: bit_eq_iff bit_simps)

lemma constant_time_eq_iff [simp]: "constant_time_eq a b \<longleftrightarrow> a = b"
proof -
  have "fold (\<lambda>(x, y) acc. acc OR (x XOR y)) (zip a b) acc = 0 \<longleftrightarrow> acc = 0 \<and> a = b"
    if "length a = length b" for acc :: u8
    using that
    by (induction a b arbitrary: acc rule: list_induct2) (auto simp: or_zero_iff xor_zero_iff)
  then show ?thesis by (auto simp: constant_time_eq_def)
qed

subsection \<open>Nothing before a verified handshake\<close>

text \<open>The client's bytes hold a verified \<open>HELLO\<close>, small enough to be read before the handshake.\<close>

definition proven :: "ClientSession \<Rightarrow> Serde \<Rightarrow> (nat \<Rightarrow> Turn) \<Rightarrow> u8 list \<Rightarrow> bool" where
  "proven s sd turns bytes \<longleftrightarrow> (\<exists>before h payload later hello k. bytes = before @ to_bytes h @ payload @ later
     \<and> fh_message_type h = HELLO \<and> length payload \<le> PRE_HANDSHAKE_MAX_PAYLOAD
     \<and> sd_hello sd payload = Some hello \<and> hello_ok s (turns k) hello)"

text \<open>From \<open>c\<close> to \<open>c'\<close> the client got nothing but error frames.\<close>

definition only_errors :: "Conn \<Rightarrow> Conn \<Rightarrow> bool" where
  "only_errors c c' \<longleftrightarrow> cn_handshaked c' = None \<and> cn_accepted c' = cn_accepted c \<and> cn_world c' = cn_world c
     \<and> (\<exists>bodies. cn_sent c' = cn_sent c @ map (Pair ERROR) bodies)"

lemma only_errors_refl: "cn_handshaked c = None \<Longrightarrow> only_errors c c"
  by (auto simp: only_errors_def intro: exI [of _ "[]"])

lemma only_errors_trans: "only_errors c1 c2 \<Longrightarrow> only_errors c2 c3 \<Longrightarrow> only_errors c1 c3"
  by (auto simp: only_errors_def) (metis map_append)

lemma only_errors_write: "cn_handshaked c = None \<Longrightarrow> only_errors c (snd (write_frame t ERROR body c))"
  by (auto simp: only_errors_def write_frame_def split: option.splits intro: exI [of _ "[]"] exI [of _ "[body]"])

lemma handle_frame_early:
  assumes "cn_handshaked c = None" "handle_frame s sd t mt payload c = (flow, c')"
  shows "only_errors c c' \<or> mt = HELLO \<and> (\<exists>hello. sd_hello sd payload = Some hello \<and> hello_ok s t hello)"
  using assms only_errors_refl [OF assms(1)] only_errors_write [OF assms(1), of t]
  by (auto simp: handle_frame_def on_early_frame_def on_hello_def split: if_splits sum.splits option.splits prod.splits)
     (metis snd_conv)+

lemma proven_later: "proven s sd turns rest \<Longrightarrow> proven s sd turns (bytes @ rest)"
  unfolding proven_def by (metis append_assoc)

lemma serve_loop_guard:
  assumes "cn_handshaked c = None"
  shows "only_errors c (snd (serve_loop s sd turns k bytes c)) \<or> proven s sd turns bytes"
  using assms
proof (induction s sd turns k bytes c rule: serve_loop.induct)
  case (1 s sd turns k bytes c)
  show ?case
  proof (cases "\<exists>h payload rest. \<not> tn_elapsed (turns k)
      \<and> read_or_disconnect (turns k) (payload_cap c) bytes = Inr (Some ((h, payload), rest))")
    case True
    then obtain h payload rest where e: "\<not> tn_elapsed (turns k)"
      and r: "read_or_disconnect (turns k) (payload_cap c) bytes = Inr (Some ((h, payload), rest))" by blast
    obtain flow c' where f: "handle_frame s sd (turns k) (fh_message_type h) payload c = (flow, c')" by fastforce
    note cut = read_or_disconnect_rest [OF r]
    from handle_frame_early [OF "1.prems" f] show ?thesis
    proof
      assume quiet: "only_errors c c'"
      then have None: "cn_handshaked c' = None" by (simp add: only_errors_def)
      show ?thesis
      proof (cases flow)
        case Again
        have "only_errors c' (snd (serve_loop s sd turns (Suc k) rest c')) \<or> proven s sd turns rest"
          using "1.IH" e r f Again None by simp
        moreover have "proven s sd turns bytes" if "proven s sd turns rest"
          using proven_later [OF that, of "to_bytes h @ payload"] cut by simp
        ultimately show ?thesis
          using e r f Again quiet by (subst serve_loop.simps) (auto intro: only_errors_trans)
      qed (use e r f quiet in \<open>subst serve_loop.simps; simp\<close>)
    next
      assume hello: "fh_message_type h = HELLO \<and> (\<exists>hello. sd_hello sd payload = Some hello \<and> hello_ok s (turns k) hello)"
      then obtain msg where "sd_hello sd payload = Some msg" "hello_ok s (turns k) msg" by blast
      moreover have "bytes = [] @ to_bytes h @ payload @ rest" "length payload \<le> PRE_HANDSHAKE_MAX_PAYLOAD"
        using cut "1.prems" by (simp_all add: payload_cap_def)
      ultimately have "proven s sd turns bytes" using hello unfolding proven_def by blast
      then show ?thesis ..
    qed
  next
    case False
    then have "only_errors c (snd (serve_loop s sd turns k bytes c))"
      using "1.prems" only_errors_refl [OF "1.prems"] only_errors_write [OF "1.prems"]
      by (subst serve_loop.simps) (auto simp: on_timeout_def split: sum.splits option.splits)
    then show ?thesis ..
  qed
qed

text \<open>
  C16. Nothing before a verified handshake. Whatever bytes a client sends and however the connection
  goes, either the client got nothing but error frames, no event reached the pipeline and no report
  reached the wire, or its bytes hold a \<open>HELLO\<close> frame of at most 4096 payload bytes with the protocol
  version and this boot's nonce, sent while the process-id gate was open, matched or bypassed by a
  SYSTEM token.
\<close>

theorem handshake_guards_pipe:
  "only_errors (connected w) (snd (serve s sd turns bytes (connected w)))
   \<or> (\<exists>before h payload later hello k. bytes = before @ to_bytes h @ payload @ later
        \<and> fh_message_type h = HELLO \<and> length payload \<le> 4096 \<and> sd_hello sd payload = Some hello
        \<and> hl_protocol hello = IPC_PROTOCOL_VERSION \<and> hl_nonce hello = cl_nonce s
        \<and> (tn_gate (turns k) = 0 \<or> tn_pid (turns k) = tn_gate (turns k) \<or> tn_system (turns k)))"
proof -
  have "only_errors (connected w) (snd (serve_loop s sd turns 0 bytes (connected w))) \<or> proven s sd turns bytes"
    by (rule serve_loop_guard) (simp add: connected_def)
  then show ?thesis
  proof
    assume quiet: "only_errors (connected w) (snd (serve_loop s sd turns 0 bytes (connected w)))"
    then have "snd (serve s sd turns bytes (connected w)) = snd (serve_loop s sd turns 0 bytes (connected w))"
      by (auto simp: serve_def only_errors_def split: prod.splits)
    with quiet show ?thesis by simp
  next
    assume "proven s sd turns bytes"
    then show ?thesis unfolding proven_def hello_ok_def PRE_HANDSHAKE_MAX_PAYLOAD_def constant_time_eq_iff by blast
  qed
qed

subsection \<open>Reports are paired\<close>

lemma publish_started_effect:
  "cl_wire s \<Longrightarrow> \<exists>env. w_log (publish_user_actor_started s v pid w) = w_log w @ [Publish Event env]
     \<and> env_data env = Payload.UserActorStarted \<lparr>uas_module_version = v, uas_pid = pid\<rparr>"
  by (auto simp: publish_user_actor_started_def effect_simps envelope_raw_def dest!: now_ms_effect split: prod.splits)

lemma publish_stopped_effect:
  "cl_wire s \<Longrightarrow> \<exists>env. w_log (publish_user_actor_stopped s reason w) = w_log w @ [Publish Event env]
     \<and> env_data env = Payload.UserActorStopped \<lparr>uat_reason = reason\<rparr>"
  by (auto simp: publish_user_actor_stopped_def effect_simps envelope_raw_def dest!: now_ms_effect split: prod.splits)

lemma gapless_started: "gapless w (publish_user_actor_started s v pid w)"
  unfolding publish_user_actor_started_def
  by (auto split: prod.splits intro!: gapless_trans [OF gapless_now gapless_send]
        simp: well_typed_def envelope_raw_def)

lemma gapless_stopped: "gapless w (publish_user_actor_stopped s reason w)"
  unfolding publish_user_actor_stopped_def
  by (auto split: prod.splits intro!: gapless_trans [OF gapless_now gapless_send]
        simp: well_typed_def envelope_raw_def)

lemma publish_scope:
  "w_scope (publish_user_actor_started s v pid w) = w_scope w" "w_scope (publish_user_actor_stopped s reason w) = w_scope w"
  by (auto simp: publish_user_actor_started_def publish_user_actor_stopped_def effect_simps dest: now_ms_effect
        split: prod.splits)

text \<open>What one frame can do to the outside: nothing, or a verified handshake with its report.\<close>

lemma handle_frame_world:
  assumes "handle_frame s sd t mt payload c = (flow, c')"
  shows "cn_world c' = cn_world c \<and> cn_handshaked c' = cn_handshaked c
    \<or> (\<exists>v pid. cn_handshaked c' = Some v \<and> cn_world c' = publish_user_actor_started s v pid (cn_world c))"
  using assms
  by (auto simp: handle_frame_def on_early_frame_def on_hello_def on_screenshot_def send_welcome_def write_frame_def
        finish_or_def Let_def split: if_splits sum.splits option.splits prod.splits)

lemma on_timeout_world: "cn_world (snd (on_timeout sd t c)) = cn_world c \<and> cn_handshaked (snd (on_timeout sd t c)) = cn_handshaked c"
  by (auto simp: on_timeout_def write_frame_def split: sum.splits option.splits)

text \<open>Whatever every frame keeps, the connection keeps.\<close>

lemma serve_loop_preserves:
  assumes frame: "\<And>t mt payload c flow c'. handle_frame s sd t mt payload c = (flow, c') \<Longrightarrow> P c \<Longrightarrow> P c'"
    and timeout: "\<And>t c. P c \<Longrightarrow> P (snd (on_timeout sd t c))"
    and "P c"
  shows "P (snd (serve_loop s sd turns k bytes c))"
  using assms(3)
proof (induction bytes arbitrary: k c rule: length_induct)
  case (1 bytes)
  show ?case
  proof (cases "\<exists>h payload rest. \<not> (cn_handshaked c = None \<and> tn_elapsed (turns k))
      \<and> read_or_disconnect (turns k) (payload_cap c) bytes = Inr (Some ((h, payload), rest))")
    case True
    then obtain h payload rest where e: "\<not> (cn_handshaked c = None \<and> tn_elapsed (turns k))"
      and r: "read_or_disconnect (turns k) (payload_cap c) bytes = Inr (Some ((h, payload), rest))" by blast
    obtain flow c' where f: "handle_frame s sd (turns k) (fh_message_type h) payload c = (flow, c')" by fastforce
    from frame [OF f "1.prems"] have "P c'" .
    with 1 read_or_disconnect_rest [OF r] show ?thesis
      using e r f by (subst serve_loop.simps) (auto split: Flow.split)
  next
    case False
    with "1.prems" timeout show ?thesis by (subst serve_loop.simps) (auto split: sum.splits option.splits)
  qed
qed

lemma serve_loop_starts:
  assumes "cl_wire s" "cn_handshaked c = None"
  shows "\<exists>starts. published (w_log (cn_world (snd (serve_loop s sd turns k bytes c)))) = published (w_log (cn_world c)) @ starts
    \<and> (\<forall>env \<in> set starts. \<exists>d. env_data env = Payload.UserActorStarted d)
    \<and> (starts = [] \<longleftrightarrow> cn_handshaked (snd (serve_loop s sd turns k bytes c)) = None)" (is "?P (snd (serve_loop s sd turns k bytes c))")
proof (rule serve_loop_preserves [where P = ?P])
  fix t mt payload c1 flow c2
  assume f: "handle_frame s sd t mt payload c1 = (flow, c2)" and P: "?P c1"
  from handle_frame_world [OF f] show "?P c2"
  proof (elim disjE exE conjE)
    fix v pid assume h: "cn_handshaked c2 = Some v" "cn_world c2 = publish_user_actor_started s v pid (cn_world c1)"
    from publish_started_effect [OF assms(1), of v pid "cn_world c1"] obtain env where env:
      "w_log (cn_world c2) = w_log (cn_world c1) @ [Publish Event env]" "\<exists>d. env_data env = Payload.UserActorStarted d"
      unfolding h by blast
    from P obtain starts where "published (w_log (cn_world c1)) = published (w_log (cn_world c)) @ starts"
      "\<forall>env \<in> set starts. \<exists>d. env_data env = Payload.UserActorStarted d" by blast
    with env h(1) show ?thesis by (intro exI [of _ "starts @ [env]"]) auto
  qed (use P in simp)
qed (use assms(2) in \<open>auto simp: on_timeout_world\<close>)

text \<open>
  The wire tells the truth about the user actor. Whatever a client sends and however the
  connection goes, what the connection publishes is nothing at all, or one \<open>user_actor.started\<close> per
  verified handshake, at least one, followed by exactly one \<open>user_actor.stopped\<close> as the very last
  report, whose reason is the error the connection ended with and absent when it ended cleanly.
\<close>

theorem user_actor_reports_paired:
  assumes "cl_wire s"
  shows "\<exists>starts. list_all (\<lambda>env. \<exists>d. env_data env = Payload.UserActorStarted d) starts
    \<and> (if starts = []
       then published (w_log (cn_world (snd (serve s sd turns bytes (connected w))))) = published (w_log w)
       else \<exists>stop. published (w_log (cn_world (snd (serve s sd turns bytes (connected w)))))
           = published (w_log w) @ starts @ [stop]
         \<and> env_data stop = Payload.UserActorStopped \<lparr>uat_reason =
             (case fst (serve s sd turns bytes (connected w)) of Inl e \<Rightarrow> Some (sd_show sd e) | Inr _ \<Rightarrow> None)\<rparr>)"
proof -
  obtain r c where loop: "serve_loop s sd turns 0 bytes (connected w) = (r, c)" by fastforce
  have "cn_handshaked (connected w) = None" "cn_world (connected w) = w" by (simp_all add: connected_def)
  with serve_loop_starts [OF assms this(1), of sd turns 0 bytes] obtain starts where starts:
    "published (w_log (cn_world c)) = published (w_log w) @ starts"
    "\<forall>env \<in> set starts. \<exists>d. env_data env = Payload.UserActorStarted d" "starts = [] \<longleftrightarrow> cn_handshaked c = None"
    by (auto simp: loop)
  let ?reason = "case r of Inl e \<Rightarrow> Some (sd_show sd e) | Inr _ \<Rightarrow> None"
  obtain stop where "w_log (publish_user_actor_stopped s ?reason (cn_world c)) = w_log (cn_world c) @ [Publish Event stop]"
    "env_data stop = Payload.UserActorStopped \<lparr>uat_reason = ?reason\<rparr>"
    using publish_stopped_effect [OF assms] by blast
  with starts show ?thesis by (intro exI [of _ starts]) (auto simp: serve_def loop list_all_iff)
qed

definition sample_serde :: Serde where
  "sample_serde = \<lparr>sd_hello = (\<lambda>p. if p = [1] then Some \<lparr>hl_protocol = 1, hl_nonce = [42], hl_module_version = utf ''1.0''\<rparr> else None),
     sd_welcome = (\<lambda>_. Some [2]), sd_error = (\<lambda>_. Some [3]), sd_show = (\<lambda>_. utf ''error'')\<rparr>"

definition sample_client :: ClientSession where
  "sample_client = \<lparr>cl_nonce = [42], cl_welcome = build_welcome opened (user_actor_config AgentConfig_default), cl_wire = True\<rparr>"

definition calm_turn :: Turn where
  "calm_turn = \<lparr>tn_elapsed = False, tn_cancelled = False, tn_read_fails = False, tn_refusal_elapsed = False,
     tn_write_ok = True, tn_pid = 5, tn_gate = 5, tn_system = False\<rparr>"

theorem user_actor_reports_paired_witness:
  "cl_wire sample_client \<and> (\<exists>starts. list_all (\<lambda>env. \<exists>d. env_data env = Payload.UserActorStarted d) starts
    \<and> (if starts = []
       then published (w_log (cn_world (snd (serve sample_client sample_serde (\<lambda>_. calm_turn) [1, 0] (connected world0))))) = []
       else \<exists>stop. published (w_log (cn_world (snd (serve sample_client sample_serde (\<lambda>_. calm_turn) [1, 0] (connected world0)))))
           = starts @ [stop]))"
proof -
  have "cl_wire sample_client" "w_log world0 = []" by (simp_all add: sample_client_def world0_def)
  with user_actor_reports_paired [OF this(1), of sample_serde "\<lambda>_. calm_turn" "[1, 0]" world0]
  show ?thesis by (auto split: if_splits)
qed

lemma gapless_serve: "gapless (cn_world c) (cn_world (snd (serve s sd turns bytes c)))"
proof -
  have "gapless (cn_world c) (cn_world (snd (serve_loop s sd turns 0 bytes c)))"
    by (rule serve_loop_preserves [where P = "\<lambda>c'. gapless (cn_world c) (cn_world c')"])
       (auto simp: on_timeout_world dest!: handle_frame_world intro: gapless_trans [OF _ gapless_started])
  then show ?thesis
    by (auto simp: serve_def split: prod.splits intro: gapless_trans [OF _ gapless_stopped])
qed

interpretation ipc: publisher "\<lambda>(s, sd, turns, bytes) w. cn_world (snd (serve s sd turns bytes (connected w)))"
  using gapless_serve [of "connected w" for w] by unfold_locales (auto simp: connected_def split: prod.split)

subsection \<open>A good client is served\<close>

definition wire_frames :: "(u16 \<times> u8 list) list \<Rightarrow> u8 list" where
  "wire_frames frames = concat (map (\<lambda>(t, payload). the (send_frame t payload)) frames)"

text \<open>A turn in which nothing goes wrong outside.\<close>

definition calm :: "Turn \<Rightarrow> bool" where
  "calm t \<longleftrightarrow> \<not> tn_elapsed t \<and> \<not> tn_cancelled t \<and> \<not> tn_read_fails t \<and> \<not> tn_refusal_elapsed t \<and> tn_write_ok t"

lemma wire_frames_simps [simp]:
  "wire_frames [] = []" "wire_frames (f # fs) = the (send_frame (fst f) (snd f)) @ wire_frames fs"
  "wire_frames (fs @ gs) = wire_frames fs @ wire_frames gs"
  by (auto simp: wire_frames_def split: prod.splits)

lemma MAX_PAYLOAD_small: "MAX_PAYLOAD_LEN < 2 ^ 32" "PRE_HANDSHAKE_MAX_PAYLOAD \<le> MAX_PAYLOAD_LEN"
  by (simp_all add: MAX_PAYLOAD_LEN_def PRE_HANDSHAKE_MAX_PAYLOAD_def)

lemma read_calm:
  assumes "calm t" "is_known mt" "length payload \<le> cap" "cap \<le> MAX_PAYLOAD_LEN"
  shows "read_or_disconnect t cap (the (send_frame mt payload) @ rest)
    = Inr (Some ((\<lparr>fh_payload_len = of_nat (length payload), fh_message_type = mt, fh_flags = 0\<rparr>, payload), rest))"
proof -
  have "send_frame mt payload = Some (the (send_frame mt payload))"
    using assms(3,4) MAX_PAYLOAD_small(1) by (simp add: send_frame_def)
  from read_send_frame [OF assms(2,3) _ this, of rest] assms show ?thesis
    by (simp add: read_or_disconnect_def calm_def)
qed

lemma serve_loop_calm:
  assumes "calm (turns k)" "is_known mt" "length payload \<le> payload_cap c"
  shows "serve_loop s sd turns k (the (send_frame mt payload) @ rest) c
    = (case handle_frame s sd (turns k) mt payload c of
         (Finish r, c') \<Rightarrow> (r, c') | (Again, c') \<Rightarrow> serve_loop s sd turns (Suc k) rest c')"
proof -
  have "payload_cap c \<le> MAX_PAYLOAD_LEN" using MAX_PAYLOAD_small by (simp add: payload_cap_def)
  with read_calm [OF assms this, of rest] show ?thesis
    using assms(1) by (subst serve_loop.simps) (simp add: calm_def)
qed

lemma serve_loop_end: "calm (turns k) \<Longrightarrow> serve_loop s sd turns k [] c = (Inr (), c)"
  by (subst serve_loop.simps) (simp add: calm_def read_or_disconnect_def read_frame_def HEADER_LEN_def)

lemma write_calm:
  "calm t \<Longrightarrow> length body < 2 ^ 32 \<Longrightarrow> write_frame t mt body c = (Inr (), c\<lparr>cn_sent := cn_sent c @ [(mt, body)]\<rparr>)"
  by (simp add: write_frame_def send_frame_def calm_def)

lemma early_frames_refused:
  assumes "\<forall>k. calm (turns k)" "sd_error sd (utf ''handshake required'') = Some refusal" "length refusal < 2 ^ 32"
    and "list_all (\<lambda>(t, payload). is_known t \<and> t \<noteq> HELLO \<and> length payload \<le> PRE_HANDSHAKE_MAX_PAYLOAD) early"
    and "cn_handshaked c = None"
  shows "serve_loop s sd turns k (wire_frames early @ rest) c
    = serve_loop s sd turns (k + length early) rest (c\<lparr>cn_sent := cn_sent c @ replicate (length early) (ERROR, refusal)\<rparr>)"
  using assms(4,5)
proof (induction early arbitrary: k c)
  case (Cons f early)
  obtain t payload where f: "f = (t, payload)" by fastforce
  have known: "is_known t" "t \<noteq> HELLO" "length payload \<le> payload_cap c" using Cons.prems by (simp_all add: f payload_cap_def)
  have "handle_frame s sd (turns k) t payload c = (Again, c\<lparr>cn_sent := cn_sent c @ [(ERROR, refusal)]\<rparr>)"
    using assms(1-3) known(2) Cons.prems(2)
    by (simp add: handle_frame_def on_early_frame_def error_frame_body_def ok_or_def write_calm) (simp add: calm_def)
  with serve_loop_calm [of turns k t payload c] assms(1) known Cons show ?case by (simp add: f)
qed simp

lemma screenshots_accepted:
  assumes "\<forall>k. calm (turns k)" "cn_handshaked c \<noteq> None"
    and "list_all (\<lambda>(seq, jpeg). SCREENSHOT_SEQ_LEN + length jpeg \<le> MAX_PAYLOAD_LEN) shots"
  shows "serve_loop s sd turns k (wire_frames (map (\<lambda>(seq, jpeg). (SCREENSHOT, encode_screenshot seq jpeg)) shots)) c
    = (Inr (), c\<lparr>cn_accepted := cn_accepted c
        @ map (\<lambda>(seq, jpeg). SandboxEvent.ScreenshotReceived \<lparr>sfr_seq = seq, sfr_jpeg = jpeg\<rparr>) shots\<rparr>)"
  using assms(2,3)
proof (induction shots arbitrary: k c)
  case (Cons f shots)
  obtain seq jpeg where f: "f = (seq, jpeg)" by fastforce
  let ?c = "c\<lparr>cn_accepted := cn_accepted c @ [SandboxEvent.ScreenshotReceived \<lparr>sfr_seq = seq, sfr_jpeg = jpeg\<rparr>]\<rparr>"
  have "handle_frame s sd (turns k) SCREENSHOT (encode_screenshot seq jpeg) c = (Again, ?c)"
    using Cons.prems(1)
    by (auto simp: handle_frame_def on_screenshot_def message_type_defs decode_screenshot_def encode_screenshot_def
          SCREENSHOT_SEQ_LEN_def try_into_def from_to_le_bytes)
  moreover have "length (encode_screenshot seq jpeg) \<le> payload_cap c" "is_known SCREENSHOT"
    using Cons.prems by (auto simp: f payload_cap_def encode_screenshot_def SCREENSHOT_SEQ_LEN_def is_known_def)
  ultimately show ?case
    using serve_loop_calm [of turns k SCREENSHOT "encode_screenshot seq jpeg" c] assms(1) Cons by (simp add: f)
qed (simp add: assms(1) serve_loop_end)

text \<open>
  A good client is served. When nothing fails outside, a client that first sends any frames but
  \<open>HELLO\<close>, then the right \<open>HELLO\<close>, then screenshots, gets one refusal per early frame, the
  \<open>WELCOME\<close> with the session's configuration and nothing else; every screenshot enters the
  pipeline, in order, and the connection ends cleanly.
\<close>

lemma good_client_run:
  assumes "\<forall>k. calm (turns k)"
    and "early = [] \<or> sd_error sd (utf ''handshake required'') = Some refusal \<and> length refusal < 2 ^ 32"
    and "list_all (\<lambda>(t, payload). is_known t \<and> t \<noteq> HELLO \<and> length payload \<le> PRE_HANDSHAKE_MAX_PAYLOAD) early"
    and "sd_hello sd proof_of_nonce = Some hello" "hello_ok s (turns (length early)) hello"
    and "length proof_of_nonce \<le> PRE_HANDSHAKE_MAX_PAYLOAD"
    and "sd_welcome sd (cl_welcome s) = Some welcome" "length welcome < 2 ^ 32"
    and "list_all (\<lambda>(seq, jpeg). SCREENSHOT_SEQ_LEN + length jpeg \<le> MAX_PAYLOAD_LEN) shots"
    and "bytes = wire_frames (early @ (HELLO, proof_of_nonce)
            # map (\<lambda>(seq, jpeg). (SCREENSHOT, encode_screenshot seq jpeg)) shots)"
  shows "\<exists>c. serve s sd turns bytes (connected w) = (Inr (), c)
    \<and> cn_sent c = replicate (length early) (ERROR, refusal) @ [(WELCOME, welcome)]
    \<and> cn_accepted c = map (\<lambda>(seq, jpeg). SandboxEvent.ScreenshotReceived \<lparr>sfr_seq = seq, sfr_jpeg = jpeg\<rparr>) shots
    \<and> cn_handshaked c = Some (hl_module_version hello)"
proof -
  let ?k = "length early" and ?c0 = "connected w"
  let ?shots = "wire_frames (map (\<lambda>(seq, jpeg). (SCREENSHOT, encode_screenshot seq jpeg)) shots)"
  define c1 where "c1 = ?c0\<lparr>cn_sent := replicate ?k (ERROR, refusal)\<rparr>"
  define c2 where "c2 = c1\<lparr>cn_handshaked := Some (hl_module_version hello),
    cn_world := publish_user_actor_started s (hl_module_version hello)
      (if tn_pid (turns ?k) \<noteq> 0 then Some (tn_pid (turns ?k)) else None) w,
    cn_sent := cn_sent c1 @ [(WELCOME, welcome)]\<rparr>"
  have "serve_loop s sd turns 0 bytes ?c0
      = serve_loop s sd turns ?k (the (send_frame HELLO proof_of_nonce) @ ?shots) c1"
    using assms(2) early_frames_refused [OF assms(1) _ _ assms(3), of sd refusal ?c0 s 0 "the (send_frame HELLO proof_of_nonce) @ ?shots"]
    by (auto simp: assms(10) c1_def connected_def)
  also have "\<dots> = serve_loop s sd turns (Suc ?k) ?shots c2"
  proof -
    have "handle_frame s sd (turns ?k) HELLO proof_of_nonce c1 = (Again, c2)"
      using assms(1,4,5,7,8)
      by (simp add: handle_frame_def on_hello_def send_welcome_def welcome_body_def ok_or_def write_calm finish_or_def
            c1_def c2_def connected_def Let_def)
    then show ?thesis
      using serve_loop_calm [of turns ?k HELLO proof_of_nonce c1 s sd ?shots] assms(1,6)
      by (simp add: is_known_def payload_cap_def c1_def connected_def)
  qed
  also have "\<dots> = (Inr (), c2\<lparr>cn_accepted := map (\<lambda>(seq, jpeg). SandboxEvent.ScreenshotReceived \<lparr>sfr_seq = seq, sfr_jpeg = jpeg\<rparr>) shots\<rparr>)"
    using screenshots_accepted [OF assms(1) _ assms(9), of c2 s sd "Suc ?k"] by (simp add: c2_def c1_def connected_def)
  finally show ?thesis by (auto simp: serve_def c2_def c1_def)
qed

subsection \<open>The accept loop\<close>

text \<open>
  \<open>run\<close> and the tasks it spawns: the permits taken (one per connection being served), the connections
  that were dropped at the cap, and whether the server was stopped. A pipe instance is always listening until
  the stop, so the outside decides at each step which of the events happens.
\<close>

definition MAX_CONCURRENT_CLIENTS :: nat where "MAX_CONCURRENT_CLIENTS = 16"

record Server =
  sv_live :: nat
  sv_dropped :: nat
  sv_stopped :: bool

datatype AcceptEvent = ClientConnects | ConnectFails | TaskEnds | StopRequested

definition server_new :: Server where
  "server_new = \<lparr>sv_live = 0, sv_dropped = 0, sv_stopped = False\<rparr>"

inductive server_step :: "Server \<Rightarrow> AcceptEvent \<Rightarrow> Server \<Rightarrow> bool" where
  accepted: "\<not> sv_stopped s \<Longrightarrow> sv_live s < MAX_CONCURRENT_CLIENTS
    \<Longrightarrow> server_step s ClientConnects (s\<lparr>sv_live := sv_live s + 1\<rparr>)"
| surplus: "\<not> sv_stopped s \<Longrightarrow> \<not> sv_live s < MAX_CONCURRENT_CLIENTS
    \<Longrightarrow> server_step s ClientConnects (s\<lparr>sv_dropped := sv_dropped s + 1\<rparr>)"
| rebuilt: "\<not> sv_stopped s \<Longrightarrow> server_step s ConnectFails s"
| ended: "0 < sv_live s \<Longrightarrow> server_step s TaskEnds (s\<lparr>sv_live := sv_live s - 1\<rparr>)"
| stopped: "server_step s StopRequested (s\<lparr>sv_stopped := True\<rparr>)"

inductive_cases connectsE: "server_step s ClientConnects s'"

inductive server_run :: "Server \<Rightarrow> AcceptEvent list \<Rightarrow> Server \<Rightarrow> bool" where
  idle: "server_run s [] s"
| more_steps: "server_run s evs s' \<Longrightarrow> server_step s' ev s'' \<Longrightarrow> server_run s (evs @ [ev]) s''"

lemma server_run_counts:
  "server_run s evs s' \<Longrightarrow> s = server_new \<Longrightarrow>
     sv_live s' \<le> MAX_CONCURRENT_CLIENTS
     \<and> sv_live s' + count_list evs TaskEnds + sv_dropped s' = count_list evs ClientConnects"
proof (induction rule: server_run.induct)
  case (more_steps s evs s' ev s'')
  from more_steps.hyps(2) more_steps.IH [OF more_steps.prems] show ?case
    by (cases rule: server_step.cases) auto
qed (simp add: server_new_def)

text \<open>
  Bounded connections. However clients connect, fail, leave or are cut off, at most sixteen
  connections are served at a time, and none is lost count of: every client that connected is being
  served, has been served, or was dropped at the cap. A client that connects while one of the sixteen
  places is free is served.
\<close>

lemma connections_bounded:
  assumes "server_run server_new evs s"
  shows "sv_live s \<le> 16
    \<and> sv_live s + count_list evs TaskEnds + sv_dropped s = count_list evs ClientConnects
    \<and> (\<forall>s'. server_step s ClientConnects s' \<and> sv_live s < 16 \<longrightarrow> sv_live s' = sv_live s + 1)"
  using server_run_counts [OF assms refl]
  by (auto simp: MAX_CONCURRENT_CLIENTS_def elim!: connectsE)

end
