(* ===== verification/Scheduler.thy ===== *)
theory Scheduler
  imports Agent_World
begin

text \<open>
  The time-driven source (\<^verbatim>\<open>crates/agent/src/adapters/driving/scheduler.rs\<close>): the control heartbeat,
  the periodic ticks and the session deadline. Time is counted in whole seconds since the scheduler
  started; a timer of period \<open>p\<close> fires at once and then every \<open>p\<close> seconds. The four tasks are raced by
  one biased \<open>select!\<close>, so at the same second they run in source order, and the first task that
  returns (only the deadline task does) ends them all.
\<close>

definition KEEPALIVE_PERIOD_SECS :: u64 where "KEEPALIVE_PERIOD_SECS = 15"
definition PERSIST_PERIOD_SECS :: u64 where "PERSIST_PERIOD_SECS = 15"
definition STATS_PERIOD_SECS :: u64 where "STATS_PERIOD_SECS = 60"

lemmas period_defs = KEEPALIVE_PERIOD_SECS_def PERSIST_PERIOD_SECS_def STATS_PERIOD_SECS_def

definition scheduled_secs :: "ScopeState \<Rightarrow> u64 option" where
  "scheduled_secs state = (case current_session state of None \<Rightarrow> None | Some s \<Rightarrow> ses_scheduled_duration_secs s)"

definition keepalive_tick :: "World \<Rightarrow> World" where
  "keepalive_tick w =
     (case identity (w_scope w) of (study_id, session_id) \<Rightarrow>
      case now_ms w of (now, w) \<Rightarrow>
        send Control (\<lambda>q. envelope_raw now q study_id session_id EventType.ControlKeepalive
          (Payload.ControlKeepalive ControlKeepaliveData)) w)"

text \<open>What the tasks do: a heartbeat on the wire, or an event into the pipeline.\<close>

datatype SchedulerAction = Keepalive | Inlet SandboxEvent

definition timer_fires :: "u64 \<Rightarrow> nat \<Rightarrow> bool" where
  "timer_fires period t \<longleftrightarrow> t mod unat period = 0"

definition keepalive_loop :: "nat \<Rightarrow> SchedulerAction list" where
  "keepalive_loop t = (if timer_fires KEEPALIVE_PERIOD_SECS t then [Keepalive] else [])"

definition persist_loop :: "nat \<Rightarrow> SchedulerAction list" where
  "persist_loop t = (if timer_fires PERSIST_PERIOD_SECS t then [Inlet PersistTick] else [])"

definition stats_loop :: "nat \<Rightarrow> SchedulerAction list" where
  "stats_loop t = (if timer_fires STATS_PERIOD_SECS t then [Inlet StatsTick] else [])"

definition deadline_task :: "u64 option \<Rightarrow> nat \<Rightarrow> SchedulerAction list" where
  "deadline_task scheduled t =
     (case scheduled of None \<Rightarrow> [] | Some secs \<Rightarrow> if t = unat secs then [Inlet SessionDeadline] else [])"

definition at_second :: "u64 option \<Rightarrow> nat \<Rightarrow> SchedulerAction list" where
  "at_second scheduled t = keepalive_loop t @ persist_loop t @ stats_loop t @ deadline_task scheduled t"

text \<open>The run until it is stopped at second \<open>stop\<close> (its timers of that second no longer fire).\<close>

definition scheduler_run :: "u64 option \<Rightarrow> nat \<Rightarrow> SchedulerAction list" where
  "scheduler_run scheduled stop =
     concat (map (at_second scheduled) [0..<(case scheduled of None \<Rightarrow> stop | Some secs \<Rightarrow> min stop (Suc (unat secs)))])"

subsection \<open>Counting\<close>

lemma count_concat: "count_list (concat xss) x = sum_list (map (\<lambda>xs. count_list xs x) xss)"
  by (induction xss) simp_all

lemma multiples_below:
  assumes "0 < p"
  shows "sum_list (map (\<lambda>t. if t mod p = 0 then 1 else 0 :: nat) [0..<n]) = (n + p - 1) div p"
proof (induction n)
  case (Suc n)
  have "(Suc n + p - 1) div p = (n + p - 1) div p + (if n mod p = 0 then 1 else 0)"
  proof -
    have "Suc (n + p - 1) = n + p" using assms by simp
    with div_Suc [of "n + p - 1" p] show ?thesis using assms by (auto simp: mod_add_self2)
  qed
  with Suc show ?case by simp
qed (use assms in simp)

lemma unat_u64_bound: "unat (x :: u64) < 2 ^ 64"
  using unsigned_less [of x] by simp

lemma at_second_counts:
  "count_list (at_second scheduled t) Keepalive = (if t mod 15 = 0 then 1 else 0)"
  "count_list (at_second scheduled t) (Inlet PersistTick) = (if t mod 15 = 0 then 1 else 0)"
  "count_list (at_second scheduled t) (Inlet StatsTick) = (if t mod 60 = 0 then 1 else 0)"
  "count_list (at_second scheduled t) (Inlet SessionDeadline) = (if scheduled = Some (of_nat t) \<and> t < 2 ^ 64 then 1 else 0)"
  using unat_u64_bound [of "the scheduled"]
  by (auto simp: at_second_def keepalive_loop_def persist_loop_def stats_loop_def deadline_task_def timer_fires_def period_defs
        take_bit_nat_eq_self unat_of_nat split: option.splits)

lemma single_second:
  "sum_list (map (\<lambda>t. if t = d then 1 else 0 :: nat) [0..<n]) = (if d < n then 1 else 0)"
  by (induction n) auto

definition lifetime :: "u64 option \<Rightarrow> nat \<Rightarrow> nat" where
  "lifetime scheduled stop = (case scheduled of None \<Rightarrow> stop | Some secs \<Rightarrow> min stop (Suc (unat secs)))"

lemma scheduler_count:
  "count_list (scheduler_run scheduled stop) x
     = sum_list (map (\<lambda>t. count_list (at_second scheduled t) x) [0..<lifetime scheduled stop])"
  by (simp add: scheduler_run_def lifetime_def count_concat comp_def)

lemma scheduler_ticks:
  "count_list (scheduler_run scheduled stop) Keepalive = (lifetime scheduled stop + 14) div 15"
  "count_list (scheduler_run scheduled stop) (Inlet PersistTick) = (lifetime scheduled stop + 14) div 15"
  "count_list (scheduler_run scheduled stop) (Inlet StatsTick) = (lifetime scheduled stop + 59) div 60"
  using multiples_below [of 15 "lifetime scheduled stop"] multiples_below [of 60 "lifetime scheduled stop"]
  by (simp_all add: scheduler_count at_second_counts add.commute)

lemma scheduler_deadline:
  "count_list (scheduler_run scheduled stop) (Inlet SessionDeadline)
     = (case scheduled of None \<Rightarrow> 0 | Some secs \<Rightarrow> if unat secs < stop then 1 else 0)"
proof (cases scheduled)
  case (Some secs)
  have at: "(Some secs = Some (of_nat t) \<and> t < 2 ^ 64) = (t = unat secs)" for t
    using unat_u64_bound [of secs] by (auto simp: unat_of_nat take_bit_nat_eq_self)
  show ?thesis
    unfolding Some scheduler_count at_second_counts at single_second by (simp add: lifetime_def)
qed (simp add: scheduler_count at_second_counts)

lemma scheduler_last:
  "unat secs < stop \<Longrightarrow> last (scheduler_run (Some secs) stop) = Inlet SessionDeadline"
  by (simp add: scheduler_run_def at_second_def deadline_task_def min_absorb2 Suc_le_eq)

text \<open>
  The session's clockwork. A session with a scheduled uptime that is not stopped before gets its
  deadline exactly once, at that second and as the scheduler's last action, and one stopped before,
  or without a schedule, gets none. As long as the scheduler runs, heartbeats and persist ticks come
  every 15 seconds and statistics every 60, starting at once.
\<close>

theorem scheduler_counts:
  "count_list (scheduler_run scheduled stop) (Inlet SessionDeadline)
     = (case scheduled of None \<Rightarrow> 0 | Some secs \<Rightarrow> if unat secs < stop then 1 else 0)
   \<and> (case scheduled of None \<Rightarrow> True
        | Some secs \<Rightarrow> if unat secs < stop then last (scheduler_run scheduled stop) = Inlet SessionDeadline else True)
   \<and> count_list (scheduler_run scheduled stop) Keepalive = (lifetime scheduled stop + 14) div 15
   \<and> count_list (scheduler_run scheduled stop) (Inlet PersistTick) = (lifetime scheduled stop + 14) div 15
   \<and> count_list (scheduler_run scheduled stop) (Inlet StatsTick) = (lifetime scheduled stop + 59) div 60"
  by (simp only: scheduler_deadline scheduler_ticks) (simp add: scheduler_last split: option.split)

lemma gapless_keepalive: "gapless w (keepalive_tick w)"
  unfolding keepalive_tick_def
  by (auto split: prod.splits intro!: gapless_trans [OF gapless_now gapless_send])

lemma keepalive_scope: "w_scope (keepalive_tick w) = w_scope w"
  by (auto simp: keepalive_tick_def effect_simps dest: now_ms_effect split: prod.splits)

interpretation scheduler: publisher "\<lambda>_ :: unit. keepalive_tick"
  by unfold_locales (rule gapless_keepalive)

end
