(* ===== verification/Agent.thy ===== *)
theory Agent
  imports Kernel_Service Session_Manager Scope_Tracker_Plugin Event_Reporter Drops_Collector Launchers
    Ipc_Server Scheduler
begin

text \<open>
  The assembled agent (\<^verbatim>\<open>crates/agent/src/app/builder.rs\<close>): the nine plugins over one shared world,
  their lifecycle hooks, the middleware order, and the tasks the plugins spawn. The kernel, the bus
  consumers and the queue workers interleave; a hook, a received bus event and a job are one step
  each. What the tracker's subscription yields when it is drained and what a queue answers to a
  submission are arbitrary sequences.
\<close>

record AgentBuild =
  ab_config :: AgentConfig
  ab_agent_version :: rstr
  ab_lc :: "rstr \<Rightarrow> rstr"          \<comment> \<open>\<open>to_lowercase\<close>\<close>
  ab_sha256 :: "u8 list \<Rightarrow> u8 list"
  ab_resolve :: "rstr \<Rightarrow> rstr option"   \<comment> \<open>the association port\<close>
  ab_exe_dir :: "rstr option"
  ab_nonce :: rstr

record Agent =
  ag_world :: World
  ag_session :: SessionManagerPlugin
  ag_tracker :: ScopeTrackerPlugin
  ag_reporting :: bool
  ag_collector :: CollectorInner
  ag_collecting :: bool
  ag_drops_dropped :: u64
  ag_drop_jobs :: "rstr list"
  ag_intake :: ScreenshotIntake
  ag_launcher :: TargetLauncher
  ag_supervisor :: Supervisor
  ag_pid_gate :: u32
  ag_scoring :: Scoring
  ag_scoring_on :: bool
  ag_statistics :: SessionStatistics
  ag_counting :: bool
  ag_received :: "nat \<Rightarrow> Received list"
  ag_drains :: nat
  ag_try_send :: "nat \<Rightarrow> TrySend"
  ag_sends :: nat

definition load_scope_state :: "'e + ScopeState \<Rightarrow> Uuid \<Rightarrow> 'e + ScopeState" where
  "load_scope_state loaded fresh_id =
     bind_r loaded (\<lambda>state. Inr (if sst_study_id state = 0 then state\<lparr>sst_study_id := fresh_id\<rparr> else state))"

definition target_image_name :: "(rstr \<Rightarrow> rstr) \<Rightarrow> AgentConfig \<Rightarrow> rstr" where
  "target_image_name lc config = lc (image_name (tg_path (ac_target config)))"

definition session_manager_deps :: "AgentBuild \<Rightarrow> SessionManagerDeps" where
  "session_manager_deps b = (let config = ab_config b in
     \<lparr>smd_processes_to_terminate = sy_processes_to_terminate (ac_study config), smd_uptimes = sy_uptimes (ac_study config),
      smd_autoshutdown = sy_autoshutdown (ac_study config), smd_time = ac_time config,
      smd_shutdown_delay_secs = pf_shutdown_delay_secs (ac_platform config),
      smd_skip_time_manipulation = db_skip_time_manipulation (ac_debug config),
      smd_skip_reboot_and_shutdown = db_skip_reboot_and_shutdown (ac_debug config),
      smd_agent_version = ab_agent_version b\<rparr>)"

definition score_weights :: "ScoringConfig \<Rightarrow> ScoreWeights" where
  "score_weights config = \<lparr>wt_cli_started = sgc_cli_started config, wt_drop_observed = sgc_drop_observed config,
     wt_run_key_set = sgc_run_key_set config, wt_chain_injection = sgc_chain_injection config,
     wt_chain_ransomware = sgc_chain_ransomware config\<rparr>"

subsection \<open>Lifecycle hooks\<close>

definition session_manager_plugin :: "AgentBuild \<Rightarrow> (Agent, unit) PluginPort" where
  "session_manager_plugin b = \<lparr>pl_name = utf ''session-manager'',
     pl_init = (\<lambda>a. (Inr (), a\<lparr>ag_world := open_session_if_needed (session_manager_deps b) (ag_world a)\<rparr>)),
     pl_start = (\<lambda>a. case smp_start (session_manager_deps b) (ag_session a) (ag_world a) of (p, w) \<Rightarrow>
        (Inr (), a\<lparr>ag_session := p, ag_world := w\<rparr>)),
     pl_stop = (\<lambda>a. (Inr (), a\<lparr>ag_session := (ag_session a)\<lparr>smp_consuming := False\<rparr>\<rparr>))\<rparr>"

definition tracker_plugin :: "AgentBuild \<Rightarrow> (Agent, unit) PluginPort" where
  "tracker_plugin b = \<lparr>pl_name = utf ''scope-tracker'', pl_init = default_hook,
     pl_start = (\<lambda>a. (Inr (), a\<lparr>ag_tracker := stp_start (ab_lc b) (ag_tracker a) (ag_world a)\<rparr>)),
     pl_stop = default_hook\<rparr>"

definition reporter_plugin :: "(Agent, unit) PluginPort" where
  "reporter_plugin = \<lparr>pl_name = utf ''event-reporter'', pl_init = default_hook,
     pl_start = (\<lambda>a. (Inr (), a\<lparr>ag_reporting := True\<rparr>)), pl_stop = (\<lambda>a. (Inr (), a\<lparr>ag_reporting := False\<rparr>))\<rparr>"

definition collector_plugin :: "(Agent, unit) PluginPort" where
  "collector_plugin = \<lparr>pl_name = utf ''drops-collector'', pl_init = default_hook,
     pl_start = (\<lambda>a. (Inr (), a\<lparr>ag_collecting := True\<rparr>)), pl_stop = (\<lambda>a. (Inr (), a\<lparr>ag_collecting := False\<rparr>))\<rparr>"

definition intake_plugin :: "(Agent, unit) PluginPort" where
  "intake_plugin = \<lparr>pl_name = utf ''screenshot-intake'', pl_init = default_hook,
     pl_start = (\<lambda>a. (Inr (), a\<lparr>ag_intake := (ag_intake a)\<lparr>sii_started := True\<rparr>\<rparr>)),
     pl_stop = (\<lambda>a. (Inr (), a\<lparr>ag_intake := (ag_intake a)\<lparr>sii_started := False\<rparr>\<rparr>))\<rparr>"

definition launcher_plugin :: "(Agent, unit) PluginPort" where
  "launcher_plugin = \<lparr>pl_name = utf ''target-launcher'', pl_init = default_hook,
     pl_start = (\<lambda>a. (Inr (), a\<lparr>ag_launcher := (ag_launcher a)\<lparr>tlp_started := True\<rparr>\<rparr>)),
     pl_stop = (\<lambda>a. (Inr (), a\<lparr>ag_launcher := (ag_launcher a)\<lparr>tlp_started := False\<rparr>\<rparr>))\<rparr>"

definition supervisor_plugin :: "(Agent, unit) PluginPort" where
  "supervisor_plugin = \<lparr>pl_name = utf ''user-actor-supervisor'', pl_init = default_hook,
     pl_start = (\<lambda>a. (Inr (), a\<lparr>ag_supervisor := (ag_supervisor a)\<lparr>sup_started := True\<rparr>\<rparr>)),
     pl_stop = (\<lambda>a. (Inr (), a\<lparr>ag_supervisor := (ag_supervisor a)\<lparr>sup_started := False\<rparr>\<rparr>))\<rparr>"

text \<open>The chain detector is created by the consumer task, the maximum by the plugin.\<close>

definition scoring_plugin :: "(Agent, unit) PluginPort" where
  "scoring_plugin = \<lparr>pl_name = utf ''scoring'', pl_init = default_hook,
     pl_start = (\<lambda>a. (Inr (), a\<lparr>ag_scoring := (ag_scoring a)\<lparr>sg_detector := empty_detector\<rparr>, ag_scoring_on := True\<rparr>)),
     pl_stop = (\<lambda>a. (Inr (), a\<lparr>ag_scoring_on := False\<rparr>))\<rparr>"

definition statistics_plugin :: "(Agent, unit) PluginPort" where
  "statistics_plugin = \<lparr>pl_name = utf ''statistics'', pl_init = default_hook,
     pl_start = (\<lambda>a. (Inr (), a\<lparr>ag_counting := True\<rparr>)), pl_stop = (\<lambda>a. (Inr (), a\<lparr>ag_counting := False\<rparr>))\<rparr>"

definition plugins :: "AgentBuild \<Rightarrow> (Agent, unit) PluginPort list" where
  "plugins b = [session_manager_plugin b, tracker_plugin b, reporter_plugin, collector_plugin, intake_plugin,
     launcher_plugin, supervisor_plugin, scoring_plugin, statistics_plugin]"

subsection \<open>Middleware\<close>

text \<open>Every hook of the agent continues; only the intake rewrites the event.\<close>

definition observer :: "rstr \<Rightarrow> (SandboxEvent \<Rightarrow> Agent \<Rightarrow> SandboxEvent \<times> Agent) \<Rightarrow> (SandboxEvent, Agent) MiddlewarePluginPort" where
  "observer name f = \<lparr>mw_name = name, mw_pre = (\<lambda>ev a. (Continue, f ev a)), mw_post = default_post\<rparr>"

definition session_manager_pre :: "AgentBuild \<Rightarrow> SandboxEvent \<Rightarrow> Agent \<Rightarrow> SandboxEvent \<times> Agent" where
  "session_manager_pre b ev a =
     (case smp_pre (ab_lc b) (session_manager_deps b) ev (ag_session a) (ag_world a) of (p, w) \<Rightarrow>
        (ev, a\<lparr>ag_session := p, ag_world := w\<rparr>))"

definition tracker_pre :: "AgentBuild \<Rightarrow> SandboxEvent \<Rightarrow> Agent \<Rightarrow> SandboxEvent \<times> Agent" where
  "tracker_pre b ev a =
     (case stp_pre (ab_lc b) (ag_received a (ag_drains a), ev) (ag_tracker a) (ag_world a) of (p, w) \<Rightarrow>
        (ev, a\<lparr>ag_tracker := p, ag_world := w, ag_drains := Suc (ag_drains a)\<rparr>))"

definition event_reporter_pre :: "AgentBuild \<Rightarrow> SandboxEvent \<Rightarrow> Agent \<Rightarrow> SandboxEvent \<times> Agent" where
  "event_reporter_pre b ev a =
     (ev, a\<lparr>ag_world := reporter_pre (bk_verbosity (ac_broker (ab_config b))) ev (ag_world a)\<rparr>)"

definition screenshot_pre :: "AgentBuild \<Rightarrow> SandboxEvent \<Rightarrow> Agent \<Rightarrow> SandboxEvent \<times> Agent" where
  "screenshot_pre b ev a =
     (case sip_pre (ua_screencapture (ac_user_actor (ab_config b))) (ac_screenshots (ab_config b))
             (ag_try_send a (ag_sends a)) ev (ag_intake a) (ag_world a) of (ev, p, w) \<Rightarrow>
        (ev, a\<lparr>ag_intake := p, ag_world := w, ag_sends := Suc (ag_sends a)\<rparr>))"

definition target_launcher_pre :: "AgentBuild \<Rightarrow> SandboxEvent \<Rightarrow> Agent \<Rightarrow> SandboxEvent \<times> Agent" where
  "target_launcher_pre b ev a =
     (ev, a\<lparr>ag_launcher := tlp_pre (ab_config b) (ag_try_send a (ag_sends a)) ev (ag_launcher a) (ag_world a),
            ag_sends := Suc (ag_sends a)\<rparr>)"

definition supervisor_pre :: "AgentBuild \<Rightarrow> SandboxEvent \<Rightarrow> Agent \<Rightarrow> SandboxEvent \<times> Agent" where
  "supervisor_pre b ev a =
     (ev, a\<lparr>ag_supervisor := sup_pre (ab_config b) (ab_exe_dir b) (ab_nonce b) (ag_try_send a (ag_sends a)) ev (ag_supervisor a),
            ag_sends := Suc (ag_sends a)\<rparr>)"

definition statistics_plugin_pre :: "SandboxEvent \<Rightarrow> Agent \<Rightarrow> SandboxEvent \<times> Agent" where
  "statistics_plugin_pre ev a = (ev, a\<lparr>ag_statistics := statistics_pre ev (ag_statistics a)\<rparr>)"

definition middleware :: "AgentBuild \<Rightarrow> (SandboxEvent, Agent) MiddlewarePluginPort list" where
  "middleware b =
     [observer (utf ''session-manager'') (session_manager_pre b), observer (utf ''scope-tracker'') (tracker_pre b),
      observer (utf ''event-reporter'') (event_reporter_pre b), observer (utf ''screenshot-intake'') (screenshot_pre b),
      observer (utf ''target-launcher'') (target_launcher_pre b), observer (utf ''user-actor-supervisor'') (supervisor_pre b),
      observer (utf ''statistics'') statistics_plugin_pre]"

text \<open>The freshly assembled agent over a world that holds the loaded scope state.\<close>

definition assemble :: "AgentBuild \<Rightarrow> (nat \<Rightarrow> Received list) \<Rightarrow> (nat \<Rightarrow> TrySend) \<Rightarrow> World \<Rightarrow> Agent" where
  "assemble b received try_send w = (let config = ab_config b in
     \<lparr>ag_world = w, ag_session = SessionManagerPlugin_new,
      ag_tracker = ScopeTrackerPlugin_new (target_image_name (ab_lc b) config) (tg_every_session (ac_target config))
        (DropFilter_new (ab_lc b) (drp_extensions (ac_drops config))),
      ag_reporting = False, ag_collector = CollectorInner_new, ag_collecting = False, ag_drops_dropped = 0, ag_drop_jobs = [],
      ag_intake = ScreenshotIntake_new, ag_launcher = TargetLauncher_new,
      ag_supervisor = \<lparr>sup_attempted = False, sup_started = False, sup_dropped = 0, sup_queued = []\<rparr>,
      ag_pid_gate = 0, ag_scoring = \<lparr>sg_detector = empty_detector, sg_max_score = 0\<rparr>, ag_scoring_on = False,
      ag_statistics = SessionStatistics_default, ag_counting = False,
      ag_received = received, ag_drains = 0, ag_try_send = try_send, ag_sends = 0\<rparr>)"

subsection \<open>Bus consumers\<close>

definition session_consumes :: "AgentBuild \<Rightarrow> AgentBusEvent \<Rightarrow> Agent \<Rightarrow> Agent" where
  "session_consumes b ev a =
     (case smp_consume (ab_lc b) (session_manager_deps b) ev (ag_session a) (ag_world a) of (p, w) \<Rightarrow>
        a\<lparr>ag_session := p, ag_world := w\<rparr>)"

definition reporter_consumes :: "AgentBusEvent \<Rightarrow> Agent \<Rightarrow> Agent" where
  "reporter_consumes ev a = (if ag_reporting a then a\<lparr>ag_world := publish_bus_event ev (ag_world a)\<rparr> else a)"

definition statistics_consumes :: "AgentBusEvent \<Rightarrow> Agent \<Rightarrow> Agent" where
  "statistics_consumes ev a =
     (if ag_counting a then a\<lparr>ag_statistics := statistics_consume ev (ag_statistics a)\<rparr> else a)"

definition scoring_consumes :: "AgentBuild \<Rightarrow> AgentBusEvent \<Rightarrow> Agent \<Rightarrow> Agent" where
  "scoring_consumes b ev a =
     (if ag_scoring_on a then
        (case scoring_consume (score_weights (ac_scoring (ab_config b))) ev (ag_scoring a) of (sc, out) \<Rightarrow>
           a\<lparr>ag_scoring := sc, ag_world := fold (\<lambda>e. perform (BusPublish e)) out (ag_world a)\<rparr>)
      else a)"

definition collector_consumes :: "AgentBusEvent \<Rightarrow> Agent \<Rightarrow> Agent" where
  "collector_consumes ev a =
     (if ag_collecting a then
        (case ev of
           AgentBusEvent.DropClosed path \<Rightarrow>
             (case submit (ag_try_send a (ag_sends a)) (ag_drops_dropped a) of (ok, dropped) \<Rightarrow>
                a\<lparr>ag_drops_dropped := dropped, ag_drop_jobs := ag_drop_jobs a @ (if ok then [path] else []),
                  ag_sends := Suc (ag_sends a)\<rparr>)
         | _ \<Rightarrow> a)
      else a)"

subsection \<open>Workers\<close>

definition collector_works :: "AgentBuild \<Rightarrow> DropIo \<Rightarrow> rstr \<Rightarrow> Agent \<Rightarrow> Agent" where
  "collector_works b io source a =
     (case collect_drop (ab_sha256 b) (ac_drops (ab_config b)) io source (ag_collector a) (ag_world a) of (inner, w) \<Rightarrow>
        a\<lparr>ag_collector := inner, ag_world := w\<rparr>)"

definition intake_works :: "AgentBuild \<Rightarrow> FrameIo \<Rightarrow> FrameJob \<Rightarrow> Agent \<Rightarrow> Agent" where
  "intake_works b io job a = a\<lparr>ag_world := process_frame (ac_screenshots (ab_config b)) io job (ag_world a)\<rparr>"

definition launcher_works :: "AgentBuild \<Rightarrow> u32 option option \<Rightarrow> Agent \<Rightarrow> Agent" where
  "launcher_works b outcome a = a\<lparr>ag_world := launch_flow (ab_resolve b) (ab_config b) outcome (ag_world a)\<rparr>"

definition supervisor_works :: "u32 option option \<Rightarrow> LaunchSpec \<Rightarrow> Agent \<Rightarrow> Agent" where
  "supervisor_works outcome spec a =
     (case launch_job outcome spec (ag_pid_gate a) (ag_world a) of (gate, w) \<Rightarrow> a\<lparr>ag_pid_gate := gate, ag_world := w\<rparr>)"

text \<open>
  One step of the running agent: the kernel accepts an event, a consumer receives an event that was
  published on the bus, a worker runs a job that was queued, the scheduler sends its heartbeat, or a
  pipe connection reports its handshake or its end; the last three share the sequence counter.
\<close>

inductive agent_step :: "AgentBuild \<Rightarrow> Agent \<Rightarrow> Agent \<Rightarrow> bool" for b where
  accepts: "agent_step b a (accept (middleware b) ev a)"
| session_bus: "ev \<in> set (bus_events (w_log (ag_world a))) \<Longrightarrow> agent_step b a (session_consumes b ev a)"
| reporter_bus: "ev \<in> set (bus_events (w_log (ag_world a))) \<Longrightarrow> agent_step b a (reporter_consumes ev a)"
| statistics_bus: "ev \<in> set (bus_events (w_log (ag_world a))) \<Longrightarrow> agent_step b a (statistics_consumes ev a)"
| scoring_bus: "ev \<in> set (bus_events (w_log (ag_world a))) \<Longrightarrow> agent_step b a (scoring_consumes b ev a)"
| collector_bus: "ev \<in> set (bus_events (w_log (ag_world a))) \<Longrightarrow> agent_step b a (collector_consumes ev a)"
| collector_job: "source \<in> set (ag_drop_jobs a) \<Longrightarrow> agent_step b a (collector_works b io source a)"
| intake_job: "job \<in> set (sii_queued (ag_intake a)) \<Longrightarrow> agent_step b a (intake_works b io job a)"
| launcher_job: "0 < tlp_queued (ag_launcher a) \<Longrightarrow> agent_step b a (launcher_works b outcome a)"
| supervisor_job: "spec \<in> set (sup_queued (ag_supervisor a)) \<Longrightarrow> agent_step b a (supervisor_works outcome spec a)"
| heartbeat: "agent_step b a (a\<lparr>ag_world := keepalive_tick (ag_world a)\<rparr>)"
| pipe_up: "agent_step b a (a\<lparr>ag_world := publish_user_actor_started s version pid (ag_world a)\<rparr>)"
| pipe_down: "agent_step b a (a\<lparr>ag_world := publish_user_actor_stopped s why (ag_world a)\<rparr>)"

subsection \<open>The scope under the plugins\<close>

lemma close_session_wf: "scope_wf trk state \<Longrightarrow> scope_wf trk (update_current (close_session now) state)"
  by (auto simp: scope_wf_def scope_simps observed_def close_session_def session_wf_def comp_def
        if_distrib [of spr_pid] intro!: sessions_wf_update_last cong: if_cong split: option.splits)

lemma finalize_scope:
  "w_scope (snd (finalize_session lc deps reason p w)) = w_scope w
   \<or> (\<exists>now. w_scope (snd (finalize_session lc deps reason p w)) = update_current (close_session now) (w_scope w))"
  by (auto simp: finalize_session_def Let_def now_ms_def finalize_tail_effect effect_simps split: option.splits)

lemma smp_pre_wf: "stp_wf t w \<Longrightarrow> stp_wf t (snd (smp_pre lc deps ev p w))"
proof -
  assume wf: "stp_wf t w"
  have "stp_wf t (snd (finalize_session lc deps reason p w))" for reason
    using wf finalize_scope [of lc deps reason p w] by (auto simp: stp_wf_def close_session_wf)
  with wf show ?thesis by (cases ev) (simp_all add: smp_pre_def stp_wf_def effect_simps)
qed

lemma smp_consume_wf: "stp_wf t w \<Longrightarrow> stp_wf t (snd (smp_consume lc deps ev p w))"
  using finalize_scope [of lc deps DeadScope p w]
  by (auto simp: smp_consume_def stp_wf_def close_session_wf split: AgentBusEvent.splits prod.splits)

lemma gapless_bus: "gapless w (perform (BusPublish ev) w)"
  by (rule gapless_perform) simp

lemma gapless_stp_pre: "gapless w (snd (stp_pre lc input p w))"
proof -
  have step: "gapless v (w\<lparr>w_reads := r\<rparr>)" if "gapless v w" for v w r
    using that by (rule gapless_trans) (rule gapless_same, simp_all)
  have scope: "gapless v (w\<lparr>w_scope := st\<rparr>)" if "gapless v w" for v w st
    using that by (rule gapless_trans) (rule gapless_scope)
  have bus: "gapless v (perform (BusPublish ev) w)" if "gapless v w" for v w ev
    using that by (rule gapless_trans) (rule gapless_bus)
  note defs = on_process_started_def on_process_stopped_def on_file_written_def on_behavior_call_def
    on_file_released_def now_ms_def Let_def
  have "gapless (snd (q, w)) (snd (handle_source lc source q w))" for source q
    by (rule handle_source_rule [where R = "\<lambda>s s'. gapless (snd s) (snd s')"])
       (auto simp: defs intro!: bus step scope split: prod.splits option.splits)
  then show ?thesis by (auto simp: stp_pre_def Let_def split: option.splits)
qed

text \<open>No plugin opens or removes a session after the boot.\<close>

lemma length_update_current [simp]: "length (sst_sessions (update_current f state)) = length (sst_sessions state)"
  by (simp add: update_current_def)

lemma scope_ops_length:
  "length (sst_sessions (snd (process_entered lc trk state pdata now))) = length (sst_sessions state)"
  "length (sst_sessions (snd (process_exited state sdata now))) = length (sst_sessions state)"
  "length (sst_sessions (snd (drop_observed lc state fdata fltr))) = length (sst_sessions state)"
  by (auto simp: process_entered_def process_exited_def drop_observed_def Let_def split: option.splits)

lemma stp_pre_length:
  "length (sst_sessions (w_scope (snd (stp_pre lc input p w)))) = length (sst_sessions (w_scope w))"
proof -
  note defs = on_process_started_def on_process_stopped_def on_file_written_def on_behavior_call_def
    on_file_released_def now_ms_def Let_def effect_simps
  have "length (sst_sessions (w_scope (snd (handle_source lc source q w)))) = length (sst_sessions (w_scope (snd (q, w))))"
    for source q
    using scope_ops_length
    by (intro handle_source_rule [where R = "\<lambda>s s'. length (sst_sessions (w_scope (snd s'))) = length (sst_sessions (w_scope (snd s)))"])
       (auto simp: defs split: prod.splits option.splits; metis snd_conv)+
  then show ?thesis by (auto simp: stp_pre_def Let_def split: option.splits)
qed

lemma finalize_length:
  "length (sst_sessions (w_scope (snd (finalize_session lc deps reason p w)))) = length (sst_sessions (w_scope w))"
  using finalize_scope [of lc deps reason p w] by auto

lemma smp_length:
  "length (sst_sessions (w_scope (snd (smp_pre lc deps ev p w)))) = length (sst_sessions (w_scope w))"
  "length (sst_sessions (w_scope (snd (smp_consume lc deps bev p w)))) = length (sst_sessions (w_scope w))"
  using finalize_length [of lc deps DeadScope p w] finalize_length [of lc deps Deadline p w]
    finalize_length [of lc deps InboundRequest p w]
  by (auto simp: smp_pre_def smp_consume_def effect_simps split: SandboxEvent.splits AgentBusEvent.splits prod.splits)

lemma quiet_scopes:
  "w_scope (reporter_pre verbosity ev w) = w_scope w"
  "w_scope (publish_bus_event bev w) = w_scope w"
  "w_scope (snd (snd (sip_pre en sconfig outcome ev si w))) = w_scope w"
  "w_scope (launch_flow resolve config loutcome w) = w_scope w"
  by (auto simp: reporter_pre_def publish_bus_event_def sip_pre_def launch_flow_def now_ms_def Let_def effect_simps
        split: SandboxEvent.splits AgentBusEvent.splits option.splits prod.splits sum.splits)

lemma collect_drop_scope: "w_scope (snd (collect_drop sha256 config io source inner w)) = w_scope w"
proof -
  obtain study session where i: "identity (w_scope w) = (study, session)" by fastforce
  obtain r inner' w' where p: "persist_copy sha256 config io source session inner w = (r, inner', w')"
    by (cases "persist_copy sha256 config io source session inner w") auto
  have "w_scope w' = w_scope w"
    using p by (auto simp: persist_copy_def copy_capped_def Let_def effect_simps simp del: utf_Cons
        split: if_splits option.splits prod.splits)
  then show ?thesis
    by (auto simp: collect_drop_def i p report_and_upload_def now_ms_def Let_def effect_simps split: option.splits)
qed

lemma process_frame_scope: "w_scope (process_frame config io job w) = w_scope w"
  by (auto simp: process_frame_def stage_frame_def now_ms_def Let_def effect_simps split: option.splits prod.splits)

subsection \<open>Invariant of the running agent\<close>

definition agent_inv :: "World \<Rightarrow> Agent \<Rightarrow> bool" where
  "agent_inv w0 a \<longleftrightarrow> stp_wf (ag_tracker a) (ag_world a) \<and> gapless w0 (ag_world a)
     \<and> length (sst_sessions (w_scope (ag_world a))) = length (sst_sessions (w_scope w0))"

text \<open>A step that leaves the tracker and the scope alone and keeps the numbering.\<close>

lemma agent_inv_step:
  "agent_inv w0 a \<Longrightarrow> ag_tracker a' = ag_tracker a \<Longrightarrow> w_scope (ag_world a') = w_scope (ag_world a)
   \<Longrightarrow> gapless (ag_world a) (ag_world a') \<Longrightarrow> agent_inv w0 a'"
  by (auto simp: agent_inv_def stp_wf_def intro: gapless_trans)

lemma gapless_bus_list: "gapless w (fold (\<lambda>e. perform (BusPublish e)) out w)
   \<and> w_scope (fold (\<lambda>e. perform (BusPublish e)) out w) = w_scope w"
proof (induction out arbitrary: w)
  case (Cons e out)
  have "gapless w (fold (\<lambda>e. perform (BusPublish e)) out (perform (BusPublish e) w))"
    using Cons by (blast intro: gapless_trans [OF gapless_bus])
  with Cons show ?case by (simp add: effect_simps)
qed simp

lemma session_manager_pre_inv: "agent_inv w0 a \<Longrightarrow> agent_inv w0 (snd (session_manager_pre b ev a))"
  using smp_pre_wf [of "ag_tracker a" "ag_world a" "ab_lc b" "session_manager_deps b" ev "ag_session a"]
    gapless_smp_pre [of "ag_world a" "ab_lc b" "session_manager_deps b" ev "ag_session a"]
    smp_length(1) [of "ab_lc b" "session_manager_deps b" ev "ag_session a" "ag_world a"]
  by (auto simp: session_manager_pre_def agent_inv_def intro: gapless_trans split: prod.splits)

lemma tracker_pre_inv: "agent_inv w0 a \<Longrightarrow> agent_inv w0 (snd (tracker_pre b ev a))"
  using stp_pre_wf [of "ag_tracker a" "ag_world a" "ab_lc b" "(ag_received a (ag_drains a), ev)"]
    gapless_stp_pre [of "ag_world a" "ab_lc b" "(ag_received a (ag_drains a), ev)" "ag_tracker a"]
    stp_pre_length [of "ab_lc b" "(ag_received a (ag_drains a), ev)" "ag_tracker a" "ag_world a"]
  by (auto simp: tracker_pre_def agent_inv_def intro: gapless_trans split: prod.splits)

lemma event_reporter_pre_inv: "agent_inv w0 a \<Longrightarrow> agent_inv w0 (snd (event_reporter_pre b ev a))"
  by (erule agent_inv_step) (simp_all add: event_reporter_pre_def quiet_scopes gapless_reporter_pre)

lemma screenshot_pre_inv: "agent_inv w0 a \<Longrightarrow> agent_inv w0 (snd (screenshot_pre b ev a))"
  using quiet_scopes(3) [of "ua_screencapture (ac_user_actor (ab_config b))" "ac_screenshots (ab_config b)"
      "ag_try_send a (ag_sends a)" ev "ag_intake a" "ag_world a"]
    gapless_sip_pre [of "ag_world a" "ua_screencapture (ac_user_actor (ab_config b))" "ac_screenshots (ab_config b)"
      "ag_try_send a (ag_sends a)" ev "ag_intake a"]
  by - (erule agent_inv_step, auto simp: screenshot_pre_def split: prod.splits)

lemma idle_pre_inv:
  "agent_inv w0 a \<Longrightarrow> agent_inv w0 (snd (target_launcher_pre b ev a))"
  "agent_inv w0 a \<Longrightarrow> agent_inv w0 (snd (supervisor_pre b ev a))"
  "agent_inv w0 a \<Longrightarrow> agent_inv w0 (snd (statistics_plugin_pre ev a))"
  by (simp_all add: agent_inv_def target_launcher_pre_def supervisor_pre_def statistics_plugin_pre_def)

lemma observer_hooks [simp]:
  "snd (snd (mw_pre (observer name f) ev a)) = snd (f ev a)" "mw_post (observer name f) ev a = (ev, a)"
  by (simp_all add: observer_def default_post_def)

lemma middleware_inv:
  assumes "m \<in> set (middleware b)" "agent_inv w0 a"
  shows "agent_inv w0 (snd (snd (mw_pre m ev a)))" "agent_inv w0 (snd (mw_post m ev a))"
  using assms by (auto simp: middleware_def session_manager_pre_inv tracker_pre_inv event_reporter_pre_inv
      screenshot_pre_inv idle_pre_inv simp del: utf_Cons)

interpretation agent_pipeline: pipeline_invariant "middleware b" "agent_inv w0" for b w0
  by unfold_locales (metis middleware_inv snd_conv)+

lemma consumers_inv:
  assumes "agent_inv w0 a"
  shows "agent_inv w0 (session_consumes b ev a)" "agent_inv w0 (reporter_consumes ev a)"
    "agent_inv w0 (statistics_consumes ev a)" "agent_inv w0 (scoring_consumes b ev a)" "agent_inv w0 (collector_consumes ev a)"
proof -
  show "agent_inv w0 (session_consumes b ev a)"
    using assms smp_consume_wf [of "ag_tracker a" "ag_world a" "ab_lc b" "session_manager_deps b" ev "ag_session a"]
      gapless_smp_consume [of "ag_world a" "ab_lc b" "session_manager_deps b" ev "ag_session a"]
      smp_length(2) [of "ab_lc b" "session_manager_deps b" ev "ag_session a" "ag_world a"]
    by (auto simp: session_consumes_def agent_inv_def intro: gapless_trans split: prod.splits)
  show "agent_inv w0 (reporter_consumes ev a)"
    using assms by (rule agent_inv_step) (simp_all add: reporter_consumes_def quiet_scopes gapless_publish_bus_event)
  show "agent_inv w0 (scoring_consumes b ev a)"
    using assms by (rule agent_inv_step) (simp_all add: scoring_consumes_def gapless_bus_list split: prod.splits)
  show "agent_inv w0 (statistics_consumes ev a)" "agent_inv w0 (collector_consumes ev a)"
    using assms by (simp_all add: agent_inv_def statistics_consumes_def collector_consumes_def split: AgentBusEvent.splits prod.splits)
qed

lemma workers_inv:
  assumes "agent_inv w0 a"
  shows "agent_inv w0 (collector_works b io source a)" "agent_inv w0 (intake_works b fio job a)"
    "agent_inv w0 (launcher_works b outcome a)" "agent_inv w0 (supervisor_works outcome spec a)"
proof -
  show "agent_inv w0 (collector_works b io source a)"
    using assms collect_drop_scope [of "ab_sha256 b" "ac_drops (ab_config b)" io source "ag_collector a" "ag_world a"]
      gapless_collect_drop [of "ag_world a" "ab_sha256 b" "ac_drops (ab_config b)" io source "ag_collector a"]
    by - (erule agent_inv_step, auto simp: collector_works_def split: prod.splits)
  show "agent_inv w0 (intake_works b fio job a)"
    using assms by (rule agent_inv_step) (simp_all add: intake_works_def process_frame_scope gapless_process_frame)
  show "agent_inv w0 (launcher_works b outcome a)"
    using assms by (rule agent_inv_step) (simp_all add: launcher_works_def quiet_scopes gapless_launch_flow)
  show "agent_inv w0 (supervisor_works outcome spec a)"
    using assms by (rule agent_inv_step) (simp_all add: supervisor_works_def launch_job_def effect_simps gapless_perform)
qed

lemma reports_inv:
  assumes "agent_inv w0 a"
  shows "agent_inv w0 (a\<lparr>ag_world := keepalive_tick (ag_world a)\<rparr>)"
    "agent_inv w0 (a\<lparr>ag_world := publish_user_actor_started s version pid (ag_world a)\<rparr>)"
    "agent_inv w0 (a\<lparr>ag_world := publish_user_actor_stopped s why (ag_world a)\<rparr>)"
  by (auto intro!: agent_inv_step [OF assms] simp: gapless_keepalive keepalive_scope gapless_started gapless_stopped publish_scope)

lemma agent_step_inv: "agent_step b a a' \<Longrightarrow> agent_inv w0 a \<Longrightarrow> agent_inv w0 a'"
  by (induction rule: agent_step.induct) (simp_all add: agent_pipeline.accept_keeps consumers_inv workers_inv reports_inv)

lemma agent_run_inv: "(agent_step b)\<^sup>*\<^sup>* a a' \<Longrightarrow> agent_inv w0 a \<Longrightarrow> agent_inv w0 a'"
  by (induction rule: rtranclp_induct) (simp_all add: agent_step_inv)

subsection \<open>Boot\<close>

lemmas plugin_defs = session_manager_plugin_def tracker_plugin_def reporter_plugin_def collector_plugin_def
  intake_plugin_def launcher_plugin_def supervisor_plugin_def scoring_plugin_def statistics_plugin_def

lemma agent_boots:
  assumes "smp_start (session_manager_deps b) SessionManagerPlugin_new (open_session_if_needed (session_manager_deps b) w) = (p, w')"
  shows "\<exists>a. boot (plugins b) (assemble b received try_send w) = (Inr (), a) \<and> ag_world a = w'
     \<and> ag_tracker a = stp_start (ab_lc b) (ag_tracker (assemble b received try_send w)) w'"
  using assms by (simp add: boot_def plugins_def plugin_defs default_hook_def assemble_def Let_def del: utf_Cons)

lemma gapless_smp_start: "gapless w (snd (smp_start deps p w)) \<and> w_scope (snd (smp_start deps p w)) = w_scope w"
proof -
  have sent: "gapless v (send Event (\<lambda>q. envelope_raw now q s i t d) u)" if "gapless v u" "payload_event_type d = t"
    for v u now s i t d by (rule gapless_trans [OF that(1) gapless_send]) (simp add: that(2))
  have now: "gapless v (w\<lparr>w_reads := r\<rparr>)" if "gapless v w" for v w r
    using that by (rule gapless_trans) (rule gapless_same, simp_all)
  have asked: "gapless v (perform e (w\<lparr>w_calls := r\<rparr>))" if "gapless v w" "published [e] = []" for v w r e
    using gapless_trans [OF that(1) gapless_trans [OF gapless_same gapless_perform [OF that(2)]]] by simp
  have study: "gapless w (apply_study_start_timestamp deps n s i w)
      \<and> w_scope (apply_study_start_timestamp deps n s i w) = w_scope w" for n s i
    by (auto simp: apply_study_start_timestamp_def Let_def now_ms_def ask_def effect_simps intro!: sent now asked)
  show ?thesis
    by (cases "current_session (w_scope w)") (auto simp: smp_start_def Let_def now_ms_def effect_simps study intro!: sent now)
qed

lemma agent_boot_inv:
  assumes "sessions_wf (sst_sessions (w_scope w))"
    and "boot (plugins b) (assemble b received try_send w) = (result, a)"
  shows "result = Inr ()" "agent_inv (open_session_if_needed (session_manager_deps b) w) a"
proof -
  let ?w = "open_session_if_needed (session_manager_deps b) w" and ?p = SessionManagerPlugin_new
  obtain p w' where start: "smp_start (session_manager_deps b) ?p ?w = (p, w')" by fastforce
  from agent_boots [OF this, of received try_send] assms(2) have r: "result = Inr ()" "ag_world a = w'"
    "ag_tracker a = stp_start (ab_lc b) (ag_tracker (assemble b received try_send w)) w'" by simp_all
  then show "result = Inr ()" by simp
  have "sessions_wf (update_last (stamp_abandoned (w_clock w (w_reads w))) (sst_sessions (w_scope w)))"
    using assms(1) by (rule sessions_wf_update_last) (simp add: stamp_abandoned_def session_wf_def)
  then have "sessions_wf (sst_sessions (w_scope ?w))"
    by (simp add: open_session_sessions sessions_wf_snoc) (simp add: new_session_def)
  moreover have "gapless ?w w'" "w_scope w' = w_scope ?w"
    using gapless_smp_start [of ?w "session_manager_deps b" ?p] start by simp_all
  ultimately show "agent_inv ?w a"
    by (simp add: agent_inv_def r stp_wf_def scope_wf_def stp_start_def assemble_def ScopeTrackerPlugin_new_def
          expect_def Let_def)
qed

text \<open>
  C1. The assembled agent keeps its promises under every interleaving. From any well-formed persisted
  study, booting the nine plugins succeeds and opens exactly one session; from then on, in whatever
  order the kernel accepts events, the bus consumers receive, the workers run jobs, heartbeats are sent
  and pipe clients come and go, and whatever the ports answer, the scope stays well-formed (session ids are their positions, each pid occurs
  once per session, closed drops were observed), no further session appears, and the envelopes
  published by all of them together carry consecutive sequence numbers, each once, with the
  payload its type names.
\<close>

theorem agent_runs_safely:
  assumes "sessions_wf (sst_sessions (w_scope w))" "w_log w = []"
    and "boot (plugins b) (assemble b received try_send w) = (result, a)" "(agent_step b)\<^sup>*\<^sup>* a a'"
  shows "result = Inr ()
    \<and> scope_wf (stp_tracker (ag_tracker a')) (w_scope (ag_world a'))
    \<and> length (sst_sessions (w_scope (ag_world a'))) = Suc (length (sst_sessions (w_scope w)))
    \<and> map env_seq (published (w_log (ag_world a')))
       = consecutive (w_seq w) (length (published (w_log (ag_world a'))))
    \<and> list_all well_typed (published (w_log (ag_world a')))"
proof (intro conjI)
  let ?w = "open_session_if_needed (session_manager_deps b) w"
  show "result = Inr ()" using agent_boot_inv(1) [OF assms(1,3)] .
  have inv: "agent_inv ?w a'" using agent_run_inv [OF assms(4)] agent_boot_inv(2) [OF assms(1,3)] .
  then show "scope_wf (stp_tracker (ag_tracker a')) (w_scope (ag_world a'))" by (simp add: agent_inv_def stp_wf_def)
  show "length (sst_sessions (w_scope (ag_world a'))) = Suc (length (sst_sessions (w_scope w)))"
    using inv by (simp add: agent_inv_def open_session_sessions)
  have "gapless ?w (ag_world a')" using inv by (simp add: agent_inv_def)
  then show "map env_seq (published (w_log (ag_world a')))
       = consecutive (w_seq w) (length (published (w_log (ag_world a'))))"
    "list_all well_typed (published (w_log (ag_world a')))"
    using assms(2) by (auto simp: gapless_def open_session_log)
qed

definition build0 :: AgentBuild where
  "build0 = \<lparr>ab_config = AgentConfig_default, ab_agent_version = utf ''0.1.0'', ab_lc = to_ascii_lowercase,
     ab_sha256 = (\<lambda>_. replicate 32 0), ab_resolve = (\<lambda>_. None), ab_exe_dir = None, ab_nonce = utf ''nonce''\<rparr>"

text \<open>A second boot, and the deadline of its session.\<close>

definition second_boot :: Agent where
  "second_boot = accept (middleware build0) SessionDeadline
     (snd (boot (plugins build0) (assemble build0 (\<lambda>_. []) (\<lambda>_. SendOk) world0)))"

lemma second_boot_reports:
  "length (published (w_log (snd (smp_start (session_manager_deps build0) SessionManagerPlugin_new
     (open_session_if_needed (session_manager_deps build0) world0))))) = 2"
  by (simp add: smp_start_def open_session_if_needed_def world0_def opened_def new_session_def current_session_def
        last_opt_def update_current_def update_last_def now_ms_def apply_study_start_timestamp_def Let_def effect_simps
        session_manager_deps_def build0_def)

theorem agent_runs_safely_witness:
  "map env_seq (published (w_log (ag_world (snd (boot (plugins build0) (assemble build0 (\<lambda>_. []) (\<lambda>_. SendOk) world0)))))) = [0, 1]
   \<and> length (sst_sessions (w_scope (ag_world second_boot))) = 2"
proof -
  let ?r = "boot (plugins build0) (assemble build0 (\<lambda>_. []) (\<lambda>_. SendOk) world0)"
  let ?s = "smp_start (session_manager_deps build0) SessionManagerPlugin_new (open_session_if_needed (session_manager_deps build0) world0)"
  have pre: "sessions_wf (sst_sessions (w_scope world0))" "w_log world0 = []"
    by (simp_all add: world0_def opened_def sessions_wf_def session_wf_def new_session_def u32_try_from_def)
  have boots: "boot (plugins build0) (assemble build0 (\<lambda>_. []) (\<lambda>_. SendOk) world0) = (fst ?r, snd ?r)" by simp
  have steps: "(agent_step build0)\<^sup>*\<^sup>* (snd ?r) second_boot"
    unfolding second_boot_def by (rule r_into_rtranclp) (rule accepts)
  have "?s = (fst ?s, snd ?s)" by simp
  from agent_boots [OF this, of "\<lambda>_. []" "\<lambda>_. SendOk"] have "ag_world (snd ?r) = snd ?s" by auto
  then have "length (published (w_log (ag_world (snd ?r)))) = 2" by (simp only: second_boot_reports)
  moreover have "length (sst_sessions (w_scope world0)) = 1" "w_seq world0 = 0" by (simp_all add: world0_def opened_def)
  ultimately show ?thesis
    using agent_runs_safely [OF pre boots rtranclp.rtrancl_refl] agent_runs_safely [OF pre boots steps]
    by (simp add: consecutive_def upt_rec)
qed

end
