(* ===== verification/Runtime.thy ===== *)
theory Runtime
  imports Agent
begin

text \<open>
  The host loop (\<^verbatim>\<open>crates/agent/src/app/runtime.rs\<close>) around the assembled kernel. Here a finalization
  is not one step: its effects (\<open>finalize_plan\<close>, what \<open>finalize_session\<close> does in one go) are performed one by one
  by the task that won the \<open>finalized\<close> flag, and the host loop, the scheduler and the bus consumer
  interleave with them. The flag makes every later trigger return at once.
\<close>

datatype Owner = HostTask | SchedulerTask | ConsumerTask

text \<open>\<open>Looping\<close>: selecting; \<open>Stopping\<close>: inside \<open>accept(ServiceStop)\<close>; \<open>Leaving\<close>: the loop is left, the
  scheduler cancelled, the kernel shutting down; \<open>Returned\<close>: after the final flush.\<close>

datatype HostPhase = Looping | Stopping | Leaving | Returned

record Host =
  ho_phase :: HostPhase
  ho_finalized :: bool
  ho_running :: "(Owner \<times> tag list) option"   \<comment> \<open>a finalization under way and what it still has to do\<close>
  ho_done :: "tag list"

definition host_new :: Host where
  "host_new = \<lparr>ho_phase = Looping, ho_finalized = False, ho_running = None, ho_done = []\<rparr>"

text \<open>A trigger: the first one starts the finalization, the others return.\<close>

definition finalize_begins :: "tag list \<Rightarrow> Owner \<Rightarrow> Host \<Rightarrow> Host" where
  "finalize_begins plan owner h =
     (if ho_finalized h then h else h\<lparr>ho_finalized := True, ho_running := Some (owner, plan)\<rparr>)"

datatype HostEvent = DeadlineFires | ScopeDies | Works | Finishes | StopArrives | StopHandled | PollSeesDone
  | ChannelClosed | SchedulerCut | ShutdownDone

text \<open>
  \<open>ServiceStop\<close> is awaited by the loop itself: when the flag was already taken the loop leaves at once.
  Leaving cancels the scheduler, which drops whatever its task was awaiting (\<open>SchedulerCut\<close>, at any
  moment after); \<open>shutdown\<close> joins the consumer task, which checks its cancellation only between two bus
  events, so a finalization it is running is completed. Returning ends the process with every task.
\<close>

inductive host_step :: "tag list \<Rightarrow> Host \<Rightarrow> HostEvent \<Rightarrow> Host \<Rightarrow> bool" for plan where
  deadline: "ho_phase h = Looping \<or> ho_phase h = Stopping \<Longrightarrow>
     host_step plan h DeadlineFires (finalize_begins plan SchedulerTask h)"
| scope_dies: "ho_phase h \<noteq> Returned \<Longrightarrow> host_step plan h ScopeDies (finalize_begins plan ConsumerTask h)"
| works: "ho_running h = Some (owner, e # es) \<Longrightarrow> ho_phase h \<noteq> Returned \<Longrightarrow>
     host_step plan h Works (h\<lparr>ho_running := Some (owner, es), ho_done := ho_done h @ [e]\<rparr>)"
| finishes: "ho_running h = Some (owner, []) \<Longrightarrow> ho_phase h \<noteq> Returned \<Longrightarrow> host_step plan h Finishes (h\<lparr>ho_running := None\<rparr>)"
| stop_first: "ho_phase h = Looping \<Longrightarrow> \<not> ho_finalized h \<Longrightarrow>
     host_step plan h StopArrives ((finalize_begins plan HostTask h)\<lparr>ho_phase := Stopping\<rparr>)"
| stop_late: "ho_phase h = Looping \<Longrightarrow> ho_finalized h \<Longrightarrow> host_step plan h StopArrives (h\<lparr>ho_phase := Leaving\<rparr>)"
| stop_handled: "ho_phase h = Stopping \<Longrightarrow> ho_running h = None \<Longrightarrow> host_step plan h StopHandled (h\<lparr>ho_phase := Leaving\<rparr>)"
| poll: "ho_phase h = Looping \<Longrightarrow> TDone \<in> set (ho_done h) \<Longrightarrow> host_step plan h PollSeesDone (h\<lparr>ho_phase := Leaving\<rparr>)"
| closed: "ho_phase h = Looping \<Longrightarrow> host_step plan h ChannelClosed (h\<lparr>ho_phase := Leaving\<rparr>)"
| cut: "ho_phase h = Leaving \<Longrightarrow> ho_running h = Some (SchedulerTask, es) \<Longrightarrow>
     host_step plan h SchedulerCut (h\<lparr>ho_running := None\<rparr>)"
| returns: "ho_phase h = Leaving \<Longrightarrow> (\<forall>es. ho_running h \<noteq> Some (ConsumerTask, es)) \<Longrightarrow>
     host_step plan h ShutdownDone (h\<lparr>ho_phase := Returned, ho_running := None\<rparr>)"

inductive host_run :: "tag list \<Rightarrow> Host \<Rightarrow> HostEvent list \<Rightarrow> Host \<Rightarrow> bool" for plan where
  start: "host_run plan h [] h"
| step: "host_run plan h evs h' \<Longrightarrow> host_step plan h' ev h'' \<Longrightarrow> host_run plan h (evs @ [ev]) h''"

inductive_cases host_stepE: "host_step plan h ev h'"

subsection \<open>The finalize plan\<close>

lemma finalize_plan_ends:
  "last (finalize_plan deps n ok) = TDone" "TDone \<notin> set (butlast (finalize_plan deps n ok))"
  by (auto simp: finalize_plan_def clock_plan_def request_plan_def butlast_append)

text \<open>A plan that signals completion by its last effect only.\<close>

definition signals_last :: "tag list \<Rightarrow> bool" where
  "signals_last plan \<longleftrightarrow> plan \<noteq> [] \<and> last plan = TDone \<and> TDone \<notin> set (butlast plan)"

lemma signals_last_finalize_plan: "signals_last (finalize_plan deps n ok)"
  using finalize_plan_ends [of deps n ok] by (simp add: signals_last_def) (simp add: finalize_plan_def)

lemma done_prefix_complete:
  assumes "signals_last plan" "plan = xs @ ys" "TDone \<in> set xs"
  shows "xs = plan \<and> ys = []"
proof (cases "ys = []")
  case False
  then have "butlast plan = xs @ butlast ys" using assms(2) by (simp add: butlast_append)
  with assms show ?thesis by (simp add: signals_last_def)
qed (use assms in simp)

subsection \<open>Complete exits\<close>

text \<open>What holds of every reachable host state, by what has happened so far.\<close>

definition host_inv :: "tag list \<Rightarrow> HostEvent list \<Rightarrow> Host \<Rightarrow> bool" where
  "host_inv plan evs h \<longleftrightarrow>
     (\<not> ho_finalized h \<longrightarrow> ho_running h = None \<and> ho_done h = [])
     \<and> (case ho_running h of Some (owner, es) \<Rightarrow> plan = ho_done h @ es \<and> ho_phase h \<noteq> Returned
           \<and> (owner = SchedulerTask \<longrightarrow> DeadlineFires \<in> set evs)
           \<and> (owner = HostTask \<longrightarrow> ho_phase h = Stopping)
           \<and> (owner = SchedulerTask \<and> ho_phase h \<noteq> Looping \<longrightarrow> StopArrives \<in> set evs \<or> ChannelClosed \<in> set evs \<or> TDone \<in> set (ho_done h))
         | None \<Rightarrow> ho_finalized h \<longrightarrow> ho_done h = plan
             \<or> DeadlineFires \<in> set evs \<and> (StopArrives \<in> set evs \<or> ChannelClosed \<in> set evs))
     \<and> (ho_phase h = Stopping \<longrightarrow> StopArrives \<in> set evs \<and> ho_finalized h)
     \<and> (ho_phase h = Leaving \<or> ho_phase h = Returned \<longrightarrow> ho_finalized h \<or> ChannelClosed \<in> set evs)"

lemma host_step_inv:
  assumes plan: "signals_last plan" and inv: "host_inv plan evs h" and step: "host_step plan h ev h'"
  shows "host_inv plan (evs @ [ev]) h'"
  using step
proof cases
  case (works owner e es)
  then show ?thesis using inv by (auto simp: host_inv_def)
next
  case (cut es)
  have "es = [] \<or> TDone \<notin> set (ho_done h)"
    using inv cut done_prefix_complete [OF plan, of "ho_done h" es] by (auto simp: host_inv_def)
  then show ?thesis using inv cut by (auto simp: host_inv_def)
next
  case returns
  have "ho_done h = plan" if "ho_running h = Some (owner, es)" "TDone \<in> set (ho_done h)" for owner es
    using that inv done_prefix_complete [OF plan, of "ho_done h" es] by (auto simp: host_inv_def)
  then show ?thesis
    using inv returns by (cases "ho_running h") (auto simp: host_inv_def split: Owner.splits, (metis Owner.exhaust HostPhase.distinct)+)
qed (use inv in \<open>auto simp: host_inv_def finalize_begins_def split: option.splits\<close>)

lemma host_run_inv: "host_run plan h evs h' \<Longrightarrow> h = host_new \<Longrightarrow> signals_last plan \<Longrightarrow> host_inv plan evs h'"
proof (induction rule: host_run.induct)
  case (start h)
  then show ?case by (simp add: host_inv_def host_new_def)
next
  case (step h evs h' ev h'')
  then show ?case using host_step_inv by blast
qed


text \<open>The run a stop request causes when nothing else happens.\<close>

lemma host_run_Cons: "host_step plan h ev h' \<Longrightarrow> host_run plan h' evs h'' \<Longrightarrow> host_run plan h (ev # evs) h''"
proof (rotate_tac, induction rule: host_run.induct)
  case (start h')
  then show ?case using host_run.step [OF host_run.start] by fastforce
next
  case (step h' evs h1 e h2)
  then show ?case using host_run.step [of plan h "ev # evs"] by fastforce
qed

lemma host_works:
  assumes "ho_running h = Some (owner, es)" "ho_phase h \<noteq> Returned"
  shows "host_run plan h (replicate (length es) Works @ [Finishes]) (h\<lparr>ho_running := None, ho_done := ho_done h @ es\<rparr>)"
  using assms
proof (induction es arbitrary: h)
  case Nil
  then show ?case using host_run_Cons [OF host_step.finishes host_run.start] by (auto intro: host_run_Cons)
next
  case (Cons e es)
  then show ?case using host_run_Cons [OF host_step.works [OF Cons.prems]] Cons.IH [of "h\<lparr>ho_running := Some (owner, es), ho_done := ho_done h @ [e]\<rparr>"]
    by simp
qed

lemma host_run_append: "host_run plan h' evs' h'' \<Longrightarrow> host_run plan h evs h' \<Longrightarrow> host_run plan h (evs @ evs') h''"
  by (induction rule: host_run.induct) (auto simp flip: append_assoc intro: host_run.step)

lemma stop_handled_run:
  assumes "ho_phase h = Stopping" "ho_running h = None"
  shows "host_run plan h [StopHandled, ShutdownDone] (h\<lparr>ho_phase := Returned, ho_running := None\<rparr>)"
  using host_run_Cons [OF host_step.stop_handled [OF assms] host_run_Cons [OF host_step.returns host_run.start]] assms
  by simp

lemma stop_run:
  "host_run plan host_new (StopArrives # replicate (length plan) Works @ [Finishes, StopHandled, ShutdownDone])
     \<lparr>ho_phase = Returned, ho_finalized = True, ho_running = None, ho_done = plan\<rparr>"
proof -
  let ?h = "(finalize_begins plan HostTask host_new)\<lparr>ho_phase := Stopping\<rparr>"
  let ?w = "?h\<lparr>ho_running := None, ho_done := plan\<rparr>"
  have "host_step plan host_new StopArrives ?h" by (rule host_step.stop_first) (simp_all add: host_new_def)
  moreover have "host_run plan ?h (replicate (length plan) Works @ [Finishes]) ?w"
    using host_works [of ?h HostTask plan plan] by (simp add: finalize_begins_def host_new_def)
  moreover have "host_run plan ?w [StopHandled, ShutdownDone]
      \<lparr>ho_phase = Returned, ho_finalized = True, ho_running = None, ho_done = plan\<rparr>"
    using stop_handled_run [of ?w plan] by (simp add: finalize_begins_def host_new_def)
  ultimately show ?thesis
    using host_run_Cons host_run_append by fastforce
qed


text \<open>
  C18. A stop request during the deadline's finalization loses it. For every configuration there is a run in
  which the deadline starts the finalization, the stop request arrives while it is under way, and the
  host returns with none of its effects performed: nothing reported, the scope not saved, no reboot or
  shutdown requested. The stop request does not wait for the finalization it found under way, and
  leaving the loop cancels the scheduler task that runs it.
\<close>

theorem late_stop_loses_finalization:
  "\<exists>h. host_run (finalize_plan deps n ok) host_new [DeadlineFires, StopArrives, SchedulerCut, ShutdownDone] h
     \<and> ho_phase h = Returned \<and> ho_finalized h \<and> ho_done h = []"
proof -
  let ?plan = "finalize_plan deps n ok"
  let ?h1 = "finalize_begins ?plan SchedulerTask host_new"
  let ?h2 = "?h1\<lparr>ho_phase := Leaving\<rparr>" and ?h3 = "?h1\<lparr>ho_phase := Leaving, ho_running := None\<rparr>"
  have "host_step ?plan host_new DeadlineFires ?h1" by (rule host_step.deadline) (simp add: host_new_def)
  moreover have "host_step ?plan ?h1 StopArrives ?h2"
    by (rule host_step.stop_late) (simp_all add: finalize_begins_def host_new_def)
  moreover have "host_step ?plan ?h2 SchedulerCut ?h3"
    using host_step.cut [of ?h2 ?plan ?plan] by (simp add: finalize_begins_def host_new_def)
  moreover have "host_step ?plan ?h3 ShutdownDone (?h3\<lparr>ho_phase := Returned, ho_running := None\<rparr>)"
    by (rule host_step.returns) simp_all
  ultimately have "host_run ?plan host_new [DeadlineFires, StopArrives, SchedulerCut, ShutdownDone]
      (?h3\<lparr>ho_phase := Returned, ho_running := None\<rparr>)"
    by (blast intro: host_run_Cons host_run.start)
  moreover have "ho_phase (?h3\<lparr>ho_phase := Returned, ho_running := None\<rparr>) = Returned" "ho_finalized (?h3\<lparr>ho_phase := Returned, ho_running := None\<rparr>)"
    "ho_done (?h3\<lparr>ho_phase := Returned, ho_running := None\<rparr>) = []" by (simp_all add: finalize_begins_def host_new_def)
  ultimately show ?thesis by blast
qed

subsection \<open>The host returns\<close>

text \<open>The steps left: a finalization not yet begun, the effects of one under way, the phases to come.\<close>

fun phases_left :: "HostPhase \<Rightarrow> nat" where
  "phases_left Looping = 3" | "phases_left Stopping = 2" | "phases_left Leaving = 1" | "phases_left Returned = 0"

definition work_left :: "tag list \<Rightarrow> Host \<Rightarrow> nat" where
  "work_left plan h = (if ho_finalized h then 0 else length plan + 2)
     + (case ho_running h of None \<Rightarrow> 0 | Some (_, es) \<Rightarrow> Suc (length es)) + phases_left (ho_phase h)"

lemma host_step_descends:
  assumes "host_step plan h ev h'" "ho_finalized h \<or> ho_running h = None"
  shows "h' = h \<or> work_left plan h' < work_left plan h"
  using assms
  by (cases rule: host_step.cases) (auto simp: work_left_def finalize_begins_def split: option.splits)

lemma host_never_stuck:
  assumes "ho_phase h = Stopping \<or> ho_phase h = Leaving"
  shows "\<exists>ev h'. host_step plan h ev h' \<and> h' \<noteq> h"
proof (cases "ho_running h")
  case None
  then show ?thesis using assms host_step.stop_handled [of h plan] host_step.returns [of h plan]
    by (metis Host.select_convs(1) Host.surjective Host.update_convs(1,3) HostPhase.distinct option.distinct(1))
next
  case (Some r)
  obtain owner es where r: "r = (owner, es)" by fastforce
  show ?thesis
  proof (cases es)
    case Nil
    with Some r have "host_step plan h Finishes (h\<lparr>ho_running := None\<rparr>)" using assms by (auto intro: host_step.finishes)
    moreover have "h\<lparr>ho_running := None\<rparr> \<noteq> h" using Some by (metis Host.select_convs(3) Host.surjective Host.update_convs(3) option.distinct(1))
    ultimately show ?thesis by blast
  next
    case (Cons e rest)
    let ?h = "h\<lparr>ho_running := Some (owner, rest), ho_done := ho_done h @ [e]\<rparr>"
    have "host_step plan h Works ?h" using Some r Cons assms by (auto intro: host_step.works)
    moreover have "ho_done ?h \<noteq> ho_done h" by simp
    ultimately show ?thesis by metis
  qed
qed

definition host_moves :: "tag list \<Rightarrow> Host \<Rightarrow> Host \<Rightarrow> bool" where
  "host_moves plan h h' \<longleftrightarrow> h' \<noteq> h \<and> (\<exists>ev. host_step plan h ev h')"

lemma host_moves_keeps:
  assumes "host_moves plan h h'" "ho_phase h \<noteq> Looping" "ho_finalized h \<or> ho_running h = None"
  shows "work_left plan h' < work_left plan h \<and> ho_phase h' \<noteq> Looping \<and> (ho_finalized h' \<or> ho_running h' = None)"
proof -
  from assms(1) obtain ev where "host_step plan h ev h'" "h' \<noteq> h" unfolding host_moves_def by blast
  with host_step_descends [OF this(1) assms(3)] show ?thesis
    using assms(2,3) by (auto elim!: host_stepE simp: finalize_begins_def split: if_splits)
qed

lemma host_moves_bounded:
  "(host_moves plan ^^ k) h h' \<Longrightarrow> ho_phase h \<noteq> Looping \<Longrightarrow> ho_finalized h \<or> ho_running h = None \<Longrightarrow>
     k + work_left plan h' \<le> work_left plan h \<and> ho_phase h' \<noteq> Looping"
proof (induction k arbitrary: h)
  case (Suc k)
  from relpowp_Suc_D2 [OF Suc.prems(1)] obtain h1 where "host_moves plan h h1" "(host_moves plan ^^ k) h1 h'" by blast
  with host_moves_keeps [OF this(1) Suc.prems(2,3)] Suc.IH [of h1] show ?case by simp
qed simp

text \<open>
  C35. Once a stop is being handled the host returns. However the tasks interleave after the loop took
  the stop request, or left, only a bounded number of steps that change anything is possible (the
  effects of the finalization that are left and the phases to come), and as long as the host has not
  returned some task can make such a step: it neither hangs nor runs forever.
\<close>

theorem host_always_returns:
  assumes "host_run (finalize_plan deps n ok) host_new evs h" "ho_phase h \<noteq> Looping"
    and "(host_moves (finalize_plan deps n ok) ^^ k) h h'"
  shows "k \<le> work_left (finalize_plan deps n ok) h
    \<and> (ho_phase h' = Returned \<or> (\<exists>h''. host_moves (finalize_plan deps n ok) h' h''))"
proof -
  have "host_inv (finalize_plan deps n ok) evs h"
    using host_run_inv [OF assms(1) refl signals_last_finalize_plan] .
  then have "ho_finalized h \<or> ho_running h = None" by (auto simp: host_inv_def)
  with host_moves_bounded [OF assms(3,2)] have "k \<le> work_left (finalize_plan deps n ok) h" "ho_phase h' \<noteq> Looping" by auto
  moreover have "ho_phase h' = Stopping \<or> ho_phase h' = Leaving" if "ho_phase h' \<noteq> Returned"
    using that calculation(2) by (cases "ho_phase h'") auto
  ultimately show ?thesis using host_never_stuck [of h'] unfolding host_moves_def by blast
qed

theorem host_always_returns_witness:
  "\<exists>h. host_run (finalize_plan deps0 1 True) host_new [StopArrives] h \<and> ho_phase h = Stopping
    \<and> (ho_phase h = Returned \<or> (\<exists>h''. host_moves (finalize_plan deps0 1 True) h h''))"
proof -
  let ?plan = "finalize_plan deps0 1 True"
  let ?h = "(finalize_begins ?plan HostTask host_new)\<lparr>ho_phase := Stopping\<rparr>"
  have "host_step ?plan host_new StopArrives ?h" by (rule host_step.stop_first) (simp_all add: host_new_def)
  then have run: "host_run ?plan host_new [StopArrives] ?h" by (rule host_run_Cons) (rule host_run.start)
  have "ho_phase ?h \<noteq> Looping" "(host_moves ?plan ^^ 0) ?h ?h" "ho_phase ?h = Stopping" by simp_all
  with host_always_returns [OF run this(1,2)] run show ?thesis by blast
qed

subsection \<open>The pipeline's part\<close>

text \<open>Of the middleware only the session manager acts on a stop request or the deadline.\<close>

definition is_trigger :: "SandboxEvent \<Rightarrow> bool" where
  "is_trigger ev \<longleftrightarrow> ev = ServiceStop \<or> ev = SessionDeadline"

lemma trigger_others:
  assumes "is_trigger ev"
  shows "fst (tracker_pre b ev a) = ev \<and> ag_world (snd (tracker_pre b ev a)) = ag_world a
      \<and> ag_session (snd (tracker_pre b ev a)) = ag_session a"
    and "event_reporter_pre b ev a = (ev, a)"
    and "fst (screenshot_pre b ev a) = ev \<and> ag_world (snd (screenshot_pre b ev a)) = ag_world a
      \<and> ag_session (snd (screenshot_pre b ev a)) = ag_session a"
    and "ag_world (snd (target_launcher_pre b ev a)) = ag_world a \<and> ag_session (snd (target_launcher_pre b ev a)) = ag_session a"
    and "ag_world (snd (supervisor_pre b ev a)) = ag_world a \<and> ag_session (snd (supervisor_pre b ev a)) = ag_session a"
  using assms
  by (auto simp: is_trigger_def tracker_pre_def stp_pre_def event_reporter_pre_def reporter_pre_def screenshot_pre_def
        sip_pre_def target_launcher_pre_def supervisor_pre_def tlp_pre_def sup_pre_def source_event_def Let_def)

text \<open>A chain of observers is the composition of their hooks.\<close>

lemma run_pre_observers:
  "run_pre (map (\<lambda>(name, f). observer name f) fs) n ev a
     = (n + length fs, False, fold (\<lambda>(name, f) (ev, a). f ev a) fs (ev, a))"
  by (induction fs arbitrary: n ev a) (auto simp: observer_def split: prod.splits)

lemma run_post_observers: "run_post (map (\<lambda>(name, f). observer name f) fs) ev a = (ev, a)"
  by (induction fs arbitrary: ev a) (auto simp: observer_def default_post_def)

lemma accept_observers:
  "accept (map (\<lambda>(name, f). observer name f) fs) ev a = snd (fold (\<lambda>(name, f) (ev, a). f ev a) fs (ev, a))"
  using run_post_observers [of "rev fs"]
  by (auto simp: accept_def run_pre_observers rev_map split: prod.splits)

lemma accept_middleware:
  "accept (middleware b) ev a = snd ((case_prod statistics_plugin_pre \<circ> case_prod (supervisor_pre b) \<circ> case_prod (target_launcher_pre b)
     \<circ> case_prod (screenshot_pre b) \<circ> case_prod (event_reporter_pre b) \<circ> case_prod (tracker_pre b)) (session_manager_pre b ev a))"
proof -
  have "middleware b = map (\<lambda>(name, f). observer name f)
     [(utf ''session-manager'', session_manager_pre b), (utf ''scope-tracker'', tracker_pre b),
      (utf ''event-reporter'', event_reporter_pre b), (utf ''screenshot-intake'', screenshot_pre b),
      (utf ''target-launcher'', target_launcher_pre b), (utf ''user-actor-supervisor'', supervisor_pre b),
      (utf ''statistics'', statistics_plugin_pre)]"
    by (simp add: middleware_def del: utf_Cons)
  then show ?thesis by (simp only: accept_observers) (simp add: case_prod_unfold del: utf_Cons)
qed

lemma trigger_accepted:
  assumes "is_trigger ev"
  shows "ag_world (accept (middleware b) ev a) = ag_world (snd (session_manager_pre b ev a))
    \<and> ag_session (accept (middleware b) ev a) = ag_session (snd (session_manager_pre b ev a))"
proof -
  have "fst (session_manager_pre b ev a) = ev" by (simp add: session_manager_pre_def split: prod.split)
  moreover have "fst (target_launcher_pre b ev x) = ev" "fst (supervisor_pre b ev x) = ev" for x
    by (simp_all add: target_launcher_pre_def supervisor_pre_def)
  ultimately show ?thesis
    using trigger_others [OF assms]
    by (simp add: accept_middleware case_prod_unfold statistics_plugin_pre_def)
qed

text \<open>
  What the host's steps stand for. A stop request or a deadline that the assembled kernel accepts
  while the session is open and unfinalized performs exactly the finalize plan, once, and closes the
  session and its processes in the scope; accepted again, it changes nothing outside. No other plugin
  interferes.
\<close>

theorem trigger_finalizes:
  assumes "is_trigger ev" "\<not> smp_finalized (ag_session a)" "current_session (w_scope (ag_world a)) = Some session"
    and "is_trigger ev'"
  shows "tags (ag_world (accept (middleware b) ev a)) = tags (ag_world a)
        @ finalize_plan (session_manager_deps b) (length (sst_sessions (w_scope (ag_world a))))
            (w_answer (ag_world a) (w_calls (ag_world a)))
    \<and> w_scope (ag_world (accept (middleware b) ev a))
        = update_current (close_session (w_clock (ag_world a) (w_reads (ag_world a)))) (w_scope (ag_world a))
    \<and> ag_world (accept (middleware b) ev' (accept (middleware b) ev a)) = ag_world (accept (middleware b) ev a)"
proof -
  let ?deps = "session_manager_deps b"
  obtain reason where reason: "smp_pre (ab_lc b) ?deps ev p w = finalize_session (ab_lc b) ?deps reason p w" for p w
    using assms(1) by (auto simp: is_trigger_def smp_pre_def)
  obtain p w where f: "finalize_session (ab_lc b) ?deps reason (ag_session a) (ag_world a) = (p, w)" by fastforce
  have a': "ag_world (accept (middleware b) ev a) = w" "ag_session (accept (middleware b) ev a) = p"
    using trigger_accepted [OF assms(1), of b a] by (simp_all add: session_manager_pre_def reason f)
  have "ag_world (accept (middleware b) ev' a') = ag_world a'" if "smp_finalized (ag_session a')" for a'
    using trigger_accepted [OF assms(4), of b a'] assms(4) that
    by (auto simp: session_manager_pre_def smp_pre_def is_trigger_def finalize_session_def)
  with finalize_session_effect [OF assms(2,3) f] a' show ?thesis by simp
qed

theorem trigger_finalizes_witness:
  "TDone \<in> set (tags (ag_world (accept (middleware build0) ServiceStop (assemble build0 (\<lambda>_. []) (\<lambda>_. SendOk) world0))))"
proof -
  let ?a = "assemble build0 (\<lambda>_. []) (\<lambda>_. SendOk) world0"
  have "is_trigger ServiceStop" "\<not> smp_finalized (ag_session ?a)" "current_session (w_scope (ag_world ?a)) = Some (new_session 0 None 0)"
    by (simp_all add: is_trigger_def assemble_def Let_def SessionManagerPlugin_new_def world0_def opened_def current_session_def last_opt_def)
  from trigger_finalizes [OF this this(1), of build0] show ?thesis by (simp add: finalize_plan_def)
qed

end
