(* ===== verification/Driver_Control.thy ===== *)
theory Driver_Control
  imports Prelude
begin

text \<open>
  The control plane to the kernel driver: the codes, policy blobs and statistics reply of
  \<^verbatim>\<open>crates/agent/src/ports/driven/driver_control.rs\<close>, the device adapter that sends them
  (\<^verbatim>\<open>adapters/driven/driver_control_device.rs\<close>), and the driver's own handlers of the pushes
  (\<^verbatim>\<open>driver/secoutfall/secoutfall.cpp\<close> and the functions it calls), so that both ends of the contract
  are in one model. Pool allocation is a parameter: \<open>pool n\<close> tells whether \<open>n\<close> bytes can be had.
\<close>

unbundle bit_operations_syntax

record InjectionPolicy =
  ip_sensor_path :: rstr
  ip_exclusions :: "rstr list"

record DropPolicy =
  dp_dir :: rstr
  dp_extensions :: "rstr list"

record ProtectionPolicy =
  pp_names :: "rstr list"

record DriverPolicies =
  dpl_injection :: "InjectionPolicy option"
  dpl_drops :: "DropPolicy option"
  dpl_protection :: "ProtectionPolicy option"

datatype DriverControlError = DeviceMissing | Rejected | DriverIo rstr

definition device_security_sddl :: "rstr option \<Rightarrow> rstr" where
  "device_security_sddl console_user_sid =
     (case console_user_sid of
        Some sid \<Rightarrow> utf ''D:P(A;;GA;;;SY)(A;;GA;;;BA)(A;;GA;;;'' @ sid @ utf '')''
      | None \<Rightarrow> utf ''D:P(A;;GA;;;SY)(A;;GA;;;BA)'')"

subsection \<open>Codes\<close>

definition ctl_code :: "u32 \<Rightarrow> u32 \<Rightarrow> u32 \<Rightarrow> u32 \<Rightarrow> u32" where
  "ctl_code device function method access =
     push_bit 16 device OR push_bit 14 access OR push_bit 2 function OR method"

definition DEVICE :: u32 where "DEVICE = 0x8000"
definition METHOD_BUFFERED :: u32 where "METHOD_BUFFERED = 0"
definition METHOD_OUT_DIRECT :: u32 where "METHOD_OUT_DIRECT = 2"
definition FILE_READ_ACCESS :: u32 where "FILE_READ_ACCESS = 1"
definition FILE_WRITE_ACCESS :: u32 where "FILE_WRITE_ACCESS = 2"

definition GET_DATA :: u32 where "GET_DATA = ctl_code DEVICE 0x800 METHOD_OUT_DIRECT FILE_READ_ACCESS"
definition GET_STATS :: u32 where "GET_STATS = ctl_code DEVICE 0x801 METHOD_BUFFERED FILE_READ_ACCESS"
definition SET_FILE_WATCH :: u32 where "SET_FILE_WATCH = ctl_code DEVICE 0x802 METHOD_BUFFERED FILE_WRITE_ACCESS"
definition SELFTEST_FLOOD :: u32 where "SELFTEST_FLOOD = ctl_code DEVICE 0x803 METHOD_BUFFERED FILE_WRITE_ACCESS"
definition SET_DROP_POLICY :: u32 where "SET_DROP_POLICY = ctl_code DEVICE 0x804 METHOD_BUFFERED FILE_WRITE_ACCESS"
definition SET_INJECTION_POLICY :: u32 where
  "SET_INJECTION_POLICY = ctl_code DEVICE 0x805 METHOD_BUFFERED FILE_WRITE_ACCESS"
definition SENSOR_CHALLENGE :: u32 where "SENSOR_CHALLENGE = ctl_code DEVICE 0x806 METHOD_BUFFERED FILE_READ_ACCESS"
definition SENSOR_REGISTER :: u32 where "SENSOR_REGISTER = ctl_code DEVICE 0x807 METHOD_BUFFERED FILE_WRITE_ACCESS"
definition SET_PROTECTED :: u32 where "SET_PROTECTED = ctl_code DEVICE 0x808 METHOD_BUFFERED FILE_WRITE_ACCESS"
definition SET_DEVICE_SECURITY :: u32 where
  "SET_DEVICE_SECURITY = ctl_code DEVICE 0x809 METHOD_BUFFERED FILE_WRITE_ACCESS"

lemmas code_defs = GET_DATA_def GET_STATS_def SET_FILE_WATCH_def SELFTEST_FLOOD_def SET_DROP_POLICY_def
  SET_INJECTION_POLICY_def SENSOR_CHALLENGE_def SENSOR_REGISTER_def SET_PROTECTED_def SET_DEVICE_SECURITY_def
  ctl_code_def DEVICE_def METHOD_BUFFERED_def METHOD_OUT_DIRECT_def FILE_READ_ACCESS_def FILE_WRITE_ACCESS_def

text \<open>The table the C compiler expands from the driver's macros (\<^verbatim>\<open>driver/tests/emit_codes.txt\<close>).\<close>

lemma codes_match_c_macros:
  "[GET_DATA, GET_STATS, SET_FILE_WATCH, SELFTEST_FLOOD, SET_DROP_POLICY, SET_INJECTION_POLICY, SENSOR_CHALLENGE,
     SENSOR_REGISTER, SET_PROTECTED, SET_DEVICE_SECURITY]
   = [0x80006002, 0x80006004, 0x8000A008, 0x8000A00C, 0x8000A010, 0x8000A014, 0x80006018, 0x8000A01C, 0x8000A020, 0x8000A024]"
  by (simp add: code_defs)

lemmas code_values = codes_match_c_macros [simplified list.inject simp_thms]

subsection \<open>Policy blobs\<close>

definition u32_from_len :: "nat \<Rightarrow> u32" where
  "u32_from_len n = (if n < 2 ^ 32 then of_nat n else - 1)"

text \<open>\<open>str::encode_utf16\<close>\<close>

definition encode_utf16 :: "rstr \<Rightarrow> u16 list" where
  "encode_utf16 s = concat (map (\<lambda>c. if c < 0x10000 then [of_nat c]
     else [of_nat (0xD800 + (c - 0x10000) div 0x400), of_nat (0xDC00 + (c - 0x10000) mod 0x400)]) s)"

definition wide_nul :: "rstr \<Rightarrow> u8 list" where
  "wide_nul value = concat (map to_le_bytes (encode_utf16 value)) @ to_le_bytes (0 :: u16)"

definition wide_list :: "rstr list \<Rightarrow> u8 list" where
  "wide_list values = concat (map wide_nul values) @ (if values = [] then [] else to_le_bytes (0 :: u16))"

definition encode_injection_policy :: "InjectionPolicy \<Rightarrow> u8 list" where
  "encode_injection_policy policy =
     (let path = wide_nul (ip_sensor_path policy); exclusions = wide_list (ip_exclusions policy) in
      [1] @ [0, 0, 0] @ to_le_bytes (u32_from_len (length path)) @ to_le_bytes (u32_from_len (length exclusions))
        @ path @ exclusions)"

definition encode_drop_policy :: "DropPolicy \<Rightarrow> u8 list" where
  "encode_drop_policy policy =
     (let extensions = wide_list (dp_extensions policy); dir = wide_nul (dp_dir policy) in
      [1] @ [0, 0, 0] @ to_le_bytes (u32_from_len (length (dp_extensions policy)))
        @ to_le_bytes (u32_from_len (length extensions)) @ to_le_bytes (u32_from_len (length dir)) @ extensions @ dir)"

definition encode_protection_policy :: "ProtectionPolicy \<Rightarrow> u8 list" where
  "encode_protection_policy policy =
     (let names = wide_list (pp_names policy) in
      [if pp_names policy \<noteq> [] then 1 else 0] @ [0, 0, 0] @ to_le_bytes (u32_from_len (length names)) @ names)"

definition encode_device_security :: "bool \<Rightarrow> u8 list \<Rightarrow> u8 list" where
  "encode_device_security enabled security_descriptor =
     [if enabled then 1 else 0] @ [0, 0, 0] @ to_le_bytes (u32_from_len (length security_descriptor)) @ security_descriptor"

definition encode_file_watch_policy :: "bool \<Rightarrow> rstr list \<Rightarrow> u8 list" where
  "encode_file_watch_policy enabled extensions =
     (let list = wide_list extensions in
      [if enabled then 1 else 0] @ [0, 0, 0] @ to_le_bytes (u32_from_len (length extensions))
        @ to_le_bytes (u32_from_len (length list)) @ list)"

subsection \<open>Pushing\<close>

text \<open>\<open>ioctl\<close> is the device behind the open handle; the adapter only sees success or failure.\<close>

definition device_send :: "(u32 \<Rightarrow> u8 list \<Rightarrow> 'd \<Rightarrow> bool \<times> 'd) \<Rightarrow> u32 \<Rightarrow> u8 list \<Rightarrow> 'd \<Rightarrow> (DriverControlError + unit) \<times> 'd" where
  "device_send ioctl code payload d = (case ioctl code (if length payload < 2 ^ 32 then payload else []) d of (ok, d) \<Rightarrow> (if ok then Inr () else Inl Rejected, d))"

definition then_r :: "(('e + unit) \<times> 'd) \<Rightarrow> ('d \<Rightarrow> ('e + unit) \<times> 'd) \<Rightarrow> ('e + unit) \<times> 'd" where
  "then_r r f = (case r of (Inl e, d) \<Rightarrow> (Inl e, d) | (Inr _, d) \<Rightarrow> f d)"

definition apply_policies :: "(u32 \<Rightarrow> u8 list \<Rightarrow> 'd \<Rightarrow> bool \<times> 'd) \<Rightarrow> DriverPolicies \<Rightarrow> 'd \<Rightarrow> (DriverControlError + unit) \<times> 'd" where
  "apply_policies ioctl policies d =
     then_r (case dpl_injection policies of
               Some injection \<Rightarrow>
                 if ip_sensor_path injection \<noteq> []
                 then device_send ioctl SET_INJECTION_POLICY (encode_injection_policy injection) d else (Inr (), d)
             | None \<Rightarrow> (Inr (), d)) (\<lambda>d.
     then_r (case dpl_drops policies of
               Some drops \<Rightarrow>
                 if dp_dir drops \<noteq> [] then device_send ioctl SET_DROP_POLICY (encode_drop_policy drops) d else (Inr (), d)
             | None \<Rightarrow> (Inr (), d)) (\<lambda>d.
     case dpl_protection policies of
       Some protection \<Rightarrow> device_send ioctl SET_PROTECTED (encode_protection_policy protection) d
     | None \<Rightarrow> (Inr (), d)))"

definition set_file_watch :: "(u32 \<Rightarrow> u8 list \<Rightarrow> 'd \<Rightarrow> bool \<times> 'd) \<Rightarrow> bool \<Rightarrow> rstr list \<Rightarrow> 'd \<Rightarrow> (DriverControlError + unit) \<times> 'd" where
  "set_file_watch ioctl enabled extensions d =
     device_send ioctl SET_FILE_WATCH (encode_file_watch_policy enabled extensions) d"

subsection \<open>The driver's handlers\<close>

datatype NtStatus = STATUS_SUCCESS | STATUS_INVALID_PARAMETER | STATUS_INSUFFICIENT_RESOURCES | STATUS_INVALID_DEVICE_REQUEST

record FileWatch =
  fw_enabled :: bool
  fw_extensions :: "u16 list list"

record Driver =
  dv_watch :: FileWatch
  dv_drop_watch :: FileWatch
  dv_target :: "u16 list"
  dv_names :: "u16 list list"
  dv_injection_enabled :: bool
  dv_sensor_dll_path :: "u16 list"
  dv_extra_blocklist :: FileWatch

definition MaxExtensions :: nat where "MaxExtensions = 64"
definition MaxBlobBytes :: nat where "MaxBlobBytes = 4096"
definition MaxDirBytes :: nat where "MaxDirBytes = 1024"
definition MaxFilePathBytes :: nat where "MaxFilePathBytes = 1024"
definition MaxNames :: nat where "MaxNames = 64"

text \<open>A \<open>ULONG\<close> field of the input struct, and a byte range read as \<open>WCHAR\<close>s.\<close>

definition ulong_at :: "u8 list \<Rightarrow> nat \<Rightarrow> nat" where
  "ulong_at input i = unat (from_le_bytes (take 4 (drop i input)) :: u32)"

fun wchars :: "u8 list \<Rightarrow> u16 list" where
  "wchars (lo # hi # rest) = from_le_bytes [lo, hi] # wchars rest"
| "wchars _ = []"

text \<open>
  The list parser of the watch and drop policies, from \<open>cursor\<close> to the end of the blob: at most \<open>limit\<close>
  names; an empty name, a name that runs into the end, or a failed allocation fails the parse.
\<close>

fun parse_names :: "(nat \<Rightarrow> bool) \<Rightarrow> nat \<Rightarrow> u16 list \<Rightarrow> u16 list list option" where
  "parse_names pool 0 cursor = Some []"
| "parse_names pool (Suc limit) cursor =
     (if cursor = [] then Some []
      else let name = takeWhile (\<lambda>c. c \<noteq> 0) cursor in
        if name = [] \<or> length cursor \<le> length name then None
        else if \<not> pool 16 then None
        else map_option (Cons name) (parse_names pool limit (drop (length name + 1) cursor)))"

definition parse_counted :: "(nat \<Rightarrow> bool) \<Rightarrow> nat \<Rightarrow> u16 list \<Rightarrow> u16 list list option" where
  "parse_counted pool count cursor =
     (case parse_names pool count cursor of None \<Rightarrow> None | Some names \<Rightarrow> if length names = count then Some names else None)"

text \<open>The lenient parser of the protection and exclusion lists: it stops at the first empty name.\<close>

function scan_names :: "u16 list \<Rightarrow> u16 list list" where
  "scan_names cursor =
     (let name = takeWhile (\<lambda>c. c \<noteq> 0) cursor in
      if name = [] then [] else name # scan_names (drop (length name + 1) cursor))"
  by pat_completeness auto
termination
  by (relation "measure length") (auto simp: takeWhile_eq_Nil_iff length_drop)

declare scan_names.simps [simp del]

definition ioctl_set_file_watch :: "(nat \<Rightarrow> bool) \<Rightarrow> u8 list \<Rightarrow> Driver \<Rightarrow> NtStatus \<times> Driver" where
  "ioctl_set_file_watch pool input d =
     (if length input < 12 \<or> unat (input ! 0) > 1 then (STATUS_INVALID_PARAMETER, d)
      else let count = ulong_at input 4; blobBytes = ulong_at input 8 in
      if blobBytes > MaxBlobBytes \<or> blobBytes mod 2 \<noteq> 0 \<or> count > MaxExtensions \<or> length input \<noteq> 12 + blobBytes
      then (STATUS_INVALID_PARAMETER, d)
      else if input ! 0 = 0 \<or> count = 0
      then (STATUS_SUCCESS, d\<lparr>dv_watch := \<lparr>fw_enabled = input ! 0 \<noteq> 0, fw_extensions = []\<rparr>\<rparr>)
      else if \<not> pool blobBytes \<or> \<not> pool (8 * count) then (STATUS_INSUFFICIENT_RESOURCES, d)
      else case parse_counted pool count (wchars (drop 12 input)) of
        None \<Rightarrow> (STATUS_INVALID_PARAMETER, d)
      | Some exts \<Rightarrow> (STATUS_SUCCESS, d\<lparr>dv_watch := \<lparr>fw_enabled = True, fw_extensions = exts\<rparr>\<rparr>))"

text \<open>\<open>DropTarget::Apply\<close>: the directory without its terminator, cut to the maximum.\<close>

definition target_apply :: "(nat \<Rightarrow> bool) \<Rightarrow> u16 list \<Rightarrow> Driver \<Rightarrow> Driver option" where
  "target_apply pool dir d =
     (let stored = take (MaxDirBytes div 2) dir in
      if stored = [] \<or> \<not> pool (2 * length stored) then None else Some (d\<lparr>dv_target := stored\<rparr>))"

definition ioctl_set_drop_policy :: "(nat \<Rightarrow> bool) \<Rightarrow> u8 list \<Rightarrow> Driver \<Rightarrow> NtStatus \<times> Driver" where
  "ioctl_set_drop_policy pool input d =
     (if length input < 16 \<or> unat (input ! 0) > 1 then (STATUS_INVALID_PARAMETER, d)
      else let count = ulong_at input 4; extBytes = ulong_at input 8; dirBytes = ulong_at input 12 in
      if extBytes > MaxBlobBytes \<or> extBytes mod 2 \<noteq> 0 \<or> count > MaxExtensions
        \<or> dirBytes = 0 \<or> dirBytes > MaxDirBytes \<or> dirBytes mod 2 \<noteq> 0 \<or> length input \<noteq> 16 + extBytes + dirBytes
      then (STATUS_INVALID_PARAMETER, d)
      else if input ! 0 = 0
      then (STATUS_SUCCESS, d\<lparr>dv_drop_watch := \<lparr>fw_enabled = False, fw_extensions = []\<rparr>\<rparr>)
      else let dir = wchars (drop (16 + extBytes) input) in
      if last dir \<noteq> 0 then (STATUS_INVALID_PARAMETER, d)
      else if \<not> pool (8 * count) \<or> \<not> pool (if extBytes \<noteq> 0 then extBytes else 2) then (STATUS_INSUFFICIENT_RESOURCES, d)
      else case parse_counted pool count (wchars (take extBytes (drop 16 input))) of
        None \<Rightarrow> (STATUS_INVALID_PARAMETER, d)
      | Some exts \<Rightarrow>
          (case target_apply pool (butlast dir) d of
             None \<Rightarrow> (STATUS_INSUFFICIENT_RESOURCES, d)
           | Some d \<Rightarrow> (STATUS_SUCCESS, d\<lparr>dv_drop_watch := \<lparr>fw_enabled = True, fw_extensions = exts\<rparr>\<rparr>)))"

definition ProtectionSetPolicy :: "(nat \<Rightarrow> bool) \<Rightarrow> u16 list option \<Rightarrow> Driver \<Rightarrow> Driver option" where
  "ProtectionSetPolicy pool names d =
     (case names of
        None \<Rightarrow> Some (d\<lparr>dv_names := []\<rparr>)
      | Some blob \<Rightarrow>
          let parsed = scan_names blob in
          if parsed = [] \<or> length parsed > MaxNames \<or> 2 * length blob > MaxBlobBytes then None
          else if \<not> pool (2 * length blob) \<or> \<not> pool (8 * length parsed) \<or> \<not> pool 16 then None
          else Some (d\<lparr>dv_names := parsed\<rparr>))"

definition ioctl_set_protected :: "(nat \<Rightarrow> bool) \<Rightarrow> u8 list \<Rightarrow> Driver \<Rightarrow> NtStatus \<times> Driver" where
  "ioctl_set_protected pool input d =
     (if length input < 8 \<or> unat (input ! 0) > 1 then (STATUS_INVALID_PARAMETER, d)
      else let namesBytes = ulong_at input 4 in
      if namesBytes > 4096 \<or> namesBytes mod 2 \<noteq> 0 \<or> length input \<noteq> 8 + namesBytes then (STATUS_INVALID_PARAMETER, d)
      else case ProtectionSetPolicy pool (if input ! 0 = 0 then None else Some (wchars (drop 8 input))) d of
        None \<Rightarrow> (STATUS_INSUFFICIENT_RESOURCES, d)
      | Some d \<Rightarrow> (STATUS_SUCCESS, d))"

text \<open>
  \<open>exclusions\<close> is given when there is any. A list whose entries cannot be allocated is applied with
  the entries got so far, here none; without a list the previous one stays.
\<close>

definition InjectionSetPolicy :: "(nat \<Rightarrow> bool) \<Rightarrow> bool \<Rightarrow> u16 list \<Rightarrow> u16 list option \<Rightarrow> Driver \<Rightarrow> Driver option" where
  "InjectionSetPolicy pool enabled dllPath exclusions d =
     (if dllPath \<noteq> [] \<and> \<not> pool (2 * length dllPath + 2) then None
      else let arm = (\<lambda>d. d\<lparr>dv_sensor_dll_path := dllPath, dv_injection_enabled := enabled \<and> dllPath \<noteq> []\<rparr>) in
        case exclusions of
          None \<Rightarrow> Some (arm d)
        | Some blob \<Rightarrow>
            if blob = [] then Some (arm d)
            else let names = scan_names blob in
              if names \<noteq> [] \<and> (\<not> pool (8 * length names) \<or> \<not> pool (2 * length blob)) then None
              else Some (arm (d\<lparr>dv_extra_blocklist := \<lparr>fw_enabled = True, fw_extensions = if pool 16 then names else []\<rparr>\<rparr>)))"

definition ioctl_set_injection_policy :: "(nat \<Rightarrow> bool) \<Rightarrow> u8 list \<Rightarrow> Driver \<Rightarrow> NtStatus \<times> Driver" where
  "ioctl_set_injection_policy pool input d =
     (if length input < 12 \<or> unat (input ! 0) > 1 then (STATUS_INVALID_PARAMETER, d)
      else let pathBytes = ulong_at input 4; exclBytes = ulong_at input 8 in
      if pathBytes < 4 \<or> pathBytes mod 2 \<noteq> 0 \<or> pathBytes > MaxFilePathBytes \<or> exclBytes mod 2 \<noteq> 0
        \<or> length input \<noteq> 12 + pathBytes + exclBytes
      then (STATUS_INVALID_PARAMETER, d)
      else case InjectionSetPolicy pool (input ! 0 \<noteq> 0) (wchars (take (pathBytes - 2) (drop 12 input)))
                  (if exclBytes > 0 then Some (wchars (take (exclBytes mod 2 ^ 16) (drop (12 + pathBytes) input))) else None) d of
        None \<Rightarrow> (STATUS_INSUFFICIENT_RESOURCES, d)
      | Some d \<Rightarrow> (STATUS_SUCCESS, d))"

text \<open>The dispatch of the policy pushes.\<close>

definition driver_ioctl :: "(nat \<Rightarrow> bool) \<Rightarrow> u32 \<Rightarrow> u8 list \<Rightarrow> Driver \<Rightarrow> bool \<times> Driver" where
  "driver_ioctl pool code input d =
     (case (if code = SET_FILE_WATCH then ioctl_set_file_watch pool input d
            else if code = SET_DROP_POLICY then ioctl_set_drop_policy pool input d
            else if code = SET_PROTECTED then ioctl_set_protected pool input d
            else if code = SET_INJECTION_POLICY then ioctl_set_injection_policy pool input d
            else (STATUS_INVALID_DEVICE_REQUEST, d)) of (status, d) \<Rightarrow> (status = STATUS_SUCCESS, d))"

subsection \<open>Wide strings on the wire\<close>

definition le16 :: "u16 list \<Rightarrow> u8 list" where
  "le16 us = concat (map to_le_bytes us)"

lemma le16_simps [simp]: "le16 [] = []" "le16 (u # us) = to_le_bytes u @ le16 us" "le16 (us @ vs) = le16 us @ le16 vs"
  by (simp_all add: le16_def)

lemma length_le16 [simp]: "length (le16 us) = 2 * length us"
  by (induction us) simp_all

lemma wchars_le16 [simp]: "wchars (le16 us) = us"
proof (induction us)
  case (Cons u us)
  obtain lo hi where bs: "to_le_bytes u = [lo, hi]" by (simp add: to_le_bytes_def numeral_2_eq_2)
  have "from_le_bytes (to_le_bytes u) = u" by (rule from_to_le_bytes) simp
  with Cons show ?case by (simp only: bs le16_simps append.simps wchars.simps)
qed simp

definition units :: "rstr list \<Rightarrow> u16 list" where
  "units vs = concat (map (\<lambda>v. encode_utf16 v @ [0]) vs)"

lemma units_simps [simp]: "units [] = []" "units (v # vs) = encode_utf16 v @ 0 # units vs"
  by (simp_all add: units_def)

lemma wide_nul_le16: "wide_nul v = le16 (encode_utf16 v @ [0])"
  by (simp add: wide_nul_def le16_def)

lemma wide_list_le16: "wide_list vs = le16 (units vs @ (if vs = [] then [] else [0]))"
proof -
  have "concat (map wide_nul vs) = le16 (units vs)"
    by (induction vs) (simp_all add: wide_nul_le16)
  then show ?thesis by (simp add: wide_list_def)
qed

lemma wchars_wide_list: "wchars (wide_list vs) = units vs @ (if vs = [] then [] else [0])"
  and wchars_wide_nul [simp]: "wchars (wide_nul v) = encode_utf16 v @ [0]"
  by (simp_all only: wide_list_le16 wide_nul_le16 wchars_le16)

lemma wide_even [simp]: "even (length (wide_list vs))" "even (length (wide_nul v))"
  by (simp_all only: wide_list_le16 wide_nul_le16 length_le16) simp_all

lemma length_wide: "length (wide_nul v) = 2 * length (encode_utf16 v) + 2"
  "length (wide_list vs) = 2 * length (units vs) + (if vs = [] then 0 else 2)"
  by (simp_all only: wide_list_le16 wide_nul_le16 length_le16) simp_all

text \<open>A string the driver can take: not empty, no NUL among its characters.\<close>

definition plain :: "rstr \<Rightarrow> bool" where
  "plain v \<longleftrightarrow> v \<noteq> [] \<and> list_all (\<lambda>c. c \<noteq> 0 \<and> c \<le> 0x10FFFF) v"

lemma of_nat_u16_zero: "n < 2 ^ 16 \<Longrightarrow> (of_nat n :: u16) = 0 \<longleftrightarrow> n = 0"
  by (simp add: word_unat_eq_iff unat_of_nat take_bit_nat_eq_self)

lemma encode_utf16_plain:
  assumes "plain v"
  shows "encode_utf16 v \<noteq> []" "0 \<notin> set (encode_utf16 v)"
proof -
  show "encode_utf16 v \<noteq> []" using assms by (cases v) (auto simp: plain_def encode_utf16_def)
  have "0 \<notin> set (encode_utf16 v)" if "list_all (\<lambda>c. c \<noteq> 0 \<and> c \<le> 0x10FFFF) v"
    using that
  proof (induction v)
    case (Cons c v)
    have "c - 0x10000 \<le> 1048575" using Cons.prems by auto
    then have "(c - 0x10000) div 0x400 \<le> 1023" using div_le_mono [of "c - 0x10000" 1048575 1024] by simp
    then have "(of_nat (0xD800 + (c - 0x10000) div 0x400) :: u16) \<noteq> 0" "(of_nat (0xDC00 + (c - 0x10000) mod 0x400) :: u16) \<noteq> 0"
      using Cons.prems of_nat_u16_zero [of "0xD800 + (c - 0x10000) div 0x400"] of_nat_u16_zero [of "0xDC00 + (c - 0x10000) mod 0x400"]
        mod_less_divisor [of 1024 "c - 0x10000"] by (simp_all del: of_nat_add mod_less_divisor)
    moreover have "c < 0x10000 \<longrightarrow> (of_nat c :: u16) \<noteq> 0" using Cons.prems by (simp add: of_nat_u16_zero)
    ultimately show ?case using Cons by (simp add: encode_utf16_def del: of_nat_add)
  qed (simp add: encode_utf16_def)
  with assms show "0 \<notin> set (encode_utf16 v)" by (simp add: plain_def)
qed

lemma takeWhile_name: "0 \<notin> set us \<Longrightarrow> takeWhile (\<lambda>c. c \<noteq> 0) (us @ 0 # rest) = us"
  by (subst takeWhile_append2) auto

lemma parse_names_units:
  "list_all plain vs \<Longrightarrow> pool 16 \<Longrightarrow> parse_names pool (length vs) (units vs @ rest) = Some (map encode_utf16 vs)"
  by (induction vs) (simp_all add: takeWhile_name encode_utf16_plain Let_def)

lemma scan_names_units:
  "list_all plain vs \<Longrightarrow> rest = [] \<or> hd rest = 0 \<Longrightarrow> scan_names (units vs @ rest) = map encode_utf16 vs"
proof (induction vs)
  case Nil
  then show ?case by (cases rest) (simp_all add: scan_names.simps)
next
  case (Cons v vs)
  then show ?case by (subst scan_names.simps) (simp add: takeWhile_name encode_utf16_plain)
qed

subsection \<open>What the agent pushes is what the driver applies\<close>

definition fits_injection :: "InjectionPolicy \<Rightarrow> bool" where
  "fits_injection p \<longleftrightarrow> plain (ip_sensor_path p) \<and> length (wide_nul (ip_sensor_path p)) \<le> MaxFilePathBytes
     \<and> list_all plain (ip_exclusions p) \<and> length (wide_list (ip_exclusions p)) < 2 ^ 16"

definition fits_drops :: "DropPolicy \<Rightarrow> bool" where
  "fits_drops p \<longleftrightarrow> plain (dp_dir p) \<and> length (wide_nul (dp_dir p)) \<le> MaxDirBytes
     \<and> list_all plain (dp_extensions p) \<and> length (dp_extensions p) \<le> MaxExtensions
     \<and> length (wide_list (dp_extensions p)) \<le> MaxBlobBytes"

definition fits_names :: "rstr list \<Rightarrow> bool" where
  "fits_names names \<longleftrightarrow> list_all plain names \<and> length names \<le> MaxNames \<and> length (wide_list names) \<le> MaxBlobBytes"

lemma ulong_at_field:
  assumes "length before = i" "n < 2 ^ 32"
  shows "ulong_at (before @ to_le_bytes (u32_from_len n) @ rest) i = n"
proof -
  have "take 4 (drop i (before @ to_le_bytes (u32_from_len n) @ rest)) = to_le_bytes (u32_from_len n)"
    using assms(1) by simp
  then have "ulong_at (before @ to_le_bytes (u32_from_len n) @ rest) i = unat (u32_from_len n)"
    by (simp add: ulong_at_def from_to_le_bytes)
  with assms(2) show ?thesis by (simp add: u32_from_len_def unat_of_nat take_bit_nat_eq_self)
qed

lemmas driver_caps = MaxExtensions_def MaxBlobBytes_def MaxDirBytes_def MaxFilePathBytes_def MaxNames_def

lemma file_watch_applied:
  assumes "\<forall>n. pool n" "list_all plain exts" "length exts \<le> MaxExtensions" "length (wide_list exts) \<le> MaxBlobBytes"
  shows "ioctl_set_file_watch pool (encode_file_watch_policy enabled exts) d
    = (STATUS_SUCCESS, d\<lparr>dv_watch := \<lparr>fw_enabled = enabled, fw_extensions = if enabled then map encode_utf16 exts else []\<rparr>\<rparr>)"
proof -
  let ?h = "[if enabled then 1 else 0, 0, 0, 0] :: u8 list"
  let ?count = "to_le_bytes (u32_from_len (length exts))" and ?bytes = "to_le_bytes (u32_from_len (length (wide_list exts)))"
  have blob: "encode_file_watch_policy enabled exts = ?h @ ?count @ ?bytes @ wide_list exts"
    by (simp add: encode_file_watch_policy_def Let_def)
  have "ulong_at (?h @ ?count @ ?bytes @ wide_list exts) 4 = length exts"
    by (rule ulong_at_field) (use assms(3) in \<open>simp_all add: driver_caps\<close>)
  moreover have "ulong_at ((?h @ ?count) @ ?bytes @ wide_list exts) 8 = length (wide_list exts)"
    by (rule ulong_at_field) (use assms(4) in \<open>simp_all add: driver_caps\<close>)
  moreover have "parse_counted pool (length exts) (wchars (wide_list exts)) = Some (map encode_utf16 exts)"
    using assms(1,2) by (simp add: parse_counted_def wchars_wide_list parse_names_units del: append_Nil2)
  ultimately show ?thesis
    using assms by (auto simp: blob ioctl_set_file_watch_def Let_def)
qed

lemma drop_prefix: "length xs = n \<Longrightarrow> drop n (xs @ ys) = ys"
  by simp

lemma drop_policy_applied:
  assumes "\<forall>n. pool n" "fits_drops p"
  shows "ioctl_set_drop_policy pool (encode_drop_policy p) d
    = (STATUS_SUCCESS, d\<lparr>dv_target := encode_utf16 (dp_dir p),
         dv_drop_watch := \<lparr>fw_enabled = True, fw_extensions = map encode_utf16 (dp_extensions p)\<rparr>\<rparr>)"
proof -
  let ?exts = "wide_list (dp_extensions p)" and ?dir = "wide_nul (dp_dir p)" and ?h = "[1, 0, 0, 0] :: u8 list"
  let ?count = "to_le_bytes (u32_from_len (length (dp_extensions p)))" and ?e = "to_le_bytes (u32_from_len (length ?exts))"
    and ?d = "to_le_bytes (u32_from_len (length ?dir))"
  have blob: "encode_drop_policy p = ?h @ ?count @ ?e @ ?d @ ?exts @ ?dir" by (simp add: encode_drop_policy_def Let_def)
  note caps = assms(2) [unfolded fits_drops_def driver_caps]
  have "ulong_at (?h @ ?count @ ?e @ ?d @ ?exts @ ?dir) 4 = length (dp_extensions p)"
    by (rule ulong_at_field) (use caps in simp_all)
  moreover have "ulong_at ((?h @ ?count) @ ?e @ ?d @ ?exts @ ?dir) 8 = length ?exts"
    by (rule ulong_at_field) (use caps in simp_all)
  moreover have "ulong_at ((?h @ ?count @ ?e) @ ?d @ ?exts @ ?dir) 12 = length ?dir"
    by (rule ulong_at_field) (use caps in simp_all)
  moreover have "parse_counted pool (length (dp_extensions p)) (wchars ?exts) = Some (map encode_utf16 (dp_extensions p))"
    using assms(1) caps by (simp add: parse_counted_def wchars_wide_list parse_names_units del: append_Nil2)
  moreover have "target_apply pool (encode_utf16 (dp_dir p)) d = Some (d\<lparr>dv_target := encode_utf16 (dp_dir p)\<rparr>)" for d
    using assms(1) caps encode_utf16_plain by (simp add: target_apply_def length_wide driver_caps Let_def)
  moreover have "drop (16 + length ?exts) ((?h @ ?count @ ?e @ ?d @ ?exts) @ ?dir) = ?dir"
    by (rule drop_prefix) simp
  moreover have "length ?dir \<noteq> 0" by (simp add: length_wide)
  ultimately show ?thesis
    using assms(1) caps by (simp add: blob ioctl_set_drop_policy_def Let_def driver_caps)
qed

lemma protection_applied:
  assumes "\<forall>n. pool n" "fits_names (pp_names p)"
  shows "ioctl_set_protected pool (encode_protection_policy p) d
    = (STATUS_SUCCESS, d\<lparr>dv_names := map encode_utf16 (pp_names p)\<rparr>)"
proof -
  let ?names = "wide_list (pp_names p)" and ?h = "[if pp_names p \<noteq> [] then 1 else 0, 0, 0, 0] :: u8 list"
  let ?n = "to_le_bytes (u32_from_len (length ?names))"
  have blob: "encode_protection_policy p = ?h @ ?n @ ?names" by (simp add: encode_protection_policy_def Let_def)
  note caps = assms(2) [unfolded fits_names_def driver_caps]
  have "ulong_at (?h @ ?n @ ?names) 4 = length ?names"
    by (rule ulong_at_field) (use caps in simp_all)
  moreover have "scan_names (wchars ?names) = map encode_utf16 (pp_names p)"
    using caps scan_names_units [of "pp_names p" "if pp_names p = [] then [] else [0]"] by (simp add: wchars_wide_list)
  moreover have "2 * length (wchars ?names) = length ?names" by (simp add: length_wide wchars_wide_list)
  ultimately show ?thesis
    using assms(1) caps by (simp add: blob ioctl_set_protected_def ProtectionSetPolicy_def Let_def driver_caps)
qed

lemma injection_applied:
  assumes "\<forall>n. pool n" "fits_injection p"
  shows "ioctl_set_injection_policy pool (encode_injection_policy p) d
    = (STATUS_SUCCESS, d\<lparr>dv_sensor_dll_path := encode_utf16 (ip_sensor_path p), dv_injection_enabled := True,
         dv_extra_blocklist := if ip_exclusions p = [] then dv_extra_blocklist d
           else \<lparr>fw_enabled = True, fw_extensions = map encode_utf16 (ip_exclusions p)\<rparr>\<rparr>)"
proof -
  let ?path = "wide_nul (ip_sensor_path p)" and ?excl = "wide_list (ip_exclusions p)" and ?h = "[1, 0, 0, 0] :: u8 list"
  let ?p = "to_le_bytes (u32_from_len (length ?path))" and ?e = "to_le_bytes (u32_from_len (length ?excl))"
  have blob: "encode_injection_policy p = ?h @ ?p @ ?e @ ?path @ ?excl" by (simp add: encode_injection_policy_def Let_def)
  note caps = assms(2) [unfolded fits_injection_def driver_caps]
  have "ulong_at (?h @ ?p @ ?e @ ?path @ ?excl) 4 = length ?path"
    by (rule ulong_at_field) (use caps in simp_all)
  moreover have "ulong_at ((?h @ ?p) @ ?e @ ?path @ ?excl) 8 = length ?excl"
    by (rule ulong_at_field) (use caps in simp_all)
  moreover have "take (length ?path - 2) ?path = le16 (encode_utf16 (ip_sensor_path p))"
    by (simp add: length_wide) (simp add: wide_nul_le16)
  moreover have "scan_names (wchars ?excl) = map encode_utf16 (ip_exclusions p)"
    using caps scan_names_units [of "ip_exclusions p" "if ip_exclusions p = [] then [] else [0]"] by (simp add: wchars_wide_list)
  moreover have "encode_utf16 (ip_sensor_path p) \<noteq> []" using caps encode_utf16_plain by blast
  moreover have "drop (12 + length ?path) ((?h @ ?p @ ?e @ ?path) @ ?excl) = ?excl" by (rule drop_prefix) simp
  moreover have "wchars ?excl = [] \<longleftrightarrow> ip_exclusions p = []" by (simp add: wchars_wide_list)
  moreover have "4 \<le> length ?path" using calculation(5) by (cases "encode_utf16 (ip_sensor_path p)") (simp_all add: length_wide)
  moreover have "0 < length ?excl \<longleftrightarrow> ip_exclusions p \<noteq> []" by (auto simp: length_wide)
  ultimately show ?thesis
    using assms(1) caps by (simp add: blob ioctl_set_injection_policy_def InjectionSetPolicy_def Let_def driver_caps)
qed

text \<open>
  C19. The driver applies what the agent pushes. For policies within the driver's limits (strings not
  empty and without NUL, list and byte counts at most the caps), and when the driver gets the memory it asks
  for, pushing all three policies and the file watch succeeds, and the driver ends up with exactly
  the configured sensor path and exclusions, drop directory and extensions, protected names and watch
  list, as UTF-16; nothing else of its state changes.
\<close>

theorem driver_applies_pushed_policies:
  assumes "\<forall>n. pool n" "fits_injection injection" "fits_drops drops" "fits_names (pp_names prot)"
    and "list_all plain exts" "length exts \<le> MaxExtensions" "length (wide_list exts) \<le> MaxBlobBytes"
  shows "then_r (apply_policies (driver_ioctl pool)
        \<lparr>dpl_injection = Some injection, dpl_drops = Some drops, dpl_protection = Some prot\<rparr> d)
      (set_file_watch (driver_ioctl pool) True exts)
    = (Inr (), d\<lparr>dv_sensor_dll_path := encode_utf16 (ip_sensor_path injection), dv_injection_enabled := True,
         dv_extra_blocklist := if ip_exclusions injection = [] then dv_extra_blocklist d
           else \<lparr>fw_enabled = True, fw_extensions = map encode_utf16 (ip_exclusions injection)\<rparr>,
         dv_target := encode_utf16 (dp_dir drops),
         dv_drop_watch := \<lparr>fw_enabled = True, fw_extensions = map encode_utf16 (dp_extensions drops)\<rparr>,
         dv_names := map encode_utf16 (pp_names prot),
         dv_watch := \<lparr>fw_enabled = True, fw_extensions = map encode_utf16 exts\<rparr>\<rparr>)"
proof -
  have "ip_sensor_path injection \<noteq> []" "dp_dir drops \<noteq> []"
    using assms(2,3) by (auto simp: fits_injection_def fits_drops_def plain_def)
  moreover have "length (encode_injection_policy injection) < 2 ^ 32" "length (encode_drop_policy drops) < 2 ^ 32"
    "length (encode_protection_policy prot) < 2 ^ 32" "length (encode_file_watch_policy True exts) < 2 ^ 32"
    using assms(2-4,7) by (simp_all add: encode_injection_policy_def encode_drop_policy_def encode_protection_policy_def
        encode_file_watch_policy_def Let_def fits_injection_def fits_drops_def fits_names_def driver_caps)
  ultimately show ?thesis
    using injection_applied [OF assms(1,2)] drop_policy_applied [OF assms(1,3)] protection_applied [OF assms(1,4)]
      file_watch_applied [OF assms(1,5-7), of True]
    by (simp add: apply_policies_def set_file_watch_def then_r_def device_send_def driver_ioctl_def code_values)
qed

definition driver0 :: Driver where
  "driver0 = (let off = \<lparr>fw_enabled = False, fw_extensions = []\<rparr> in
     \<lparr>dv_watch = off, dv_drop_watch = off, dv_target = [], dv_names = [], dv_injection_enabled = False,
      dv_sensor_dll_path = [], dv_extra_blocklist = off\<rparr>)"

definition policies0 :: DriverPolicies where
  "policies0 = \<lparr>dpl_injection = Some \<lparr>ip_sensor_path = utf ''s.dll'', ip_exclusions = []\<rparr>,
     dpl_drops = Some \<lparr>dp_dir = utf ''C:'', dp_extensions = [utf ''.exe'']\<rparr>,
     dpl_protection = Some \<lparr>pp_names = [utf ''a.exe'']\<rparr>\<rparr>"

theorem driver_applies_pushed_policies_witness:
  "(\<forall>n. (\<lambda>_ :: nat. True) n) \<and> dv_names (snd (then_r (apply_policies (driver_ioctl (\<lambda>_. True)) policies0 driver0)
      (set_file_watch (driver_ioctl (\<lambda>_. True)) True []))) = [encode_utf16 (utf ''a.exe'')]"
proof -
  let ?inj = "\<lparr>ip_sensor_path = utf ''s.dll'', ip_exclusions = []\<rparr>" and ?dr = "\<lparr>dp_dir = utf ''C:'', dp_extensions = [utf ''.exe'']\<rparr>"
    and ?pr = "\<lparr>pp_names = [utf ''a.exe'']\<rparr>"
  have fits: "fits_injection ?inj" "fits_drops ?dr" "fits_names (pp_names ?pr)"
    by (simp_all add: fits_injection_def fits_drops_def fits_names_def plain_def length_wide encode_utf16_def driver_caps)
  have pool: "\<forall>n. (\<lambda>_. True) n" by simp
  have nil: "list_all plain []" "length [] \<le> MaxExtensions" "length (wide_list []) \<le> MaxBlobBytes" by (simp_all add: length_wide)
  show ?thesis
    using driver_applies_pushed_policies [OF pool fits nil, of driver0] by (simp add: policies0_def del: utf_Cons)
qed

end
