(* ===== verification/Driver_Stats.thy ===== *)
theory Driver_Stats
  imports Driver_Control
begin

text \<open>
  The driver's loss and health counters: the decoder of the \<open>GET_STATS\<close> reply and the counters kept for
  reporting (\<^verbatim>\<open>crates/agent/src/ports/driven/driver_control.rs\<close>), against the C struct the driver fills
  (\<^verbatim>\<open>driver/secoutfall/secoutfallCommon.h\<close>).
\<close>

record DriverStatsSnapshot =
  st_queue_depth :: u32
  st_queue_capacity :: u32
  st_file_queue_depth :: u32
  st_file_queue_capacity :: u32
  st_drops_queue_depth :: u32
  st_drops_queue_capacity :: u32
  st_sequence :: u64
  st_queue_overwritten :: u64
  st_alloc_failures :: u64
  st_oversized_skipped :: u64
  st_identity_misses :: u64
  st_files_overwritten :: u64
  st_file_name_queries_failed :: u64
  st_noise_writes_skipped :: u64
  st_drops_stopped :: u64
  st_drops_missed_busy :: u64
  st_drops_link_failed :: u64
  st_drops_copy_failed :: u64
  st_injections_queued :: u64
  st_injections_failed :: u64
  st_sensors_registered :: u64
  st_sensors_rejected :: u64
  st_sensor_events_drained :: u64
  st_sensor_events_dropped :: u64
  st_sensor_rings_active :: u64
  st_sensor_rings_skipped :: u64
  st_protections_stripped :: u64
  st_protection_trusted :: u64

definition STATS_SIZE :: nat where "STATS_SIZE = 208"
definition STATS_MAGIC :: u16 where "STATS_MAGIC = 0x5346"
definition STATS_VERSION :: u8 where "STATS_VERSION = 2"

definition stats_slice :: "u8 list \<Rightarrow> nat \<Rightarrow> nat \<Rightarrow> u8 list option" where
  "stats_slice bytes i n = (if i + n \<le> length bytes then Some (take n (drop i bytes)) else None)"

definition field32 :: "u8 list \<Rightarrow> nat \<Rightarrow> DriverControlError + u32" where
  "field32 bytes i = ok_or (DriverIo (utf ''stats reply truncated'')) (map_option from_le_bytes (stats_slice bytes i 4))"

definition field64 :: "u8 list \<Rightarrow> nat \<Rightarrow> DriverControlError + u64" where
  "field64 bytes i = ok_or (DriverIo (utf ''stats reply truncated'')) (map_option from_le_bytes (stats_slice bytes i 8))"

text \<open>The error text carries the length; here only that the reply was too short.\<close>

definition decode_driver_stats :: "u8 list \<Rightarrow> DriverControlError + DriverStatsSnapshot" where
  "decode_driver_stats bytes =
     (if length bytes < STATS_SIZE then Inl (DriverIo (utf ''stats reply too short''))
      else bind_r (ok_or (DriverIo (utf ''stats reply truncated'')) (stats_slice bytes 0 2)) (\<lambda>magic.
      if (from_le_bytes magic :: u16) \<noteq> STATS_MAGIC \<or> bytes ! 2 \<noteq> STATS_VERSION
      then Inl (DriverIo (utf ''stats reply: bad magic/version''))
      else
      bind_r (field32 bytes 4) (\<lambda>queue_depth.
      bind_r (field32 bytes 8) (\<lambda>queue_capacity.
      bind_r (field32 bytes 12) (\<lambda>file_queue_depth.
      bind_r (field32 bytes 16) (\<lambda>file_queue_capacity.
      bind_r (field32 bytes 20) (\<lambda>drops_queue_depth.
      bind_r (field32 bytes 24) (\<lambda>drops_queue_capacity.
      bind_r (field64 bytes 32) (\<lambda>sequence.
      bind_r (field64 bytes 40) (\<lambda>queue_overwritten.
      bind_r (field64 bytes 48) (\<lambda>alloc_failures.
      bind_r (field64 bytes 56) (\<lambda>oversized_skipped.
      bind_r (field64 bytes 64) (\<lambda>identity_misses.
      bind_r (field64 bytes 72) (\<lambda>files_overwritten.
      bind_r (field64 bytes 80) (\<lambda>file_name_queries_failed.
      bind_r (field64 bytes 88) (\<lambda>noise_writes_skipped.
      bind_r (field64 bytes 96) (\<lambda>drops_stopped.
      bind_r (field64 bytes 104) (\<lambda>drops_missed_busy.
      bind_r (field64 bytes 112) (\<lambda>drops_link_failed.
      bind_r (field64 bytes 120) (\<lambda>drops_copy_failed.
      bind_r (field64 bytes 128) (\<lambda>injections_queued.
      bind_r (field64 bytes 136) (\<lambda>injections_failed.
      bind_r (field64 bytes 144) (\<lambda>sensors_registered.
      bind_r (field64 bytes 152) (\<lambda>sensors_rejected.
      bind_r (field64 bytes 160) (\<lambda>protections_stripped.
      bind_r (field64 bytes 168) (\<lambda>protection_trusted.
      bind_r (field64 bytes 176) (\<lambda>sensor_events_drained.
      bind_r (field64 bytes 184) (\<lambda>sensor_events_dropped.
      bind_r (field64 bytes 192) (\<lambda>sensor_rings_active.
      bind_r (field64 bytes 200) (\<lambda>sensor_rings_skipped.
      Inr \<lparr>st_queue_depth = queue_depth, st_queue_capacity = queue_capacity, st_file_queue_depth = file_queue_depth,
        st_file_queue_capacity = file_queue_capacity, st_drops_queue_depth = drops_queue_depth,
        st_drops_queue_capacity = drops_queue_capacity, st_sequence = sequence, st_queue_overwritten = queue_overwritten,
        st_alloc_failures = alloc_failures, st_oversized_skipped = oversized_skipped, st_identity_misses = identity_misses,
        st_files_overwritten = files_overwritten, st_file_name_queries_failed = file_name_queries_failed,
        st_noise_writes_skipped = noise_writes_skipped, st_drops_stopped = drops_stopped,
        st_drops_missed_busy = drops_missed_busy, st_drops_link_failed = drops_link_failed,
        st_drops_copy_failed = drops_copy_failed, st_injections_queued = injections_queued,
        st_injections_failed = injections_failed, st_sensors_registered = sensors_registered,
        st_sensors_rejected = sensors_rejected, st_sensor_events_drained = sensor_events_drained,
        st_sensor_events_dropped = sensor_events_dropped, st_sensor_rings_active = sensor_rings_active,
        st_sensor_rings_skipped = sensor_rings_skipped, st_protections_stripped = protections_stripped,
        st_protection_trusted = protection_trusted\<rparr>))))))))))))))))))))))))))))))"

definition loss_counters :: "DriverControlError + DriverStatsSnapshot \<Rightarrow> DriverControlError + (rstr \<rightharpoonup> u64)" where
  "loss_counters stats =
     bind_r stats (\<lambda>st. Inr (map_of (rev
       [(utf ''queue_overwritten'', st_queue_overwritten st),
        (utf ''alloc_failures'', st_alloc_failures st),
        (utf ''oversized_skipped'', st_oversized_skipped st),
        (utf ''identity_misses'', st_identity_misses st),
        (utf ''files_overwritten'', st_files_overwritten st),
        (utf ''file_name_queries_failed'', st_file_name_queries_failed st),
        (utf ''noise_writes_skipped'', st_noise_writes_skipped st),
        (utf ''drops_stopped'', st_drops_stopped st),
        (utf ''drops_missed_busy'', st_drops_missed_busy st),
        (utf ''drops_link_failed'', st_drops_link_failed st),
        (utf ''drops_copy_failed'', st_drops_copy_failed st),
        (utf ''injections_queued'', st_injections_queued st),
        (utf ''injections_failed'', st_injections_failed st),
        (utf ''sensors_registered'', st_sensors_registered st),
        (utf ''sensors_rejected'', st_sensors_rejected st),
        (utf ''sensor_events_drained'', st_sensor_events_drained st),
        (utf ''sensor_events_dropped'', st_sensor_events_dropped st),
        (utf ''protections_stripped'', st_protections_stripped st),
        (utf ''protection_trusted'', st_protection_trusted st)])))"

subsection \<open>The C struct\<close>

text \<open>
  \<open>DriverStats\<close> in memory, field by field in the order of the header: the three prefix fields and a
  reserved byte, six \<open>ULONG\<close>s, four bytes of padding to the eight-byte alignment of the \<open>ULONG64\<close>s.
\<close>

definition stats_head :: "u8 \<Rightarrow> DriverStatsSnapshot \<Rightarrow> u8 list" where
  "stats_head reserved st = to_le_bytes STATS_MAGIC @ [STATS_VERSION, reserved]"

definition stats_ulongs :: "DriverStatsSnapshot \<Rightarrow> u32 list" where
  "stats_ulongs st = [st_queue_depth st, st_queue_capacity st, st_file_queue_depth st, st_file_queue_capacity st,
     st_drops_queue_depth st, st_drops_queue_capacity st]"

definition stats_ulong64s :: "DriverStatsSnapshot \<Rightarrow> u64 list" where
  "stats_ulong64s st = [st_sequence st, st_queue_overwritten st, st_alloc_failures st, st_oversized_skipped st,
     st_identity_misses st, st_files_overwritten st, st_file_name_queries_failed st, st_noise_writes_skipped st,
     st_drops_stopped st, st_drops_missed_busy st, st_drops_link_failed st, st_drops_copy_failed st,
     st_injections_queued st, st_injections_failed st, st_sensors_registered st, st_sensors_rejected st,
     st_protections_stripped st, st_protection_trusted st, st_sensor_events_drained st, st_sensor_events_dropped st,
     st_sensor_rings_active st, st_sensor_rings_skipped st]"

definition DriverStats_bytes :: "u8 \<Rightarrow> u8 list \<Rightarrow> DriverStatsSnapshot \<Rightarrow> u8 list" where
  "DriverStats_bytes reserved padding st = stats_head reserved st @ concat (map to_le_bytes (stats_ulongs st)) @ padding
     @ concat (map to_le_bytes (stats_ulong64s st))"

text \<open>Field \<open>k\<close> of a run of equal-width fields.\<close>

lemma slice_of_run:
  fixes ws :: "'a::len word list"
  assumes "length pre = p" "LENGTH('a) div 8 = n" "k < length ws"
  shows "stats_slice (pre @ concat (map to_le_bytes ws) @ rest) (p + n * k) n = Some (to_le_bytes (ws ! k))"
proof -
  have split: "concat (map to_le_bytes ws) = concat (map to_le_bytes (take k ws)) @ to_le_bytes (ws ! k) @ concat (map to_le_bytes (drop (Suc k) ws))"
    using id_take_nth_drop [OF assms(3)] by (metis concat.simps(2) concat_append list.simps(9) map_append)
  have len: "length (concat (map to_le_bytes xs)) = n * length xs" for xs :: "'a word list"
    using assms(2) by (induction xs) simp_all
  show ?thesis
    using assms by (simp add: stats_slice_def split len del: length_concat)
qed

lemma field32_run:
  "length pre = p \<Longrightarrow> k < length ws \<Longrightarrow> field32 (pre @ concat (map to_le_bytes ws) @ rest) (p + 4 * k) = Inr (ws ! k)"
  using slice_of_run [of pre p 4 k ws rest] by (simp add: field32_def ok_or_def from_to_le_bytes)

lemma field64_run:
  "length pre = p \<Longrightarrow> k < length ws \<Longrightarrow> field64 (pre @ concat (map to_le_bytes ws) @ rest) (p + 8 * k) = Inr (ws ! k)"
  using slice_of_run [of pre p 8 k ws rest] by (simp add: field64_def ok_or_def from_to_le_bytes)

lemma length_fields [simp]: "length (concat (map to_le_bytes (ws :: 'a::len word list))) = LENGTH('a) div 8 * length ws"
  by (induction ws) simp_all

lemma stats_fields:
  assumes "length padding = 4"
  shows "k < 6 \<Longrightarrow> field32 (DriverStats_bytes reserved padding st @ extra) (4 + 4 * k) = Inr (stats_ulongs st ! k)"
    and "k < 22 \<Longrightarrow> field64 (DriverStats_bytes reserved padding st @ extra) (32 + 8 * k) = Inr (stats_ulong64s st ! k)"
proof -
  let ?head = "stats_head reserved st" and ?u32 = "concat (map to_le_bytes (stats_ulongs st))"
    and ?u64 = "concat (map to_le_bytes (stats_ulong64s st))"
  have len: "length ?head = 4" "length (stats_ulongs st) = 6" "length (stats_ulong64s st) = 22"
    by (simp_all add: stats_head_def stats_ulongs_def stats_ulong64s_def)
  show "field32 (DriverStats_bytes reserved padding st @ extra) (4 + 4 * k) = Inr (stats_ulongs st ! k)" if "k < 6"
    using field32_run [of ?head 4 k "stats_ulongs st" "padding @ ?u64 @ extra"] that len by (simp add: DriverStats_bytes_def)
  show "field64 (DriverStats_bytes reserved padding st @ extra) (32 + 8 * k) = Inr (stats_ulong64s st ! k)" if "k < 22"
    using field64_run [of "?head @ ?u32 @ padding" 32 k "stats_ulong64s st" extra] that len assms
    by (simp add: DriverStats_bytes_def)
qed

lemmas stats_fields32 = stats_fields(1) [where k = 0, simplified] stats_fields(1) [where k = 1, simplified]
  stats_fields(1) [where k = 2, simplified] stats_fields(1) [where k = 3, simplified]
  stats_fields(1) [where k = 4, simplified] stats_fields(1) [where k = 5, simplified]

lemmas stats_fields64 = stats_fields(2) [where k = 0, simplified] stats_fields(2) [where k = 1, simplified]
  stats_fields(2) [where k = 2, simplified] stats_fields(2) [where k = 3, simplified] stats_fields(2) [where k = 4, simplified]
  stats_fields(2) [where k = 5, simplified] stats_fields(2) [where k = 6, simplified] stats_fields(2) [where k = 7, simplified]
  stats_fields(2) [where k = 8, simplified] stats_fields(2) [where k = 9, simplified] stats_fields(2) [where k = 10, simplified]
  stats_fields(2) [where k = 11, simplified] stats_fields(2) [where k = 12, simplified] stats_fields(2) [where k = 13, simplified]
  stats_fields(2) [where k = 14, simplified] stats_fields(2) [where k = 15, simplified] stats_fields(2) [where k = 16, simplified]
  stats_fields(2) [where k = 17, simplified] stats_fields(2) [where k = 18, simplified] stats_fields(2) [where k = 19, simplified]
  stats_fields(2) [where k = 20, simplified] stats_fields(2) [where k = 21, simplified]

lemma stats_prefix:
  assumes "length padding = 4"
  shows "length (DriverStats_bytes reserved padding st) = STATS_SIZE"
    and "stats_slice (DriverStats_bytes reserved padding st @ extra) 0 2 = Some (to_le_bytes STATS_MAGIC)"
    and "(DriverStats_bytes reserved padding st @ extra) ! 2 = STATS_VERSION"
  using assms by (simp_all add: DriverStats_bytes_def stats_head_def stats_slice_def STATS_SIZE_def stats_ulongs_def
      stats_ulong64s_def nth_append)

text \<open>Counters that all differ.\<close>

definition st0 :: DriverStatsSnapshot where
  "st0 = \<lparr>st_queue_depth = 1, st_queue_capacity = 2, st_file_queue_depth = 3, st_file_queue_capacity = 4, st_drops_queue_depth = 5, st_drops_queue_capacity = 6, st_sequence = 7, st_queue_overwritten = 8, st_alloc_failures = 9, st_oversized_skipped = 10, st_identity_misses = 11, st_files_overwritten = 12, st_file_name_queries_failed = 13, st_noise_writes_skipped = 14, st_drops_stopped = 15, st_drops_missed_busy = 16, st_drops_link_failed = 17, st_drops_copy_failed = 18, st_injections_queued = 19, st_injections_failed = 20, st_sensors_registered = 21, st_sensors_rejected = 22, st_sensor_events_drained = 23, st_sensor_events_dropped = 24, st_sensor_rings_active = 25, st_sensor_rings_skipped = 26, st_protections_stripped = 27, st_protection_trusted = 28\<rparr>"

text \<open>
  The agent reads the driver's statistics as the driver wrote them. Whatever values the counters
  have and whatever is in the reserved byte and the padding, decoding the C struct gives back every
  counter under its own name, and bytes a newer driver appends are ignored.
\<close>

theorem driver_stats_roundtrip:
  assumes "length padding = 4"
  shows "decode_driver_stats (DriverStats_bytes reserved padding st @ extra) = Inr st"
  unfolding decode_driver_stats_def
  by (simp add: stats_prefix [OF assms] stats_fields32 [OF assms] stats_fields64 [OF assms] ok_or_def from_to_le_bytes
        stats_ulongs_def stats_ulong64s_def)

theorem driver_stats_roundtrip_witness:
  "decode_driver_stats (DriverStats_bytes 0 [0, 0, 0, 0] st0 @ [7]) = Inr st0"
  by (rule driver_stats_roundtrip) simp

text \<open>A reply is refused exactly when it is too short or does not carry the magic and version.\<close>

lemma fields_long:
  "STATS_SIZE \<le> length bytes \<Longrightarrow> i + 4 \<le> STATS_SIZE \<Longrightarrow> field32 bytes i = Inr (from_le_bytes (take 4 (drop i bytes)))"
  "STATS_SIZE \<le> length bytes \<Longrightarrow> i + 8 \<le> STATS_SIZE \<Longrightarrow> field64 bytes i = Inr (from_le_bytes (take 8 (drop i bytes)))"
  by (simp_all add: field32_def field64_def stats_slice_def ok_or_def)

lemma decode_driver_stats_rejects:
  "(\<exists>e. decode_driver_stats bytes = Inl e) \<longleftrightarrow>
     length bytes < STATS_SIZE \<or> take 2 bytes \<noteq> to_le_bytes STATS_MAGIC \<or> bytes ! 2 \<noteq> STATS_VERSION"
proof (cases "length bytes < STATS_SIZE")
  case False
  then have "stats_slice bytes 0 2 = Some (take 2 bytes)" by (simp add: stats_slice_def STATS_SIZE_def)
  moreover have "(from_le_bytes (take 2 bytes) :: u16) = STATS_MAGIC \<longleftrightarrow> take 2 bytes = to_le_bytes STATS_MAGIC"
  proof
    assume m: "(from_le_bytes (take 2 bytes) :: u16) = STATS_MAGIC"
    have "to_le_bytes (from_le_bytes (take 2 bytes) :: u16) = take 2 bytes"
      using False by (intro to_le_bytes_from_le_bytes) (simp_all add: STATS_SIZE_def)
    with m show "take 2 bytes = to_le_bytes STATS_MAGIC" by simp
  qed (simp add: from_to_le_bytes)
  moreover note fields_long [of bytes]
  ultimately show ?thesis using False by (auto simp: decode_driver_stats_def ok_or_def STATS_SIZE_def)
qed (simp add: decode_driver_stats_def)

end
