(* ===== verification/User_Actor.thy ===== *)
theory User_Actor
  imports Kernel_Service Ipc_Server Screenshot_Intake
begin

text \<open>
  The user-actor, the process that plays the user on the analysed desktop
  (\<^verbatim>\<open>crates/user-actor/src\<close>: \<^verbatim>\<open>domain.rs\<close>, \<^verbatim>\<open>app.rs\<close>, \<^verbatim>\<open>plugins\<close>). It runs the same kernel as
  the agent over its own events: the configuration push and foreground changes. What the capture port
  yields and what the bounded screenshot queue answers are arbitrary sequences.
\<close>

subsection \<open>Domain\<close>

record FocusInfo =
  fi_pid :: u32
  fi_title :: rstr
  fi_process :: "rstr option"

text \<open>The dedup state is the last reported focus.\<close>

definition focus_changed :: "FocusInfo \<Rightarrow> FocusInfo option \<Rightarrow> FocusInfo option \<times> FocusInfo option" where
  "focus_changed candidate previous =
     (if previous = Some candidate then (None, previous) else (Some candidate, Some candidate))"

datatype ActorEvent = Welcomed Welcome | FocusChanged FocusInfo

datatype ActorBusEvent = ConfigApplied UserActorConfig | ForegroundChanged FocusInfo | ScreenshotTaken u32
  | CaptureQuotaExhausted

record RuntimeState =
  rs_session_id :: u32
  rs_config :: "UserActorConfig option"

subsection \<open>Scripted activities\<close>

datatype Key = KWin | KCtrl | KShift | KAlt | KEscape | KTab | KEnter | KBackspace | KSpace | KDigit u8 | KLetter char
  | KAdd | KSubtract | KMultiply | KDivide | KDecimal | KRaw u16

datatype ActivityStep =
    Launch rstr "rstr list"
  | Wait u64
  | TypeText rstr
  | PressKey Key
  | Hotkey "Key list"

record ActivityControl =
  ctl_stopped :: bool
  ctl_paused :: bool
  ctl_started :: bool

definition ActivityControl_new :: ActivityControl where
  "ActivityControl_new = \<lparr>ctl_stopped = False, ctl_paused = False, ctl_started = False\<rparr>"

definition control_begin :: "ActivityControl \<Rightarrow> bool \<times> ActivityControl" where
  "control_begin c = (\<not> ctl_started c, c\<lparr>ctl_started := True\<rparr>)"

record ScriptedActivity =
  sa_name :: rstr
  sa_steps :: "ActivityStep list"
  sa_control :: ActivityControl
  sa_loops :: nat   \<comment> \<open>script loops spawned\<close>

definition ScriptedActivity_new :: "string \<Rightarrow> ActivityStep list \<Rightarrow> ScriptedActivity" where
  "ScriptedActivity_new name steps = \<lparr>sa_name = utf name, sa_steps = steps, sa_control = ActivityControl_new, sa_loops = 0\<rparr>"

definition activity_start :: "ScriptedActivity \<Rightarrow> ScriptedActivity" where
  "activity_start a = (case control_begin (sa_control a) of (first, c) \<Rightarrow>
     if first then a\<lparr>sa_control := c, sa_loops := sa_loops a + 1\<rparr> else a\<lparr>sa_control := c\<rparr>)"

definition activity_stop :: "ScriptedActivity \<Rightarrow> ScriptedActivity" where
  "activity_stop a = a\<lparr>sa_control := (sa_control a)\<lparr>ctl_stopped := True\<rparr>\<rparr>"

definition notepad_script :: "ActivityStep list" where
  "notepad_script =
     [Launch (utf ''notepad.exe'') [], Wait 1500,
      TypeText (utf ''Quarterly report draft'' @ [13, 10] @ utf ''The numbers look reasonable this month.'' @ [13, 10]), Wait 900,
      TypeText (utf ''TODO: verify the export dialog remembers the last folder.'' @ [13, 10]), Wait 1200,
      TypeText (utf ''Done for now.'' @ [13, 10]), Wait 2000]"

definition calc_script :: "ActivityStep list" where
  "calc_script =
     [Launch (utf ''calc.exe'') [], Wait 2500, PressKey (KDigit 1), PressKey (KDigit 2), PressKey KAdd, PressKey (KDigit 3),
      PressKey (KDigit 0), PressKey KEnter, Wait 800, PressKey KMultiply, PressKey (KDigit 2), PressKey KEnter, Wait 800,
      PressKey KEscape, Wait 600, PressKey (KDigit 9), PressKey KDivide, PressKey (KDigit 3), PressKey KEnter, Wait 1500]"

definition explorer_script :: "ActivityStep list" where
  "explorer_script =
     [Hotkey [KWin, KLetter CHR ''E''], Wait 2000, Hotkey [KCtrl, KLetter CHR ''L''], Wait 300,
      TypeText (win ''C:/Users/Public/Documents''), PressKey KEnter, Wait 1500, Hotkey [KCtrl, KLetter CHR ''L''], Wait 300,
      TypeText (win ''C:/Windows/Temp''), PressKey KEnter, Wait 1500, Hotkey [KAlt, KTab]]"

definition virtual_key :: "Key \<Rightarrow> u16" where
  "virtual_key key = (case key of KWin \<Rightarrow> 0x5B | KCtrl \<Rightarrow> 0x11 | KShift \<Rightarrow> 0x10 | KAlt \<Rightarrow> 0x12 | KEscape \<Rightarrow> 0x1B
     | KTab \<Rightarrow> 0x09 | KEnter \<Rightarrow> 0x0D | KBackspace \<Rightarrow> 0x08 | KSpace \<Rightarrow> 0x20 | KDigit d \<Rightarrow> 0x30 + ucast (min d 9)
     | KLetter c \<Rightarrow> of_nat (let n = of_char c in if 97 \<le> n \<and> n \<le> (122 :: nat) then n - 32 else n)
     | KAdd \<Rightarrow> 0x6B | KSubtract \<Rightarrow> 0x6D | KMultiply \<Rightarrow> 0x6A | KDivide \<Rightarrow> 0x6F | KDecimal \<Rightarrow> 0x6E | KRaw vk \<Rightarrow> vk)"

subsection \<open>Plugins\<close>

datatype ScreenshotSinkError = Closed | Full | Oversize

record Actor =
  act_runtime :: RuntimeState
  act_bus :: "ActorBusEvent list"
  act_captured :: u32
  act_quota_exhausted :: bool
  act_queue :: "(u32 \<times> u8 list) list"   \<comment> \<open>frames the sink queue took, in order\<close>
  act_scripted :: bool
  act_activities :: "ScriptedActivity list"
  act_capture :: "nat \<Rightarrow> u8 list option"
  act_captures :: nat
  act_try_send :: "nat \<Rightarrow> TrySend"
  act_sends :: nat

definition bus_publish :: "ActorBusEvent \<Rightarrow> Actor \<Rightarrow> Actor" where
  "bus_publish ev a = a\<lparr>act_bus := act_bus a @ [ev]\<rparr>"

definition config_apply_pre :: "ActorEvent \<Rightarrow> Actor \<Rightarrow> Actor" where
  "config_apply_pre ev a =
     (case ev of
        Welcomed welcome \<Rightarrow>
          bus_publish (ConfigApplied (wl_config welcome))
            (a\<lparr>act_runtime := \<lparr>rs_session_id = wl_session_id welcome, rs_config = Some (wl_config welcome)\<rparr>\<rparr>)
      | _ \<Rightarrow> a)"

text \<open>\<open>IpcScreenshotSink::send\<close>: an oversized frame never reaches the queue.\<close>

definition sink_send :: "u32 \<Rightarrow> u8 list \<Rightarrow> Actor \<Rightarrow> (ScreenshotSinkError + unit) \<times> Actor" where
  "sink_send seq jpeg a =
     (if SCREENSHOT_SEQ_LEN + length jpeg > MAX_PAYLOAD_LEN then (Inl Oversize, a)
      else let outcome = act_try_send a (act_sends a); a = a\<lparr>act_sends := Suc (act_sends a)\<rparr> in
        case outcome of
          SendOk \<Rightarrow> (Inr (), a\<lparr>act_queue := act_queue a @ [(seq, jpeg)]\<rparr>)
        | SendFull \<Rightarrow> (Inl Full, a)
        | SendClosed \<Rightarrow> (Inl Closed, a))"

definition capture_screen :: "Actor \<Rightarrow> u8 list option \<times> Actor" where
  "capture_screen a = (act_capture a (act_captures a), a\<lparr>act_captures := Suc (act_captures a)\<rparr>)"

text \<open>One event at a time nobody else takes the slot, so the exchange succeeds.\<close>

definition handle_focus :: "FocusInfo \<Rightarrow> Actor \<Rightarrow> Actor" where
  "handle_focus focus a =
     (case rs_config (act_runtime a) of
        None \<Rightarrow> a
      | Some config \<Rightarrow>
          let a = bus_publish (ForegroundChanged focus) a in
          if \<not> uac_screencapture config then a
          else let quota = uac_max_screenshots_per_session config; seq = act_captured a in
            if seq \<ge> quota then
              (if act_quota_exhausted a then a else bus_publish CaptureQuotaExhausted (a\<lparr>act_quota_exhausted := True\<rparr>))
            else let a = a\<lparr>act_captured := seq + 1\<rparr> in
              case capture_screen a of
                (None, a) \<Rightarrow> a\<lparr>act_captured := act_captured a - 1\<rparr>
              | (Some jpeg, a) \<Rightarrow>
                  (case sink_send seq jpeg a of
                     (Inr _, a) \<Rightarrow> bus_publish (ScreenshotTaken seq) a
                   | (Inl _, a) \<Rightarrow> a\<lparr>act_captured := act_captured a - 1\<rparr>))"

definition focus_watch_pre :: "ActorEvent \<Rightarrow> Actor \<Rightarrow> Actor" where
  "focus_watch_pre ev a = (case ev of FocusChanged focus \<Rightarrow> handle_focus focus a | _ \<Rightarrow> a)"

definition start_all :: "Actor \<Rightarrow> Actor" where
  "start_all a = (if act_scripted a then a
     else a\<lparr>act_scripted := True, act_activities := map activity_start (act_activities a)\<rparr>)"

definition stop_all :: "Actor \<Rightarrow> Actor" where
  "stop_all a = a\<lparr>act_activities := map activity_stop (act_activities a)\<rparr>"

definition scripted_pre :: "ActorEvent \<Rightarrow> Actor \<Rightarrow> Actor" where
  "scripted_pre ev a =
     (case ev of Welcomed welcome \<Rightarrow> if uac_scripted (wl_config welcome) \<and> \<not> act_scripted a then start_all a else a | _ \<Rightarrow> a)"

subsection \<open>Assembly\<close>

definition watcher :: "string \<Rightarrow> (ActorEvent \<Rightarrow> Actor \<Rightarrow> Actor) \<Rightarrow> (ActorEvent, Actor) MiddlewarePluginPort" where
  "watcher name f = \<lparr>mw_name = utf name, mw_pre = (\<lambda>ev a. (Continue, ev, f ev a)), mw_post = default_post\<rparr>"

definition actor_middleware :: "(ActorEvent, Actor) MiddlewarePluginPort list" where
  "actor_middleware = [watcher ''config-apply'' config_apply_pre, watcher ''focus-watch'' focus_watch_pre,
     watcher ''scripted-runner'' scripted_pre]"

definition actor_assemble :: "(nat \<Rightarrow> u8 list option) \<Rightarrow> (nat \<Rightarrow> TrySend) \<Rightarrow> Actor" where
  "actor_assemble capture try_send =
     \<lparr>act_runtime = \<lparr>rs_session_id = 0, rs_config = None\<rparr>, act_bus = [], act_captured = 0, act_quota_exhausted = False,
      act_queue = [], act_scripted = False,
      act_activities = [ScriptedActivity_new ''notepad'' notepad_script, ScriptedActivity_new ''calc'' calc_script,
        ScriptedActivity_new ''explorer'' explorer_script],
      act_capture = capture, act_captures = 0, act_try_send = try_send, act_sends = 0\<rparr>"

definition actor_run :: "ActorEvent list \<Rightarrow> Actor \<Rightarrow> Actor" where
  "actor_run evs a = fold (accept actor_middleware) evs a"

lemma actor_accept: "accept actor_middleware ev a = scripted_pre ev (focus_watch_pre ev (config_apply_pre ev a))"
  by (simp add: accept_def actor_middleware_def watcher_def default_post_def)

subsection \<open>Captures are numbered and bounded\<close>

text \<open>
  What every event keeps: the frames handed to the sink are numbered from zero without gaps, the
  counter is their number and stays within the quota, and no frame exceeds the wire cap.
\<close>

definition actor_inv :: "u32 \<Rightarrow> Actor \<Rightarrow> bool" where
  "actor_inv quota a \<longleftrightarrow> map fst (act_queue a) = map of_nat [0..<length (act_queue a)]
     \<and> length (act_queue a) = unat (act_captured a) \<and> act_captured a \<le> quota
     \<and> list_all (\<lambda>(_, jpeg). SCREENSHOT_SEQ_LEN + length jpeg \<le> MAX_PAYLOAD_LEN) (act_queue a)
     \<and> (rs_config (act_runtime a) = None \<longrightarrow> act_queue a = [])
     \<and> (\<forall>c. rs_config (act_runtime a) = Some c \<longrightarrow> uac_max_screenshots_per_session c \<le> quota)
     \<and> list_all (\<lambda>s. sa_loops s = (if act_scripted a then 1 else 0) \<and> ctl_started (sa_control s) = act_scripted a) (act_activities a)"

definition quota_within :: "u32 \<Rightarrow> ActorEvent \<Rightarrow> bool" where
  "quota_within quota ev = (case ev of Welcomed w \<Rightarrow> uac_max_screenshots_per_session (wl_config w) \<le> quota | _ \<Rightarrow> True)"

lemma bus_publish_simps [simp]:
  "act_queue (bus_publish ev a) = act_queue a" "act_captured (bus_publish ev a) = act_captured a"
  "act_runtime (bus_publish ev a) = act_runtime a" "act_activities (bus_publish ev a) = act_activities a"
  "act_scripted (bus_publish ev a) = act_scripted a" "act_quota_exhausted (bus_publish ev a) = act_quota_exhausted a"
  by (simp_all add: bus_publish_def)

lemma bus_publish_inv [simp]: "actor_inv quota (bus_publish ev a) = actor_inv quota a"
  by (simp add: actor_inv_def)

lemma sink_send_effect:
  assumes "sink_send seq jpeg a = (r, a')"
  shows "act_captured a' = act_captured a" "act_runtime a' = act_runtime a" "act_activities a' = act_activities a"
    "act_scripted a' = act_scripted a"
    and "(case r of Inl _ \<Rightarrow> act_queue a' = act_queue a
        | Inr _ \<Rightarrow> act_queue a' = act_queue a @ [(seq, jpeg)] \<and> SCREENSHOT_SEQ_LEN + length jpeg \<le> MAX_PAYLOAD_LEN)"
  using assms by (auto simp: sink_send_def Let_def split: if_splits TrySend.splits)

lemma word_below_succ: "seq < (quota :: u32) \<Longrightarrow> unat (seq + 1) = Suc (unat seq) \<and> seq + 1 \<le> quota"
proof -
  assume "seq < quota"
  then have "unat seq < unat quota" by (simp add: word_less_nat_alt)
  moreover have "unat quota < 2 ^ 32" using unsigned_less [of quota] by simp
  ultimately have "unat (seq + 1) = Suc (unat seq)" by (simp add: unat_word_ariths)
  with \<open>unat seq < unat quota\<close> show ?thesis by (simp add: word_le_nat_alt)
qed

lemma config_apply_inv: "actor_inv quota a \<Longrightarrow> quota_within quota ev \<Longrightarrow> actor_inv quota (config_apply_pre ev a)"
  by (auto simp: config_apply_pre_def quota_within_def actor_inv_def split: ActorEvent.splits)

lemma scripted_inv: "actor_inv quota a \<Longrightarrow> actor_inv quota (scripted_pre ev a)"
  by (auto simp: scripted_pre_def start_all_def actor_inv_def list_all_iff activity_start_def control_begin_def
        split: ActorEvent.splits option.splits)

lemma handle_focus_inv:
  assumes inv: "actor_inv quota a"
  shows "actor_inv quota (handle_focus focus a)"
proof (cases "rs_config (act_runtime a)")
  case (Some config)
  let ?b = "bus_publish (ForegroundChanged focus) a"
  have quota: "uac_max_screenshots_per_session config \<le> quota" using inv Some by (simp add: actor_inv_def)
  show ?thesis
  proof (cases "uac_screencapture config \<and> act_captured a < uac_max_screenshots_per_session config")
    case True
    let ?c = "?b\<lparr>act_captured := act_captured a + 1, act_captures := Suc (act_captures ?b)\<rparr>"
    note next_seq = word_below_succ [OF conjunct2 [OF True]]
    have base: "actor_inv quota (b\<lparr>act_captured := act_captured a\<rparr>)"
      if "act_queue b = act_queue a" "act_runtime b = act_runtime a" "act_activities b = act_activities a" "act_scripted b = act_scripted a" for b
      using inv that by (simp add: actor_inv_def)
    have sent: "actor_inv quota b"
      if "act_queue b = act_queue a @ [(act_captured a, jpeg)]" "SCREENSHOT_SEQ_LEN + length jpeg \<le> MAX_PAYLOAD_LEN"
        "act_captured b = act_captured a + 1" "act_runtime b = act_runtime a" "act_activities b = act_activities a"
        "act_scripted b = act_scripted a" for b jpeg
      using inv that next_seq quota Some by (auto simp: actor_inv_def)
    have unfolded: "handle_focus focus a = (case act_capture ?b (act_captures ?b) of
        None \<Rightarrow> ?c\<lparr>act_captured := act_captured a\<rparr>
      | Some jpeg \<Rightarrow> (case sink_send (act_captured a) jpeg ?c of
          (Inr _, d) \<Rightarrow> bus_publish (ScreenshotTaken (act_captured a)) d | (Inl _, d) \<Rightarrow> d\<lparr>act_captured := act_captured d - 1\<rparr>))"
      using True Some by (simp add: handle_focus_def capture_screen_def Let_def not_le [symmetric] split: option.split prod.split sum.split)
    show ?thesis
    proof (cases "act_capture ?b (act_captures ?b)")
      case None
      then show ?thesis unfolding unfolded by (simp add: base)
    next
      case (Some jpeg)
      obtain r d where send: "sink_send (act_captured a) jpeg ?c = (r, d)" by fastforce
      note effect = sink_send_effect [OF send]
      show ?thesis
      proof (cases r)
        case (Inl e)
        with effect have "actor_inv quota (d\<lparr>act_captured := act_captured a\<rparr>)" by (intro base) simp_all
        with effect Inl Some show ?thesis by (simp add: unfolded send)
      next
        case (Inr u)
        with effect have "actor_inv quota d" by (intro sent [of d jpeg]) simp_all
        with Inr Some show ?thesis by (simp add: unfolded send)
      qed
    qed
  next
    case False
    with inv Some show ?thesis by (auto simp: handle_focus_def Let_def not_less) (auto simp: actor_inv_def)
  qed
qed (use inv in \<open>simp add: handle_focus_def\<close>)

lemma actor_accept_inv: "actor_inv quota a \<Longrightarrow> quota_within quota ev \<Longrightarrow> actor_inv quota (accept actor_middleware ev a)"
  by (auto simp: actor_accept focus_watch_pre_def config_apply_inv scripted_inv handle_focus_inv split: ActorEvent.splits)

lemma actor_run_inv: "actor_inv quota a \<Longrightarrow> list_all (quota_within quota) evs \<Longrightarrow> actor_inv quota (actor_run evs a)"
  by (induction evs arbitrary: a) (simp_all add: actor_run_def actor_accept_inv)

lemma actor_assemble_inv: "actor_inv quota (actor_assemble capture try_send)"
  by (simp add: actor_inv_def actor_assemble_def ScriptedActivity_new_def ActivityControl_new_def)

text \<open>
  The user-actor stays within its quota. Over any sequence of configuration pushes and foreground
  changes, and whatever the capture and the queue answer, the frames handed to the transport are
  numbered 0, 1, 2, ... without gap or repetition, never more than the largest quota that was pushed,
  none above the wire cap, none before a configuration; and each scripted activity has one script loop
  at most, however often the configuration is pushed again.
\<close>

theorem user_actor_captures_bounded:
  assumes "list_all (quota_within quota) evs" "a = actor_run evs (actor_assemble capture try_send)"
  shows "map fst (act_queue a) = map of_nat [0..<length (act_queue a)] \<and> length (act_queue a) \<le> unat quota
    \<and> list_all (\<lambda>(_, jpeg). SCREENSHOT_SEQ_LEN + length jpeg \<le> MAX_PAYLOAD_LEN) (act_queue a)
    \<and> (if rs_config (act_runtime a) = None then act_queue a = [] else True)
    \<and> list_all (\<lambda>s. sa_loops s \<le> 1) (act_activities a)"
proof -
  have "actor_inv quota a" unfolding assms(2) using actor_assemble_inv assms(1) by (rule actor_run_inv)
  then show ?thesis by (auto simp: actor_inv_def word_le_nat_alt list_all_iff)
qed

definition pushed :: "u32 \<Rightarrow> Welcome" where
  "pushed n = \<lparr>wl_session_id = 0, wl_config = (user_actor_config AgentConfig_default)\<lparr>uac_screencapture := True,
     uac_max_screenshots_per_session := n\<rparr>\<rparr>"

definition desktop :: FocusInfo where
  "desktop = \<lparr>fi_pid = 4, fi_title = utf ''Desktop'', fi_process = None\<rparr>"

theorem user_actor_captures_bounded_witness:
  "length (act_queue (actor_run [Welcomed (pushed 1), FocusChanged desktop, FocusChanged desktop]
     (actor_assemble (\<lambda>_. Some [1]) (\<lambda>_. SendOk)))) \<le> 1"
proof -
  have "list_all (quota_within 1) [Welcomed (pushed 1), FocusChanged desktop, FocusChanged desktop]"
    by (simp add: quota_within_def pushed_def)
  from user_actor_captures_bounded [OF this refl, of "\<lambda>_. Some [1]" "\<lambda>_. SendOk"] show ?thesis by simp
qed

subsection \<open>The storm gate\<close>

text \<open>Instants are milliseconds of a clock; \<open>duration_since\<close> saturates at zero, as subtraction on \<open>nat\<close> does.\<close>

definition PRESS_MIN_INTERVAL :: nat where "PRESS_MIN_INTERVAL = 1000"

definition press_allowed :: "nat option \<Rightarrow> nat \<Rightarrow> nat \<Rightarrow> bool" where
  "press_allowed last_press now min_interval =
     (case last_press of None \<Rightarrow> True | Some previous \<Rightarrow> now - previous \<ge> min_interval)"

text \<open>One received bus event at time \<open>now\<close>, with the configuration of that moment; the second component
  tells whether Enter is pressed.\<close>

definition consume_bus_event :: "ActorBusEvent \<times> UserActorConfig option \<times> nat \<Rightarrow> nat option \<Rightarrow> nat option \<times> bool" where
  "consume_bus_event i last_press =
     (case i of (ev, config, now) \<Rightarrow>
        (case ev of
           ForegroundChanged _ \<Rightarrow>
             (case config of
                None \<Rightarrow> (last_press, False)
              | Some config \<Rightarrow>
                  if \<not> uac_reactive config then (last_press, False)
                  else if \<not> press_allowed last_press now PRESS_MIN_INTERVAL then (last_press, False)
                  else (Some now, True))
         | _ \<Rightarrow> (last_press, False)))"

fun consume_bus_events :: "(ActorBusEvent \<times> UserActorConfig option \<times> nat) list \<Rightarrow> nat option \<Rightarrow> nat list" where
  "consume_bus_events [] last_press = []"
| "consume_bus_events (i # is) last_press =
     (case consume_bus_event i last_press of (last_press, pressed) \<Rightarrow>
        (if pressed then [snd (snd i)] else []) @ consume_bus_events is last_press)"

definition spaced :: "nat option \<Rightarrow> nat list \<Rightarrow> bool" where
  "spaced last_press ts \<longleftrightarrow> successively (\<lambda>a b. a + PRESS_MIN_INTERVAL \<le> b) (case last_press of None \<Rightarrow> ts | Some t \<Rightarrow> t # ts)"

lemma spaced_later: "spaced (Some t) ts \<Longrightarrow> t' + PRESS_MIN_INTERVAL \<le> t \<Longrightarrow> spaced (Some t') (t # ts)"
  by (simp add: spaced_def)

lemma consume_spaced: "spaced last_press (consume_bus_events is last_press)"
proof (induction "is" arbitrary: last_press)
  case (Cons i "is")
  obtain ev config now where i: "i = (ev, config, now)" by (cases i)
  show ?case
  proof (cases "snd (consume_bus_event i last_press)")
    case True
    then have "consume_bus_event i last_press = (Some now, True)" "press_allowed last_press now PRESS_MIN_INTERVAL"
      by (auto simp: consume_bus_event_def i split: ActorBusEvent.splits option.splits if_splits)
    with Cons [of "Some now"] show ?thesis
      by (auto simp: i press_allowed_def PRESS_MIN_INTERVAL_def spaced_def split: option.splits)
  next
    case False
    then have "consume_bus_event i last_press = (last_press, False)"
      by (auto simp: consume_bus_event_def i split: ActorBusEvent.splits option.splits if_splits)
    with Cons show ?thesis by simp
  qed
qed (simp add: spaced_def split: option.split)

text \<open>
  The storm gate holds. However fast the foreground flickers, and whatever the clock and the
  configuration do, two Enter presses are never less than a second apart; and a foreground change
  that finds the reactive mode on and no press within the last second is answered by a press.
\<close>

theorem storm_gate_holds:
  "successively (\<lambda>a b. a + 1000 \<le> b) (consume_bus_events is None)
   \<and> (uac_reactive config \<and> (case last_press of None \<Rightarrow> True | Some t \<Rightarrow> t + 1000 \<le> now)
      \<longrightarrow> consume_bus_event (ForegroundChanged focus, Some config, now) last_press = (Some now, True))"
  using consume_spaced [of None "is"]
  by (auto simp: spaced_def PRESS_MIN_INTERVAL_def consume_bus_event_def press_allowed_def split: option.splits)

theorem storm_gate_holds_witness:
  "consume_bus_event (ForegroundChanged desktop, Some ((user_actor_config AgentConfig_default)\<lparr>uac_reactive := True\<rparr>), 5) None
     = (Some 5, True)"
  using storm_gate_holds [where config = "(user_actor_config AgentConfig_default)\<lparr>uac_reactive := True\<rparr>" and last_press = None
      and now = 5 and focus = desktop] by simp

subsection \<open>Focus sources\<close>

text \<open>What a focus source feeds into the kernel from the foregrounds it resolves.\<close>

fun focus_source :: "FocusInfo list \<Rightarrow> FocusInfo option \<Rightarrow> FocusInfo list" where
  "focus_source [] previous = []"
| "focus_source (f # fs) previous =
     (case focus_changed f previous of (out, previous) \<Rightarrow>
        (case out of None \<Rightarrow> [] | Some focus \<Rightarrow> [focus]) @ focus_source fs previous)"

text \<open>One event per actual foreground change: the source is exactly the removal of adjacent repeats.\<close>

lemma focus_source_after: "focus_source fs (Some f) = tl (remdups_adj (f # fs))"
  by (induction fs arbitrary: f) (auto simp: focus_changed_def)

lemma focus_source_dedups: "focus_source fs None = remdups_adj fs"
proof (cases fs)
  case (Cons f rest)
  have "hd (remdups_adj (f # rest)) = f" by simp
  then have "remdups_adj (f # rest) = f # tl (remdups_adj (f # rest))"
    by (metis list.collapse list.distinct(1) remdups_adj_Nil_iff)
  then show ?thesis by (simp add: Cons focus_changed_def focus_source_after)
qed simp

subsection \<open>Script loops\<close>

text \<open>
  A script loop from its \<open>k\<close>-th check of the stop token on. \<open>stopped k\<close> is what the check sees (parking
  while paused only delays it), \<open>launches k\<close> whether a launch at that step succeeds. The loop never
  ends by itself: \<open>passes\<close> bounds the number of passes looked at. The result is what was executed and
  whether the loop has returned.
\<close>

definition execute_step :: "(nat \<Rightarrow> bool) \<Rightarrow> nat \<Rightarrow> ActivityStep \<Rightarrow> bool" where
  "execute_step launches k step = (case step of Launch _ _ \<Rightarrow> launches k | _ \<Rightarrow> True)"

fun run_pass :: "(nat \<Rightarrow> bool) \<Rightarrow> (nat \<Rightarrow> bool) \<Rightarrow> nat \<Rightarrow> ActivityStep list \<Rightarrow> ActivityStep list \<times> nat \<times> bool" where
  "run_pass stopped launches k [] = ([], k, False)"
| "run_pass stopped launches k (step # steps) =
     (if stopped k then ([], k, True)
      else if execute_step launches k step
      then (case run_pass stopped launches (Suc k) steps of (did, k', ended) \<Rightarrow> (step # did, k', ended))
      else ([step], Suc k, False))"

fun run_script :: "nat \<Rightarrow> (nat \<Rightarrow> bool) \<Rightarrow> (nat \<Rightarrow> bool) \<Rightarrow> nat \<Rightarrow> ActivityStep list \<Rightarrow> ActivityStep list \<times> bool" where
  "run_script 0 stopped launches k steps = ([], False)"
| "run_script (Suc passes) stopped launches k steps =
     (if stopped k then ([], True)
      else case run_pass stopped launches (Suc k) steps of (did, k', ended) \<Rightarrow>
        if ended then (did, True)
        else if stopped k' then (did, True)   \<comment> \<open>cancelled during the idle beat\<close>
        else case run_script passes stopped launches (Suc k') steps of (later, ended) \<Rightarrow> (did @ later, ended))"

lemma run_pass_advances: "run_pass stopped launches k steps = (did, k', ended) \<Longrightarrow> k' = k + length did"
  by (induction steps arbitrary: k did k' ended) (fastforce split: if_splits prod.splits)+

lemma run_pass_stopped: "run_pass stopped launches k steps = (did, k', ended) \<Longrightarrow> (\<forall>j \<ge> n. stopped j) \<Longrightarrow> k + length did \<le> max k n"
proof (induction steps arbitrary: k did k' ended)
  case (Cons step steps)
  show ?case
  proof (cases "stopped k")
    case False
    then have "k < n" using Cons.prems(2) by (meson not_le)
    with False Cons show ?thesis by (fastforce split: if_splits prod.splits)
  qed (use Cons.prems in auto)
qed simp

lemma run_pass_endless: "\<not> snd (snd (run_pass (\<lambda>_. False) launches k steps))"
  by (induction steps arbitrary: k) (auto split: prod.splits, metis snd_conv)

lemma run_script_endless: "\<not> snd (run_script passes (\<lambda>_. False) launches k steps)"
proof (induction passes arbitrary: k)
  case (Suc passes)
  then show ?case using run_pass_endless [of launches "Suc k" steps] by (auto split: prod.splits, metis snd_conv)
qed simp

text \<open>The induction behind a stop being honoured, from any check on.\<close>

lemma run_script_stops:
  assumes "\<forall>j \<ge> n. stopped j"
  shows "n \<le> k + passes \<Longrightarrow> 0 < passes \<Longrightarrow> snd (run_script passes stopped launches k steps)
    \<and> length (fst (run_script passes stopped launches k steps)) \<le> n - k"
proof (induction passes arbitrary: k)
  case (Suc passes)
  show ?case
  proof (cases "stopped k")
    case False
    then have kn: "k < n" using assms by (meson not_le)
    obtain d k' ended where p: "run_pass stopped launches (Suc k) steps = (d, k', ended)" by (metis prod_cases3)
    have k': "k' = Suc k + length d" "k' \<le> n" using run_pass_advances [OF p] run_pass_stopped [OF p assms] kn by auto
    show ?thesis
    proof (cases "ended \<or> stopped k'")
      case going: False
      then have "k' < n" using assms by (meson not_le)
      then have "snd (run_script passes stopped launches (Suc k') steps)
          \<and> length (fst (run_script passes stopped launches (Suc k') steps)) \<le> n - Suc k'"
        using Suc k' by (intro Suc.IH) auto
      with going False p k' kn show ?thesis by (auto split: prod.splits)
    qed (use False p k' in auto)
  qed simp
qed simp

text \<open>
  C36. A stop is honoured. Once the token is cancelled (seen from its check \<open>n\<close> on), the otherwise endless
  script loop returns, within as many passes as there were checks before, having executed at most \<open>n\<close>
  steps, whether or not the launches succeed; a script that is never stopped is never left.
\<close>

theorem script_honours_stop:
  assumes "\<forall>j \<ge> n. stopped j" "n \<le> passes" "0 < passes"
  shows "snd (run_script passes stopped launches 0 steps)
    \<and> length (fst (run_script passes stopped launches 0 steps)) \<le> n
    \<and> \<not> snd (run_script passes (\<lambda>_. False) launches 0 steps)"
  using run_script_stops [OF assms(1), of 0 passes launches steps] assms(2,3) by (simp add: run_script_endless)

theorem script_honours_stop_witness:
  "snd (run_script 5 (\<lambda>j. 3 \<le> j) (\<lambda>_. True) 0 notepad_script)
   \<and> length (fst (run_script 5 (\<lambda>j. 3 \<le> j) (\<lambda>_. True) 0 notepad_script)) \<le> 3"
  using script_honours_stop [of 3 "\<lambda>j. 3 \<le> j" 5 "\<lambda>_. True" notepad_script] by simp

end
