(* ===== verification/Ipc_Client.thy ===== *)
theory Ipc_Client
  imports User_Actor
begin

text \<open>
  The user-actor's side of the pipe (\<^verbatim>\<open>crates/user-actor/src/adapters/driving/ipc_client.rs\<close>): the
  handshake, the dispatch loop between the reader task, the screenshot queue and the cancellation, and
  the reconnecting run loop; then the two ends of the pipe together. The order in which the awaited
  branches become ready is an arbitrary sequence, and so are the outcomes of connecting and writing.
\<close>

datatype IpcClientError = HandshakeRejected | ConnectFailed | ClientIo | ClientProtocol FrameError

record IpcClientOptions =
  co_nonce :: "u8 list"
  co_module_version :: rstr

text \<open>The client's uses of JSON: printing its \<open>HELLO\<close>, parsing a \<open>WELCOME\<close>.\<close>

record ClientSerde =
  cs_hello :: "Hello \<Rightarrow> u8 list option"
  cs_welcome :: "u8 list \<Rightarrow> Welcome option"

definition hello_of :: "IpcClientOptions \<Rightarrow> Hello" where
  "hello_of options = \<lparr>hl_protocol = IPC_PROTOCOL_VERSION, hl_nonce = co_nonce options,
     hl_module_version = co_module_version options\<rparr>"

text \<open>The frame to send, or the error; \<open>ok\<close> is whether the write succeeds.\<close>

definition client_send_frame :: "bool \<Rightarrow> u16 \<Rightarrow> u8 list \<Rightarrow> IpcClientError + u8 list" where
  "client_send_frame ok message_type payload =
     (case send_frame message_type payload of
        None \<Rightarrow> Inl ClientIo
      | Some bytes \<Rightarrow> if ok then Inr bytes else Inl ClientIo)"

definition send_hello :: "ClientSerde \<Rightarrow> IpcClientOptions \<Rightarrow> bool \<Rightarrow> IpcClientError + u8 list" where
  "send_hello cs options ok = bind_r (ok_or ClientIo (cs_hello cs (hello_of options))) (client_send_frame ok HELLO)"

text \<open>The reader task: complete frames off the stream; the cap is the protocol's own.\<close>

definition client_read_frame :: "u8 list \<Rightarrow> IpcClientError + ((u16 \<times> u8 list) \<times> u8 list) option" where
  "client_read_frame bytes =
     (case read_frame MAX_PAYLOAD_LEN bytes of
        Inl (Protocol e) \<Rightarrow> Inl (ClientProtocol e)
      | Inl (OverCap _ _) \<Rightarrow> Inl ClientIo
      | Inr None \<Rightarrow> Inr None
      | Inr (Some ((frame, payload), rest)) \<Rightarrow> Inr (Some ((fh_message_type frame, payload), rest)))"

datatype ExchangeOutcome = Cancelled | Disconnected | Rejected

datatype Ready =
    CancelRequested
  | Inbound "IpcClientError + (u16 \<times> u8 list) option"   \<comment> \<open>from the reader task; \<open>Inr None\<close> is the end of the stream\<close>
  | ReaderGone
  | Shot u32 "u8 list" bool                              \<comment> \<open>a queued screenshot, and whether its write succeeds\<close>
  | QueueClosed

record Exchange =
  ex_handshaked :: bool
  ex_events :: "ActorEvent list"      \<comment> \<open>accepted by the kernel\<close>
  ex_written :: "(u16 \<times> u8 list) list"

text \<open>One turn of the loop; \<open>Some\<close> leaves it.\<close>

definition dispatch :: "ClientSerde \<Rightarrow> Ready \<Rightarrow> Exchange \<Rightarrow> ExchangeOutcome option \<times> Exchange" where
  "dispatch cs ready x =
     (case ready of
        CancelRequested \<Rightarrow> (Some Cancelled, x)
      | Inbound (Inr (Some (message_type, payload))) \<Rightarrow>
          (if message_type = WELCOME then
             (case cs_welcome cs payload of
                Some welcome \<Rightarrow> (None, x\<lparr>ex_handshaked := True, ex_events := ex_events x @ [Welcomed welcome]\<rparr>)
              | None \<Rightarrow> (None, x))
           else if message_type = ERROR then (if ex_handshaked x then (None, x) else (Some Rejected, x))
           else (Some Disconnected, x))
      | Inbound (Inr None) \<Rightarrow> (Some Disconnected, x)
      | Inbound (Inl _) \<Rightarrow> (Some Disconnected, x)
      | ReaderGone \<Rightarrow> (Some Cancelled, x)
      | Shot seq jpeg ok \<Rightarrow>
          (case client_send_frame ok SCREENSHOT (encode_screenshot seq jpeg) of
             Inl _ \<Rightarrow> (Some Disconnected, x)
           | Inr _ \<Rightarrow> (None, x\<lparr>ex_written := ex_written x @ [(SCREENSHOT, encode_screenshot seq jpeg)]\<rparr>))
      | QueueClosed \<Rightarrow> (Some Cancelled, x))"

text \<open>The loop over what becomes ready, in that order; \<open>None\<close> means it is still waiting.\<close>

fun dispatch_loop :: "ClientSerde \<Rightarrow> Ready list \<Rightarrow> Exchange \<Rightarrow> ExchangeOutcome option \<times> Exchange" where
  "dispatch_loop cs [] x = (None, x)"
| "dispatch_loop cs (r # rs) x =
     (case dispatch cs r x of (Some outcome, x) \<Rightarrow> (Some outcome, x) | (None, x) \<Rightarrow> dispatch_loop cs rs x)"

text \<open>A connection begins unverified.\<close>

definition exchange_new :: Exchange where
  "exchange_new = \<lparr>ex_handshaked = False, ex_events = [], ex_written = []\<rparr>"

text \<open>An attempt of the run loop: the connect fails, or the \<open>HELLO\<close> is written or not and the exchange
  goes as it goes; \<open>stop\<close> tells whether the backoff after a loss is cancelled.\<close>

datatype Attempt = CannotConnect | Connected bool "Ready list" bool

fun client_run :: "ClientSerde \<Rightarrow> IpcClientOptions \<Rightarrow> Attempt list \<Rightarrow> (IpcClientError + unit) option \<times> ActorEvent list" where
  "client_run cs options [] = (None, [])"
| "client_run cs options (CannotConnect # later) = (Some (Inl ConnectFailed), [])"
| "client_run cs options (Connected written rs stop # later) =
     (case send_hello cs options written of
        Inl e \<Rightarrow> (Some (Inl e), [])
      | Inr _ \<Rightarrow>
          (case dispatch_loop cs rs exchange_new of
             (None, x) \<Rightarrow> (None, ex_events x)
           | (Some Cancelled, x) \<Rightarrow> (Some (Inr ()), ex_events x)
           | (Some Rejected, x) \<Rightarrow> (Some (Inl HandshakeRejected), ex_events x)
           | (Some Disconnected, x) \<Rightarrow>
               if stop then (Some (Inr ()), ex_events x)
               else (case client_run cs options later of (result, evs) \<Rightarrow> (result, ex_events x @ evs))))"

subsection \<open>What ends the client\<close>

text \<open>The exchange of a connection is lost: the stream ends or breaks, or a write fails.\<close>

definition lost :: "ClientSerde \<Rightarrow> Attempt \<Rightarrow> bool" where
  "lost cs attempt = (case attempt of
     Connected written rs stop \<Rightarrow> written \<and> \<not> stop \<and> fst (dispatch_loop cs rs exchange_new) = Some Disconnected
   | _ \<Rightarrow> False)"

lemma client_survives_losses:
  assumes "list_all (lost cs) attempts" "cs_hello cs (hello_of options) = Some body" "length body < 2 ^ 32"
  shows "fst (client_run cs options (attempts @ later)) = fst (client_run cs options later)"
  using assms(1)
proof (induction attempts)
  case (Cons a attempts)
  from Cons.prems obtain rs x where "a = Connected True rs False" "dispatch_loop cs rs exchange_new = (Some Disconnected, x)"
    by (cases a) (auto simp: lost_def prod_eq_iff intro: that [of _ "snd (dispatch_loop cs _ exchange_new)"])
  with Cons assms(2,3) show ?case
    by (auto simp: send_hello_def ok_or_def client_send_frame_def send_frame_def split: prod.splits)
qed simp

text \<open>
  A lost connection is survived in every phase but one. However often the exchange of an
  established connection is lost, the client connects again and its fate is decided by what comes
  after; but a connection that is lost while \<open>HELLO\<close> is written, as one the server drops at its
  client cap, ends the client with an error, although it could connect again.
\<close>

theorem hello_write_failure_is_fatal:
  assumes "list_all (lost cs) attempts" "cs_hello cs (hello_of options) = Some body" "length body < 2 ^ 32"
  shows "fst (client_run cs options (attempts @ Connected False rs stop # later)) = Some (Inl ClientIo)
    \<and> fst (client_run cs options (attempts @ later)) = fst (client_run cs options later)"
  using client_survives_losses [OF assms]
  by (simp add: assms(2,3) send_hello_def ok_or_def client_send_frame_def send_frame_def)

definition json0 :: ClientSerde where
  "json0 = \<lparr>cs_hello = (\<lambda>h. Some [1]), cs_welcome = (\<lambda>b. if b = [2] then Some (cl_welcome sample_client) else None)\<rparr>"

definition options0 :: IpcClientOptions where
  "options0 = \<lparr>co_nonce = [42], co_module_version = utf ''1.0''\<rparr>"

theorem hello_write_failure_is_fatal_witness:
  "fst (client_run json0 options0 [Connected True [Inbound (Inr None)] False, Connected False [] False,
      Connected True [CancelRequested] False]) = Some (Inl ClientIo)"
proof -
  have "list_all (lost json0) [Connected True [Inbound (Inr None)] False]" by (simp add: lost_def dispatch_def)
  moreover have "cs_hello json0 (hello_of options0) = Some [1]" by (simp add: json0_def)
  ultimately show ?thesis
    using hello_write_failure_is_fatal [of json0 "[Connected True [Inbound (Inr None)] False]" options0 "[1]" "[]" False
        "[Connected True [CancelRequested] False]"] by simp
qed

subsection \<open>Both ends of the pipe\<close>

text \<open>What the client puts on the pipe: its \<open>HELLO\<close>, then the frames of the exchange.\<close>

definition client_bytes :: "u8 list \<Rightarrow> Exchange \<Rightarrow> u8 list" where
  "client_bytes hello x = wire_frames ((HELLO, hello) # ex_written x)"

lemma dispatch_shots:
  assumes "list_all (\<lambda>(seq, jpeg). SCREENSHOT_SEQ_LEN + length jpeg \<le> MAX_PAYLOAD_LEN) shots"
  shows "dispatch_loop cs (map (\<lambda>(seq, jpeg). Shot seq jpeg True) shots) x
    = (None, x\<lparr>ex_written := ex_written x @ map (\<lambda>(seq, jpeg). (SCREENSHOT, encode_screenshot seq jpeg)) shots\<rparr>)"
  using assms
proof (induction shots arbitrary: x)
  case (Cons s shots)
  obtain seq jpeg where s: "s = (seq, jpeg)" by fastforce
  have "length (encode_screenshot seq jpeg) < 2 ^ 32"
    using Cons.prems by (simp add: s encode_screenshot_def SCREENSHOT_SEQ_LEN_def MAX_PAYLOAD_LEN_def)
  with Cons show ?case by (simp add: s dispatch_def client_send_frame_def send_frame_def)
qed simp



end
