(* ===== verification/Sensor_Ring.thy ===== *)
theory Sensor_Ring
  imports Driver_Wire
begin

text \<open>
  The sensor in the sample's process and its ring (\<^verbatim>\<open>crates/injectee/src/sensor.rs\<close>), with the driver's
  side of it (\<^verbatim>\<open>InjectionDrainRings\<close> and \<^verbatim>\<open>EmitBehaviorCallInternal\<close> of \<^verbatim>\<open>src/driver/secoutfall\<close>). Several threads of
  the sample emit into a shared ring without locks: each claims a position with an atomic add, writes
  the 40 payload bytes field by field and commits the slot's sequence; the driver validates the
  sequence and promotes the slot to a wire record. Indices and sequences (\<open>i64\<close>) are natural numbers:
  a process does not make \<open>2^63\<close> calls. A process that writes arbitrary bytes into its ring is not
  modelled.
\<close>

subsection \<open>The ring\<close>

definition SLOT_PAYLOAD_SIZE :: nat where "SLOT_PAYLOAD_SIZE = 40"

record Emission =
  em_api :: u32
  em_thread :: u32
  em_arg0 :: u64
  em_arg1 :: u64
  em_arg2 :: u64
  em_arg3 :: u64

record Slot =
  sl_seq :: nat
  sl_payload :: "u8 list"

record Ring =
  rg_state :: nat
  rg_slot_count :: nat
  rg_write_index :: nat
  rg_dropped :: nat
  rg_slots :: "Slot list"

definition slot_of :: "Ring \<Rightarrow> nat \<Rightarrow> Slot" where
  "slot_of r k = rg_slots r ! (k mod rg_slot_count r)"

definition set_slot :: "nat \<Rightarrow> Slot \<Rightarrow> Ring \<Rightarrow> Ring" where
  "set_slot k slot r = r\<lparr>rg_slots := (rg_slots r)[k mod rg_slot_count r := slot]\<rparr>"

text \<open>What the driver maps: zeroed memory with the geometry, active after the registration.\<close>

definition ring_fresh :: "nat \<Rightarrow> Ring" where
  "ring_fresh n = \<lparr>rg_state = 1, rg_slot_count = n, rg_write_index = 0, rg_dropped = 0,
     rg_slots = replicate n \<lparr>sl_seq = 0, sl_payload = replicate SLOT_PAYLOAD_SIZE 0\<rparr>\<rparr>"

subsection \<open>Emitting\<close>

text \<open>The stages of \<open>emit\<close>: the atomic claim, the overflow accounting, the six field writes, the commit.\<close>

definition claim :: "Ring \<Rightarrow> nat \<times> Ring" where
  "claim r = (rg_write_index r, r\<lparr>rg_write_index := rg_write_index r + 1\<rparr>)"

definition account_overflow :: "nat \<Rightarrow> Ring \<Rightarrow> Ring" where
  "account_overflow claimed r =
     (let previous = sl_seq (slot_of r claimed) in
      if previous \<noteq> 0 \<and> int claimed - (int previous - 1) \<ge> int (rg_slot_count r)
      then r\<lparr>rg_dropped := rg_dropped r + 1\<rparr> else r)"

definition write_volatile :: "nat \<Rightarrow> u8 list \<Rightarrow> u8 list \<Rightarrow> u8 list" where
  "write_volatile at bs mem = take at mem @ bs @ drop (at + length bs) mem"

definition payload_writes :: "Emission \<Rightarrow> (nat \<times> u8 list) list" where
  "payload_writes e =
     [(0, to_le_bytes (em_api e)), (4, to_le_bytes (em_thread e)),
      (8 + 0 * 8, to_le_bytes (em_arg0 e)), (8 + 1 * 8, to_le_bytes (em_arg1 e)),
      (8 + 2 * 8, to_le_bytes (em_arg2 e)), (8 + 3 * 8, to_le_bytes (em_arg3 e))]"

definition write_field :: "nat \<Rightarrow> nat \<times> u8 list \<Rightarrow> Ring \<Rightarrow> Ring" where
  "write_field claimed w r =
     (let slot = slot_of r claimed in
      set_slot claimed (slot\<lparr>sl_payload := write_volatile (fst w) (snd w) (sl_payload slot)\<rparr>) r)"

definition commit :: "nat \<Rightarrow> Ring \<Rightarrow> Ring" where
  "commit claimed r = set_slot claimed ((slot_of r claimed)\<lparr>sl_seq := claimed + 1\<rparr>) r"

text \<open>One call of \<open>emit\<close> that is not interrupted; \<open>None\<close> is the null ring pointer.\<close>

definition emit :: "Emission \<Rightarrow> Ring option \<Rightarrow> Ring option" where
  "emit e ring =
     (case ring of None \<Rightarrow> None
      | Some r \<Rightarrow> Some (if rg_state r \<noteq> 1 then r
          else case claim r of (claimed, r) \<Rightarrow>
            commit claimed (fold (write_field claimed) (payload_writes e) (account_overflow claimed r))))"

subsection \<open>Draining\<close>

text \<open>The six values the driver hands on, in the order of its call: thread id, API id, arguments.\<close>

type_synonym Call = "u32 \<times> u32 \<times> u64 \<times> u64 \<times> u64 \<times> u64"

definition read_slot :: "u8 list \<Rightarrow> Call" where
  "read_slot payload =
     (from_le_bytes (take 4 payload), from_le_bytes (take 4 (drop 4 payload)),
      from_le_bytes (take 8 (drop 8 payload)), from_le_bytes (take 8 (drop 16 payload)),
      from_le_bytes (take 8 (drop 24 payload)), from_le_bytes (take 8 (drop 32 payload)))"

definition resync :: "Ring \<Rightarrow> nat \<Rightarrow> nat" where
  "resync r drained =
     (if rg_write_index r > drained + rg_slot_count r then rg_write_index r - rg_slot_count r else drained)"

fun drain_slots :: "nat \<Rightarrow> Ring \<Rightarrow> nat \<Rightarrow> nat \<Rightarrow> Call list \<times> nat" where
  "drain_slots 0 r write_index drained = ([], drained)"
| "drain_slots (Suc n) r write_index drained =
     (if drained < write_index \<and> sl_seq (slot_of r drained) = drained + 1
      then (case drain_slots n r write_index (drained + 1) of (calls, drained') \<Rightarrow>
              (read_slot (sl_payload (slot_of r drained)) # calls, drained'))
      else ([], drained))"

text \<open>One ring in one drain: what is promoted, the new cursor, what is counted as dropped.\<close>

definition drain_ring :: "Ring \<Rightarrow> nat \<Rightarrow> Call list \<times> nat \<times> nat" where
  "drain_ring r cursor =
     (if rg_state r \<noteq> 1 then ([], cursor, 0)
      else let drained = resync r cursor in
        case drain_slots 256 r (rg_write_index r) drained of (calls, drained') \<Rightarrow> (calls, drained', drained - cursor))"

text \<open>The record the driver queues for a promoted slot; sequence and time are its own.\<close>

definition EmitBehaviorCallInternal :: "u32 \<Rightarrow> u64 \<Rightarrow> u64 \<Rightarrow> u64 \<Rightarrow> Call \<Rightarrow> u8 list" where
  "EmitBehaviorCallInternal pid create_time sequence time call =
     (case call of (thread_id, api, arg0, arg1, arg2, arg3) \<Rightarrow>
        header_bytes 0 15 pid sequence time create_time 88 @ to_le_bytes thread_id @ to_le_bytes api
        @ to_le_bytes arg0 @ to_le_bytes arg1 @ to_le_bytes arg2 @ to_le_bytes arg3)"

text \<open>What a call the sensor reports arrives as, given the order of the payload fields.\<close>

definition call_of :: "Emission \<Rightarrow> Call" where
  "call_of e = (em_api e, em_thread e, em_arg0 e, em_arg1 e, em_arg2 e, em_arg3 e)"

definition laid_out :: "(nat \<times> u8 list) list \<Rightarrow> u8 list" where
  "laid_out ws = concat (map snd ws)"

lemma laid_out_simps [simp]: "laid_out [] = []" "laid_out (ws @ [w]) = laid_out ws @ snd w"
  by (simp_all add: laid_out_def)

lemma length_laid_out [simp]: "length (laid_out (payload_writes e)) = 40"
  by (simp add: laid_out_def payload_writes_def)

lemma read_laid_out: "read_slot (laid_out (payload_writes e)) = call_of e"
  by (simp add: read_slot_def laid_out_def payload_writes_def call_of_def)

text \<open>The writes are contiguous and in order.\<close>

lemma payload_writes_offset: "payload_writes e = did @ w # ws \<Longrightarrow> fst w = length (laid_out did) \<and> length (laid_out did) + length (snd w) \<le> 40"
  by (auto simp: payload_writes_def laid_out_def Cons_eq_append_conv)

lemma take_write_volatile:
  "at + length bs \<le> length mem \<Longrightarrow> take (at + length bs) (write_volatile at bs mem) = take at mem @ bs"
  by (simp add: write_volatile_def)

lemma length_write_volatile [simp]:
  "at + length bs \<le> length mem \<Longrightarrow> length (write_volatile at bs mem) = length mem"
  by (simp add: write_volatile_def)

subsection \<open>Interleavings\<close>

text \<open>
  A thread that emits goes through the stages of \<open>emit\<close> one at a time; the driver's drain takes a
  snapshot of the write index, checks a slot and reads it (its six loads are one step). Any thread may
  move between any two of these. \<open>sy_claims\<close> records what was emitted, by claimed position. There is one
  drain at a time, as the agent polls from one task.
\<close>

datatype Producer = Idle | Claimed nat Emission | Writing nat Emission "(nat \<times> u8 list) list"

datatype Drain = Resting | Draining nat nat | Reading nat nat   \<comment> \<open>snapshot, slots left of the 256\<close>

record Sys =
  sy_ring :: Ring
  sy_threads :: "nat \<Rightarrow> Producer"
  sy_drain :: Drain
  sy_drained :: nat
  sy_calls :: "Call list"
  sy_lost :: nat
  sy_claims :: "Emission list"

definition sys_new :: "nat \<Rightarrow> Sys" where
  "sys_new n = \<lparr>sy_ring = ring_fresh n, sy_threads = \<lambda>_. Idle, sy_drain = Resting, sy_drained = 0, sy_calls = [],
     sy_lost = 0, sy_claims = []\<rparr>"

inductive ring_step :: "Sys \<Rightarrow> Sys \<Rightarrow> bool" where
  claims: "sy_threads s t = Idle \<Longrightarrow> rg_state (sy_ring s) = 1 \<Longrightarrow> claim (sy_ring s) = (k, r) \<Longrightarrow>
     ring_step s (s\<lparr>sy_ring := r, sy_threads := (sy_threads s)(t := Claimed k e), sy_claims := sy_claims s @ [e]\<rparr>)"
| accounts: "sy_threads s t = Claimed k e \<Longrightarrow>
     ring_step s (s\<lparr>sy_ring := account_overflow k (sy_ring s), sy_threads := (sy_threads s)(t := Writing k e (payload_writes e))\<rparr>)"
| writes: "sy_threads s t = Writing k e (w # ws) \<Longrightarrow>
     ring_step s (s\<lparr>sy_ring := write_field k w (sy_ring s), sy_threads := (sy_threads s)(t := Writing k e ws)\<rparr>)"
| commits: "sy_threads s t = Writing k e [] \<Longrightarrow>
     ring_step s (s\<lparr>sy_ring := commit k (sy_ring s), sy_threads := (sy_threads s)(t := Idle)\<rparr>)"
| starts: "sy_drain s = Resting \<Longrightarrow> rg_state (sy_ring s) = 1 \<Longrightarrow> d = resync (sy_ring s) (sy_drained s) \<Longrightarrow>
     ring_step s (s\<lparr>sy_drain := Draining (rg_write_index (sy_ring s)) 256, sy_drained := d,
       sy_lost := sy_lost s + (d - sy_drained s)\<rparr>)"
| checks: "sy_drain s = Draining write_index (Suc n) \<Longrightarrow> sy_drained s < write_index \<Longrightarrow>
     sl_seq (slot_of (sy_ring s) (sy_drained s)) = sy_drained s + 1 \<Longrightarrow>
     ring_step s (s\<lparr>sy_drain := Reading write_index n\<rparr>)"
| reads: "sy_drain s = Reading write_index n \<Longrightarrow>
     ring_step s (s\<lparr>sy_drain := Draining write_index n, sy_drained := sy_drained s + 1,
       sy_calls := sy_calls s @ [read_slot (sl_payload (slot_of (sy_ring s) (sy_drained s)))]\<rparr>)"
| rests: "sy_drain s = Draining write_index n \<Longrightarrow>
     n = 0 \<or> write_index \<le> sy_drained s \<or> sl_seq (slot_of (sy_ring s) (sy_drained s)) \<noteq> sy_drained s + 1 \<Longrightarrow>
     ring_step s (s\<lparr>sy_drain := Resting\<rparr>)"

text \<open>What is reached from a fresh ring of \<open>n\<close> slots through states that satisfy \<open>P\<close>.\<close>

inductive ring_reach :: "(Sys \<Rightarrow> bool) \<Rightarrow> nat \<Rightarrow> Sys \<Rightarrow> bool" for P n where
  fresh: "ring_reach P n (sys_new n)"
| step: "ring_reach P n s \<Longrightarrow> ring_step s s' \<Longrightarrow> P s' \<Longrightarrow> ring_reach P n s'"

text \<open>The producers are not a full ring ahead of the drain.\<close>

definition within_ring :: "Sys \<Rightarrow> bool" where
  "within_ring s \<longleftrightarrow> rg_write_index (sy_ring s) \<le> sy_drained s + rg_slot_count (sy_ring s)"

subsection \<open>Accounting under any interleaving\<close>

lemma ring_parts [simp]:
  "rg_state (set_slot k x r) = rg_state r" "rg_slot_count (set_slot k x r) = rg_slot_count r"
  "rg_write_index (set_slot k x r) = rg_write_index r" "rg_dropped (set_slot k x r) = rg_dropped r"
  "rg_state (account_overflow k r) = rg_state r" "rg_slot_count (account_overflow k r) = rg_slot_count r"
  "rg_write_index (account_overflow k r) = rg_write_index r" "rg_slots (account_overflow k r) = rg_slots r"
  "rg_state (write_field k w r) = rg_state r" "rg_slot_count (write_field k w r) = rg_slot_count r"
  "rg_write_index (write_field k w r) = rg_write_index r" "rg_dropped (write_field k w r) = rg_dropped r"
  "rg_state (commit k r) = rg_state r" "rg_slot_count (commit k r) = rg_slot_count r"
  "rg_write_index (commit k r) = rg_write_index r" "rg_dropped (commit k r) = rg_dropped r"
  by (simp_all add: set_slot_def account_overflow_def write_field_def commit_def Let_def)

definition accounted :: "Sys \<Rightarrow> bool" where
  "accounted s \<longleftrightarrow> length (sy_calls s) + sy_lost s = sy_drained s \<and> sy_drained s \<le> rg_write_index (sy_ring s)
     \<and> length (sy_claims s) = rg_write_index (sy_ring s)
     \<and> (case sy_drain s of Resting \<Rightarrow> True | Draining w n \<Rightarrow> w \<le> rg_write_index (sy_ring s)
        | Reading w n \<Rightarrow> w \<le> rg_write_index (sy_ring s) \<and> sy_drained s < w)"

lemma accounted_step: "ring_step s s' \<Longrightarrow> accounted s \<Longrightarrow> accounted s'"
  by (induction rule: ring_step.induct)
     (auto simp: accounted_def claim_def resync_def split: Drain.splits)

lemma accounted_reach: "ring_reach P n s \<Longrightarrow> accounted s"
proof (induction rule: ring_reach.induct)
  case fresh
  show ?case by (simp add: accounted_def sys_new_def ring_fresh_def)
qed (blast intro: accounted_step)


subsection \<open>Delivery while the ring does not overflow\<close>

fun position :: "Producer \<Rightarrow> nat option" where
  "position Idle = None"
| "position (Claimed k e) = Some k"
| "position (Writing k e ws) = Some k"

fun progress :: "Producer \<Rightarrow> u8 list \<Rightarrow> Emission \<Rightarrow> bool" where
  "progress Idle payload e \<longleftrightarrow> True"
| "progress (Claimed k e') payload e \<longleftrightarrow> e' = e"
| "progress (Writing k e' ws) payload e \<longleftrightarrow> e' = e \<and> (\<exists>did. payload_writes e = did @ ws \<and> take (length (laid_out did)) payload = laid_out did)"

text \<open>Positions of one lap have different slots.\<close>

lemma mod_window: "d \<le> k \<Longrightarrow> k < d + n \<Longrightarrow> d \<le> k' \<Longrightarrow> k' < d + n \<Longrightarrow> k mod n = k' mod n \<Longrightarrow> k = (k' :: nat)"
proof (induction k k' rule: linorder_wlog)
  case (le k k')
  then have "n dvd k' - k" using mod_eq_dvd_iff_nat [of k k' n] by simp
  moreover have "k' - k < n" using le by linarith
  ultimately have "k' - k = 0" by (metis nat_dvd_not_less neq0_conv)
  with le show ?case by simp
qed (simp add: eq_commute)

text \<open>The invariant: a position between cursor and write index is being written by one thread, or holds
  its committed event; everything below the cursor was delivered.\<close>

definition ring_shape :: "nat \<Rightarrow> Ring \<Rightarrow> bool" where
  "ring_shape n r \<longleftrightarrow> rg_slot_count r = n \<and> length (rg_slots r) = n \<and> list_all (\<lambda>sl. length (sl_payload sl) = 40 \<and> sl_seq sl \<le> rg_write_index r) (rg_slots r)"

definition writers_ok :: "Sys \<Rightarrow> bool" where
  "writers_ok s \<longleftrightarrow> (\<forall>t k. position (sy_threads s t) = Some k \<longrightarrow>
      sy_drained s \<le> k \<and> k < rg_write_index (sy_ring s) \<and> sl_seq (slot_of (sy_ring s) k) \<noteq> k + 1
      \<and> progress (sy_threads s t) (sl_payload (slot_of (sy_ring s) k)) (sy_claims s ! k)
      \<and> (\<forall>t'. position (sy_threads s t') = Some k \<longrightarrow> t' = t))"

definition committed_ok :: "Sys \<Rightarrow> bool" where
  "committed_ok s \<longleftrightarrow> (\<forall>k. sy_drained s \<le> k \<longrightarrow> k < rg_write_index (sy_ring s) \<longrightarrow> (\<forall>t. position (sy_threads s t) \<noteq> Some k) \<longrightarrow>
      slot_of (sy_ring s) k = \<lparr>sl_seq = k + 1, sl_payload = laid_out (payload_writes (sy_claims s ! k))\<rparr>)"

definition drain_ok :: "Sys \<Rightarrow> bool" where
  "drain_ok s \<longleftrightarrow> sy_calls s = map call_of (take (sy_drained s) (sy_claims s)) \<and> sy_lost s = 0
     \<and> (case sy_drain s of Reading w n \<Rightarrow> sl_seq (slot_of (sy_ring s) (sy_drained s)) = sy_drained s + 1 | _ \<Rightarrow> True)"

definition ring_inv :: "nat \<Rightarrow> Sys \<Rightarrow> bool" where
  "ring_inv n s \<longleftrightarrow> 0 < n \<and> ring_shape n (sy_ring s) \<and> accounted s \<and> writers_ok s \<and> committed_ok s \<and> drain_ok s"

lemma slot_of_set_slot:
  "ring_shape n r \<Longrightarrow> 0 < n \<Longrightarrow> slot_of (set_slot k x r) j = (if j mod n = k mod n then x else slot_of r j)"
  by (auto simp: slot_of_def set_slot_def ring_shape_def)

lemma slot_of_same [simp]:
  "slot_of (account_overflow k r) j = slot_of r j" "slot_of (r\<lparr>rg_write_index := w\<rparr>) j = slot_of r j"
  by (simp_all add: slot_of_def)

lemma slot_shape:
  "ring_shape n r \<Longrightarrow> 0 < n \<Longrightarrow> length (sl_payload (slot_of r k)) = 40 \<and> sl_seq (slot_of r k) \<le> rg_write_index r"
  by (auto simp: ring_shape_def slot_of_def list_all_length)

lemma ring_shape_set_slot:
  "ring_shape n r \<Longrightarrow> length (sl_payload x) = 40 \<Longrightarrow> sl_seq x \<le> rg_write_index r \<Longrightarrow> ring_shape n (set_slot k x r)"
  by (auto simp: ring_shape_def set_slot_def list_all_iff dest!: set_update_subset_insert [THEN subsetD])

lemma ring_shape_same [simp]:
  "ring_shape n (account_overflow k r) = ring_shape n r"
  "ring_shape n r \<Longrightarrow> ring_shape n (r\<lparr>rg_write_index := Suc (rg_write_index r)\<rparr>)"
  by (auto simp: ring_shape_def list_all_iff)

lemma writers_okD:
  "writers_ok s \<Longrightarrow> position (sy_threads s t) = Some k \<Longrightarrow> sy_drained s \<le> k \<and> k < rg_write_index (sy_ring s)
     \<and> sl_seq (slot_of (sy_ring s) k) \<noteq> k + 1
     \<and> progress (sy_threads s t) (sl_payload (slot_of (sy_ring s) k)) (sy_claims s ! k)"
  by (simp add: writers_ok_def)

text \<open>Writers and delivered slots never share a slot.\<close>

lemma writer_apart:
  assumes "within_ring s" "ring_shape n (sy_ring s)" "writers_ok s" "position (sy_threads s t) = Some k"
    and "sy_drained s \<le> k'" "k' < rg_write_index (sy_ring s)" "k' mod n = k mod n"
  shows "k' = k"
proof -
  have "sy_drained s \<le> k" "k < rg_write_index (sy_ring s)" using assms(3,4) by (auto simp: writers_ok_def)
  moreover have "rg_write_index (sy_ring s) \<le> sy_drained s + n" using assms(1,2) by (simp add: within_ring_def ring_shape_def)
  ultimately show ?thesis using assms(5-7) by (intro mod_window [of "sy_drained s" k' n k]) auto
qed

lemma ring_inv_claims:
  assumes inv: "ring_inv n s" and idle: "sy_threads s t = Idle" and c: "claim (sy_ring s) = (k, r)"
    and within: "within_ring (s\<lparr>sy_ring := r, sy_threads := (sy_threads s)(t := Claimed k e), sy_claims := sy_claims s @ [e]\<rparr>)"
    and acc: "accounted (s\<lparr>sy_ring := r, sy_threads := (sy_threads s)(t := Claimed k e), sy_claims := sy_claims s @ [e]\<rparr>)"
  shows "ring_inv n (s\<lparr>sy_ring := r, sy_threads := (sy_threads s)(t := Claimed k e), sy_claims := sy_claims s @ [e]\<rparr>)"
    (is "ring_inv n ?s")
proof -
  have k: "k = rg_write_index (sy_ring s)" "r = (sy_ring s)\<lparr>rg_write_index := Suc k\<rparr>" using c by (auto simp: claim_def)
  have len: "length (sy_claims s) = k" "sy_drained s \<le> k" using inv by (auto simp: ring_inv_def accounted_def k)
  have new: "position (sy_threads s t') \<noteq> Some k" for t'
    using inv by (auto simp: ring_inv_def writers_ok_def k)
  have "sl_seq (slot_of (sy_ring s) k) \<noteq> Suc k"
    using slot_shape [of n "sy_ring s" k] inv by (auto simp: ring_inv_def k)
  with inv new idle len have "writers_ok ?s"
    by (auto simp: ring_inv_def writers_ok_def k nth_append intro: less_SucI)
  moreover have "committed_ok ?s"
    using inv new idle len by (force simp: ring_inv_def committed_ok_def k nth_append)
  moreover have "drain_ok ?s" using inv len by (auto simp: ring_inv_def drain_ok_def k split: Drain.splits)
  ultimately show ?thesis using inv acc by (simp add: ring_inv_def k)
qed

lemma ring_inv_accounts:
  assumes "ring_inv n s" "sy_threads s t = Claimed k e"
    and "accounted (s\<lparr>sy_ring := account_overflow k (sy_ring s), sy_threads := (sy_threads s)(t := Writing k e (payload_writes e))\<rparr>)"
  shows "ring_inv n (s\<lparr>sy_ring := account_overflow k (sy_ring s), sy_threads := (sy_threads s)(t := Writing k e (payload_writes e))\<rparr>)"
    (is "ring_inv n ?s")
proof -
  have pos: "position (sy_threads ?s t') = position (sy_threads s t')" for t' using assms(2) by simp
  have me: "progress (sy_threads s t) p e' \<Longrightarrow> progress (Writing k e (payload_writes e)) p e'" for p e'
    using assms(2) by (auto intro: exI [of _ "[]"])
  have "writers_ok ?s"
    unfolding writers_ok_def pos using assms(1) me by (auto simp: ring_inv_def writers_ok_def simp del: progress.simps)
  moreover have "committed_ok ?s" unfolding committed_ok_def pos using assms(1) by (simp add: ring_inv_def committed_ok_def)
  moreover have "drain_ok ?s" using assms(1) by (simp add: ring_inv_def drain_ok_def cong: Drain.case_cong)
  ultimately show ?thesis using assms(1,3) by (simp add: ring_inv_def)
qed

text \<open>A thread that changes its own slot keeps everything else.\<close>

lemma ring_inv_own_slot:
  assumes inv: "ring_inv n s" and within: "within_ring s" and pos: "position (sy_threads s t) = Some k"
    and x: "length (sl_payload x) = 40" "sl_seq x \<le> rg_write_index (sy_ring s)"
    and me: "if q = Idle then x = \<lparr>sl_seq = k + 1, sl_payload = laid_out (payload_writes (sy_claims s ! k))\<rparr>
             else position q = Some k \<and> sl_seq x \<noteq> k + 1 \<and> progress q (sl_payload x) (sy_claims s ! k)"
  shows "ring_inv n (s\<lparr>sy_ring := set_slot k x (sy_ring s), sy_threads := (sy_threads s)(t := q)\<rparr>)" (is "ring_inv n ?s")
proof -
  have w: "writers_ok s" and shape: "ring_shape n (sy_ring s)" and n: "0 < n" using inv by (auto simp: ring_inv_def)
  have k: "sy_drained s \<le> k" "k < rg_write_index (sy_ring s)" "sl_seq (slot_of (sy_ring s) k) \<noteq> k + 1"
    "position (sy_threads s t') = Some k \<Longrightarrow> t' = t" for t' using w pos by (auto simp: writers_ok_def)
  note apart = writer_apart [OF within shape w pos]
  have slot: "slot_of (sy_ring ?s) j = (if j = k then x else slot_of (sy_ring s) j)"
    if "sy_drained s \<le> j" "j < rg_write_index (sy_ring s)" for j
    using apart [OF that] by (auto simp: slot_of_set_slot [OF shape n])
  have "writers_ok ?s"
    unfolding writers_ok_def
  proof (intro allI impI)
    fix t' j
    assume j: "position (sy_threads ?s t') = Some j"
    show "sy_drained ?s \<le> j \<and> j < rg_write_index (sy_ring ?s) \<and> sl_seq (slot_of (sy_ring ?s) j) \<noteq> j + 1
      \<and> progress (sy_threads ?s t') (sl_payload (slot_of (sy_ring ?s) j)) (sy_claims ?s ! j)
      \<and> (\<forall>t''. position (sy_threads ?s t'') = Some j \<longrightarrow> t'' = t')"
    proof (cases "t' = t")
      case True
      then have "j = k" "q \<noteq> Idle" using j me by (auto split: if_splits)
      with True me k slot [of k] show ?thesis by (auto split: if_splits)
    next
      case False
      then have old: "position (sy_threads s t') = Some j" using j by simp
      then have "j \<noteq> k" using False k(4) by blast
      with old False w j slot [of j] me show ?thesis by (auto simp: writers_ok_def split: if_splits)
    qed
  qed
  moreover have "committed_ok ?s"
    unfolding committed_ok_def
  proof (intro allI impI)
    fix j
    assume j: "sy_drained ?s \<le> j" "j < rg_write_index (sy_ring ?s)" "\<forall>t'. position (sy_threads ?s t') \<noteq> Some j"
    show "slot_of (sy_ring ?s) j = \<lparr>sl_seq = j + 1, sl_payload = laid_out (payload_writes (sy_claims ?s ! j))\<rparr>"
    proof (cases "j = k")
      case True
      then have "q = Idle" using j(3) me by (auto split: if_splits dest: spec [of _ t])
      with True me slot [of k] k show ?thesis by simp
    next
      case False
      have "position (sy_threads s t') \<noteq> Some j" for t'
        using j(3) [rule_format, of t'] pos False by (cases "t' = t") simp_all
      with False j slot [of j] inv show ?thesis by (simp add: ring_inv_def committed_ok_def)
    qed
  qed
  moreover have "drain_ok ?s"
  proof (cases "sy_drain s")
    case (Reading wi m)
    then have "sl_seq (slot_of (sy_ring s) (sy_drained s)) = sy_drained s + 1" "sy_drained s < rg_write_index (sy_ring s)"
      using inv by (auto simp: ring_inv_def drain_ok_def accounted_def)
    with k(3) slot [of "sy_drained s"] inv Reading show ?thesis by (auto simp: ring_inv_def drain_ok_def)
  qed (use inv in \<open>auto simp: ring_inv_def drain_ok_def\<close>)
  moreover have "accounted ?s" using inv by (simp add: ring_inv_def accounted_def cong: Drain.case_cong)
  moreover have "ring_shape n (sy_ring ?s)"
    using ring_shape_set_slot [OF shape x] by simp
  ultimately show ?thesis using n by (simp add: ring_inv_def)
qed

lemma ring_inv_writes:
  assumes inv: "ring_inv n s" and within: "within_ring s" and t: "sy_threads s t = Writing k e (w # ws)"
  shows "ring_inv n (s\<lparr>sy_ring := write_field k w (sy_ring s), sy_threads := (sy_threads s)(t := Writing k e ws)\<rparr>)"
proof -
  let ?sl = "slot_of (sy_ring s) k"
  have shape: "length (sl_payload ?sl) = 40" using slot_shape inv by (auto simp: ring_inv_def)
  obtain did where did: "e = sy_claims s ! k" "payload_writes e = did @ w # ws"
      "take (length (laid_out did)) (sl_payload ?sl) = laid_out did" and seq: "sl_seq ?sl \<noteq> k + 1" "sl_seq ?sl \<le> rg_write_index (sy_ring s)"
    using writers_okD [of s t k] inv t slot_shape [of n "sy_ring s" k] by (auto simp: ring_inv_def)
  note off = payload_writes_offset [OF did(2)]
  have payload: "take (length (laid_out (did @ [w]))) (write_volatile (fst w) (snd w) (sl_payload ?sl)) = laid_out (did @ [w])"
    using take_write_volatile [of "fst w" "snd w" "sl_payload ?sl"] off shape did(3) by simp
  have "payload_writes e = (did @ [w]) @ ws" using did(2) by simp
  with payload have "progress (Writing k e ws) (write_volatile (fst w) (snd w) (sl_payload ?sl)) (sy_claims s ! k)"
    using did(1) by (simp only: progress.simps) blast
  moreover have "length (write_volatile (fst w) (snd w) (sl_payload ?sl)) = 40" using off shape by simp
  ultimately show ?thesis
    unfolding write_field_def Let_def using t seq by (intro ring_inv_own_slot [OF inv within]) auto
qed

lemma ring_inv_commits:
  assumes inv: "ring_inv n s" and within: "within_ring s" and t: "sy_threads s t = Writing k e []"
  shows "ring_inv n (s\<lparr>sy_ring := commit k (sy_ring s), sy_threads := (sy_threads s)(t := Idle)\<rparr>)"
proof -
  let ?sl = "slot_of (sy_ring s) k"
  have shape: "length (sl_payload ?sl) = 40" using slot_shape inv by (auto simp: ring_inv_def)
  have "progress (Writing k e []) (sl_payload ?sl) (sy_claims s ! k)"
    and "k + 1 \<le> rg_write_index (sy_ring s)"
    using writers_okD [of s t k] inv t by (auto simp: ring_inv_def)
  then have written: "k + 1 \<le> rg_write_index (sy_ring s)" and "sl_payload ?sl = laid_out (payload_writes (sy_claims s ! k))" using shape by auto
  then have "?sl\<lparr>sl_seq := k + 1\<rparr> = \<lparr>sl_seq = k + 1, sl_payload = laid_out (payload_writes (sy_claims s ! k))\<rparr>"
    by (cases ?sl) simp
  then show ?thesis
    unfolding commit_def using t shape written by (intro ring_inv_own_slot [OF inv within]) auto
qed

lemma ring_inv_reads:
  assumes inv: "ring_inv n s" and d: "sy_drain s = Reading write_index m"
  shows "ring_inv n (s\<lparr>sy_drain := Draining write_index m, sy_drained := sy_drained s + 1,
       sy_calls := sy_calls s @ [read_slot (sl_payload (slot_of (sy_ring s) (sy_drained s)))]\<rparr>)" (is "ring_inv n ?s")
proof -
  let ?d = "sy_drained s"
  have seq: "sl_seq (slot_of (sy_ring s) ?d) = ?d + 1" and d_less: "?d < rg_write_index (sy_ring s)"
      "?d < length (sy_claims s)"
    using inv d by (auto simp: ring_inv_def drain_ok_def accounted_def)
  then have free: "position (sy_threads s t) \<noteq> Some ?d" for t using inv by (auto simp: ring_inv_def writers_ok_def)
  then have "slot_of (sy_ring s) ?d = \<lparr>sl_seq = ?d + 1, sl_payload = laid_out (payload_writes (sy_claims s ! ?d))\<rparr>"
    using inv d_less by (simp add: ring_inv_def committed_ok_def)
  then have "drain_ok ?s" using inv d_less by (simp add: ring_inv_def drain_ok_def take_Suc_conv_app_nth read_laid_out)
  moreover have "writers_ok ?s" using inv free by (auto simp: ring_inv_def writers_ok_def) (metis Suc_leI le_neq_implies_less)
  moreover have "committed_ok ?s" using inv by (simp add: ring_inv_def committed_ok_def)
  moreover have "accounted ?s" using inv d by (auto simp: ring_inv_def accounted_def)
  ultimately show ?thesis using inv by (simp add: ring_inv_def)
qed

lemma ring_inv_step: "ring_step s s' \<Longrightarrow> ring_inv n s \<Longrightarrow> within_ring s \<Longrightarrow> within_ring s' \<Longrightarrow> ring_inv n s'"
proof (induction rule: ring_step.induct)
  case (claims s t k r e)
  have "accounted s" using claims by (simp add: ring_inv_def)
  then have "accounted (s\<lparr>sy_ring := r, sy_threads := (sy_threads s)(t := Claimed k e), sy_claims := sy_claims s @ [e]\<rparr>)"
    by (rule accounted_step [OF ring_step.claims [OF claims(1-3)]])
  with claims show ?case by (blast intro: ring_inv_claims)
next
  case (accounts s t k e)
  have "accounted s" using accounts by (simp add: ring_inv_def)
  then have "accounted (s\<lparr>sy_ring := account_overflow k (sy_ring s), sy_threads := (sy_threads s)(t := Writing k e (payload_writes e))\<rparr>)"
    by (rule accounted_step [OF ring_step.accounts [OF accounts(1)]])
  with accounts show ?case by (blast intro: ring_inv_accounts)
next
  case (starts s d)
  then have "d = sy_drained s" by (simp add: resync_def within_ring_def)
  with starts show ?case
    by (simp add: ring_inv_def accounted_def writers_ok_def committed_ok_def drain_ok_def)
next
  case (checks s write_index m)
  then show ?case
    by (simp add: ring_inv_def accounted_def writers_ok_def committed_ok_def drain_ok_def)
next
  case (rests s write_index m)
  then show ?case
    by (simp add: ring_inv_def accounted_def writers_ok_def committed_ok_def drain_ok_def)
qed (blast intro: ring_inv_writes ring_inv_commits ring_inv_reads)+

lemma ring_inv_reach:
  assumes "0 < n" "ring_reach within_ring n s"
  shows "ring_inv n s \<and> within_ring s"
  using assms(2)
proof (induction rule: ring_reach.induct)
  case fresh
  show ?case using assms(1)
    by (simp add: ring_inv_def ring_shape_def list_all_iff accounted_def writers_ok_def committed_ok_def drain_ok_def
          within_ring_def sys_new_def ring_fresh_def SLOT_PAYLOAD_SIZE_def)
qed (blast intro: ring_inv_step)

lemma drained_record:
  assumes "0 < n" "ring_reach within_ring n s" "i < sy_drained s"
  shows "length (sy_calls s) = sy_drained s \<and> sy_lost s = 0
    \<and> decode (EmitBehaviorCallInternal pid create_time sequence time (sy_calls s ! i))
       = Inr \<lparr>r_kind = KBehaviorCall, r_pid = pid, r_sequence = sequence, r_time = time, r_process_create_time = create_time,
           r_trunc_flags = 0, r_payload = (let e = sy_claims s ! i in
             BehaviorCall (em_api e) (em_thread e) (em_arg0 e) (em_arg1 e) (em_arg2 e) (em_arg3 e))\<rparr>"
proof -
  have "accounted s" "drain_ok s" using ring_inv_reach [OF assms(1,2)] by (auto simp: ring_inv_def)
  then have "sy_calls s = map call_of (take (sy_drained s) (sy_claims s))" "sy_lost s = 0" "sy_drained s \<le> length (sy_claims s)"
    by (auto simp: drain_ok_def accounted_def)
  then show ?thesis using assms(3) decode_behavior_call_roundtrip by (simp add: EmitBehaviorCallInternal_def call_of_def Let_def)
qed

text \<open>
  C22. The ring delivers, with two fields exchanged. As long as the producers do not run a full ring
  ahead of the drain, and however the threads interleave with it, no event is lost or torn: the driver
  promotes exactly the events the sensor emitted, in the order the slots were claimed, each once. But
  the slot holds the API id first and the thread id second while the driver takes the first value for
  the thread id: in the record the agent decodes, the thread id is the API id the sensor reported and
  the API id is the number of the calling thread.
\<close>

theorem sensor_fields_arrive_exchanged:
  assumes "0 < n" "ring_reach within_ring n s" "i < sy_drained s"
  shows "length (sy_calls s) = sy_drained s \<and> sy_lost s = 0
    \<and> decode (EmitBehaviorCallInternal pid create_time sequence time (sy_calls s ! i))
       = Inr \<lparr>r_kind = KBehaviorCall, r_pid = pid, r_sequence = sequence, r_time = time, r_process_create_time = create_time,
           r_trunc_flags = 0, r_payload = (let e = sy_claims s ! i in
             BehaviorCall (em_api e) (em_thread e) (em_arg0 e) (em_arg1 e) (em_arg2 e) (em_arg3 e))\<rparr>"
  using assms by (rule drained_record)

subsection \<open>Uninterrupted calls\<close>

lemma set_slot_set_slot [simp]: "set_slot k x (set_slot k y r) = set_slot k x r"
  by (simp add: set_slot_def)

lemma write_field_set_slot:
  "ring_shape n r \<Longrightarrow> 0 < n \<Longrightarrow> write_field k w (set_slot k x r) = set_slot k (x\<lparr>sl_payload := write_volatile (fst w) (snd w) (sl_payload x)\<rparr>) r"
  by (simp add: write_field_def slot_of_set_slot Let_def)

lemma fold_write_field:
  "ring_shape n r \<Longrightarrow> 0 < n \<Longrightarrow> length (sl_payload x) = 40 \<Longrightarrow>
   fold (write_field k) (payload_writes e) (set_slot k x r) = set_slot k (x\<lparr>sl_payload := laid_out (payload_writes e)\<rparr>) r"
  by (simp add: payload_writes_def write_field_set_slot laid_out_def write_volatile_def)

lemma set_slot_id: "ring_shape n r \<Longrightarrow> 0 < n \<Longrightarrow> set_slot k (slot_of r k) r = r"
  by (simp add: set_slot_def slot_of_def)

text \<open>A call of \<open>emit\<close> as a whole.\<close>

lemma emit_effect:
  assumes "ring_shape n r" "0 < n" "rg_state r = 1" "k = rg_write_index r"
  shows "emit e (Some r) = Some (set_slot k \<lparr>sl_seq = Suc k, sl_payload = laid_out (payload_writes e)\<rparr>
           (account_overflow k (r\<lparr>rg_write_index := Suc k\<rparr>)))"
proof -
  let ?r = "account_overflow k (r\<lparr>rg_write_index := Suc k\<rparr>)"
  have shape: "ring_shape n ?r" using assms by simp
  have "fold (write_field k) (payload_writes e) ?r = set_slot k ((slot_of ?r k)\<lparr>sl_payload := laid_out (payload_writes e)\<rparr>) ?r"
    using fold_write_field [OF shape assms(2), of "slot_of ?r k" k e] slot_shape [OF shape assms(2), of k]
      set_slot_id [OF shape assms(2), of k] by simp
  then have "commit k (fold (write_field k) (payload_writes e) ?r)
      = set_slot k \<lparr>sl_seq = Suc k, sl_payload = laid_out (payload_writes e)\<rparr> ?r"
    by (cases "slot_of ?r k") (simp add: commit_def slot_of_set_slot [OF shape assms(2)])
  then show ?thesis using assms(3,4) by (simp add: emit_def claim_def)
qed

text \<open>
  Emitting and draining in turns: the ring never holds more than one event. What was promoted, what was
  counted as lost by the driver, and the ring at the end.
\<close>

fun emit_and_drain :: "Emission list \<Rightarrow> Ring \<Rightarrow> nat \<Rightarrow> Call list \<times> nat \<times> Ring option" where
  "emit_and_drain [] r cursor = ([], 0, Some r)"
| "emit_and_drain (e # es) r cursor =
     (case emit e (Some r) of None \<Rightarrow> ([], 0, None)
      | Some r \<Rightarrow> (case drain_ring r cursor of (calls, cursor, lost) \<Rightarrow>
          (case emit_and_drain es r cursor of (calls', lost', r') \<Rightarrow> (calls @ calls', lost + lost', r'))))"

definition swept :: "nat \<Rightarrow> Ring \<Rightarrow> bool" where
  "swept n r \<longleftrightarrow> ring_shape n r \<and> 0 < n \<and> rg_state r = 1
     \<and> (\<forall>k < n. rg_write_index r \<le> k \<longrightarrow> sl_seq (slot_of r k) = 0)
     \<and> (\<forall>k < rg_write_index r. rg_write_index r \<le> k + n \<longrightarrow> sl_seq (slot_of r k) = k + 1)"

lemma swept_fresh: "0 < n \<Longrightarrow> swept n (ring_fresh n)"
  by (simp add: swept_def ring_shape_def ring_fresh_def slot_of_def SLOT_PAYLOAD_SIZE_def list_all_iff)

lemma swept_previous:
  assumes "swept n r"
  shows "sl_seq (slot_of r (rg_write_index r)) = rg_write_index r + 1 - n"
proof (cases "rg_write_index r < n")
  case False
  let ?k = "rg_write_index r - n"
  have "slot_of r (rg_write_index r) = slot_of r ?k"
    using False assms by (simp add: slot_of_def swept_def ring_shape_def le_mod_geq)
  moreover have "sl_seq (slot_of r ?k) = ?k + 1" using False assms by (simp add: swept_def)
  ultimately show ?thesis using False by simp
qed (use assms in \<open>simp add: swept_def\<close>)

lemma swept_emit:
  assumes "swept n r"
  shows "\<exists>r'. emit e (Some r) = Some r' \<and> swept n r' \<and> rg_write_index r' = Suc (rg_write_index r)
    \<and> rg_dropped r' = rg_dropped r + (if n \<le> rg_write_index r then 1 else 0)
    \<and> slot_of r' (rg_write_index r) = \<lparr>sl_seq = Suc (rg_write_index r), sl_payload = laid_out (payload_writes e)\<rparr>"
proof -
  let ?k = "rg_write_index r"
  let ?r = "account_overflow ?k (r\<lparr>rg_write_index := Suc ?k\<rparr>)"
  let ?r' = "set_slot ?k \<lparr>sl_seq = Suc ?k, sl_payload = laid_out (payload_writes e)\<rparr> ?r"
  have r: "ring_shape n r" "0 < n" "rg_state r = 1" using assms by (auto simp: swept_def)
  then have shape: "ring_shape n ?r" by simp
  have slot: "slot_of ?r' j = (if j mod n = ?k mod n then \<lparr>sl_seq = Suc ?k, sl_payload = laid_out (payload_writes e)\<rparr> else slot_of r j)" for j
    using slot_of_set_slot [OF shape r(2)] by simp
  have "swept n ?r'"
    unfolding swept_def
  proof (intro conjI allI impI)
    show "ring_shape n ?r'" using ring_shape_set_slot [OF shape] by simp
    fix j
    assume "j < n" "rg_write_index ?r' \<le> j"
    with assms show "sl_seq (slot_of ?r' j) = 0" by (auto simp: slot swept_def)
  next
    fix j
    assume "j < rg_write_index ?r'" "rg_write_index ?r' \<le> j + n"
    then have j: "j \<le> ?k" "?k < j + n" by auto
    show "sl_seq (slot_of ?r' j) = j + 1"
    proof (cases "j = ?k")
      case False
      then have "j mod n \<noteq> ?k mod n" using mod_window [of j j n ?k] j r(2) by auto
      with False j assms show ?thesis by (simp add: slot swept_def)
    qed (simp add: slot)
  qed (use r in auto)
  moreover have "rg_dropped ?r' = rg_dropped r + (if n \<le> ?k then 1 else 0)"
    using swept_previous [OF assms] r(1) by (auto simp: account_overflow_def ring_shape_def Let_def)
  ultimately show ?thesis using emit_effect [OF r refl, of e] slot by auto
qed

lemma drain_one:
  assumes "swept n r" "rg_write_index r = Suc c" "slot_of r c = \<lparr>sl_seq = Suc c, sl_payload = laid_out (payload_writes e)\<rparr>"
  shows "drain_ring r c = ([call_of e], Suc c, 0)"
proof -
  have "drain_slots (Suc (Suc 254)) r (Suc c) c = ([call_of e], Suc c)" using assms(3) by (simp only: drain_slots.simps) (simp add: read_laid_out)
  then have "drain_slots 256 r (Suc c) c = ([call_of e], Suc c)" by simp
  moreover have "\<not> c + n < Suc c" "rg_slot_count r = n" "rg_state r = 1" using assms(1) by (auto simp: swept_def ring_shape_def)
  ultimately show ?thesis using assms(2) by (simp add: drain_ring_def resync_def)
qed

text \<open>
  The sensor's own loss counter does not count losses. A driver that drains after every single call
  promotes every event and loses none, and yet the counter the sensor keeps for events that a full ring
  destroyed grows by one with every call after the first lap: the check behind it compares the slot's
  previous position with the ring size and cannot see whether the driver has read it.
\<close>

theorem sensor_counts_delivered_as_dropped:
  assumes "0 < n"
  shows "\<exists>r. emit_and_drain es (ring_fresh n) 0 = (map call_of es, 0, Some r) \<and> rg_dropped r = length es - n"
proof -
  have "\<exists>r'. emit_and_drain es r (rg_write_index r) = (map call_of es, 0, Some r')
      \<and> rg_dropped r' + (rg_write_index r - n) = rg_dropped r + (rg_write_index r + length es - n)" if "swept n r" for r
    using that
  proof (induction es arbitrary: r)
    case (Cons e es)
    obtain r1 where r1: "emit e (Some r) = Some r1" "swept n r1" "rg_write_index r1 = Suc (rg_write_index r)"
        "rg_dropped r1 = rg_dropped r + (if n \<le> rg_write_index r then 1 else 0)"
        "slot_of r1 (rg_write_index r) = \<lparr>sl_seq = Suc (rg_write_index r), sl_payload = laid_out (payload_writes e)\<rparr>"
      using swept_emit [OF Cons.prems] by blast
    from Cons.IH [OF r1(2)] obtain r' where "emit_and_drain es r1 (rg_write_index r1) = (map call_of es, 0, Some r')"
        "rg_dropped r' + (rg_write_index r1 - n) = rg_dropped r1 + (rg_write_index r1 + length es - n)" by blast
    with r1 drain_one [OF r1(2,3,5)] show ?case by (auto split: if_splits)
  qed simp
  from this [OF swept_fresh [OF assms]] show ?thesis by (auto simp: ring_fresh_def)
qed

theorem sensor_counts_delivered_as_dropped_witness:
  "\<exists>r. emit_and_drain (replicate 5 \<lparr>em_api = 1, em_thread = 7, em_arg0 = 0, em_arg1 = 0, em_arg2 = 0, em_arg3 = 0\<rparr>)
      (ring_fresh 4) 0 = (replicate 5 (1, 7, 0, 0, 0, 0), 0, Some r) \<and> rg_dropped r = 1"
  using sensor_counts_delivered_as_dropped [of 4 "replicate 5 \<lparr>em_api = 1, em_thread = 7, em_arg0 = 0, em_arg1 = 0, em_arg2 = 0, em_arg3 = 0\<rparr>"]
  by (simp add: call_of_def)

text \<open>An uninterrupted call, and an uninterrupted drain of one slot, are among the interleavings.\<close>

lemma sys_claims_last: "s\<lparr>sy_claims := cl, sy_ring := r, sy_threads := th\<rparr> = s\<lparr>sy_ring := r, sy_threads := th, sy_claims := cl\<rparr>"
  by (cases s) simp

lemma writes_reach:
  assumes "\<And>r th cl. rg_write_index r = w \<Longrightarrow> rg_slot_count r = c \<Longrightarrow> P (s\<lparr>sy_ring := r, sy_threads := th, sy_claims := cl\<rparr>)"
    and "ring_reach P n (s\<lparr>sy_ring := r, sy_threads := th(t := Writing k e ws), sy_claims := cl\<rparr>)"
    and "rg_write_index r = w" "rg_slot_count r = c"
  shows "ring_reach P n (s\<lparr>sy_ring := fold (write_field k) ws r, sy_threads := th(t := Writing k e []), sy_claims := cl\<rparr>)"
  using assms(2-4)
proof (induction ws arbitrary: r)
  case (Cons x ws)
  let ?s = "s\<lparr>sy_ring := r, sy_threads := th(t := Writing k e (x # ws)), sy_claims := cl\<rparr>"
  have "ring_step ?s (s\<lparr>sy_ring := write_field k x r, sy_threads := th(t := Writing k e ws), sy_claims := cl\<rparr>)" (is "ring_step _ ?s'")
    using ring_step.writes [of ?s t k e x ws] by (simp add: sys_claims_last)
  moreover have "P ?s'" using Cons.prems(2,3) by (intro assms(1)) simp_all
  ultimately have "ring_reach P n ?s'" by (rule ring_reach.step [OF Cons.prems(1)])
  from Cons.IH [OF this] Cons.prems(2,3) show ?case by simp
qed simp

lemma emit_reach:
  assumes reach: "ring_reach P n s" and idle: "sy_threads s t = Idle" and active: "rg_state (sy_ring s) = 1"
    and P: "\<And>r th cl. rg_write_index r = Suc (rg_write_index (sy_ring s)) \<Longrightarrow> rg_slot_count r = rg_slot_count (sy_ring s)
      \<Longrightarrow> P (s\<lparr>sy_ring := r, sy_threads := th, sy_claims := cl\<rparr>)"
  shows "ring_reach P n (s\<lparr>sy_ring := the (emit e (Some (sy_ring s))), sy_claims := sy_claims s @ [e]\<rparr>)"
proof -
  obtain k r where c: "claim (sy_ring s) = (k, r)" by fastforce
  then have r: "rg_write_index r = Suc (rg_write_index (sy_ring s))" "rg_slot_count r = rg_slot_count (sy_ring s)"
    by (auto simp: claim_def)
  let ?th = "sy_threads s" and ?cl = "sy_claims s @ [e]"
  let ?s1 = "s\<lparr>sy_ring := r, sy_threads := ?th(t := Claimed k e), sy_claims := ?cl\<rparr>"
  let ?s2 = "s\<lparr>sy_ring := account_overflow k r, sy_threads := ?th(t := Writing k e (payload_writes e)), sy_claims := ?cl\<rparr>"
  let ?r3 = "fold (write_field k) (payload_writes e) (account_overflow k r)"
  let ?s3 = "s\<lparr>sy_ring := ?r3, sy_threads := ?th(t := Writing k e []), sy_claims := ?cl\<rparr>"
  have "ring_reach P n ?s1" using ring_step.claims [OF idle active c, of e] by (rule ring_reach.step [OF reach]) (simp add: P r)
  moreover have "ring_step ?s1 ?s2" using ring_step.accounts [of ?s1 t k e] by (simp add: sys_claims_last)
  ultimately have "ring_reach P n ?s2" by (rule ring_reach.step) (simp add: P r)
  then have s3: "ring_reach P n ?s3" using r by (intro writes_reach [where P = P and s = s, OF P]) simp_all
  have fields: "rg_write_index (fold (write_field k) ws r') = rg_write_index r'" "rg_slot_count (fold (write_field k) ws r') = rg_slot_count r'"
    for ws r' by (induction ws arbitrary: r') simp_all
  have "ring_step ?s3 (s\<lparr>sy_ring := commit k ?r3, sy_threads := ?th(t := Idle), sy_claims := ?cl\<rparr>)"
    using ring_step.commits [of ?s3 t k e] by (simp add: sys_claims_last)
  then have "ring_reach P n (s\<lparr>sy_ring := commit k ?r3, sy_threads := ?th(t := Idle), sy_claims := ?cl\<rparr>)"
    by (rule ring_reach.step [OF s3]) (simp add: P r fields)
  moreover have "?th(t := Idle) = ?th" using idle by auto
  ultimately show ?thesis using c active by (simp add: emit_def)
qed

definition call0 :: Emission where
  "call0 = \<lparr>em_api = NT_WRITE_FILE, em_thread = 1234, em_arg0 = 0, em_arg1 = 0, em_arg2 = 0, em_arg3 = 0\<rparr>"

definition one_call :: Sys where
  "one_call = (sys_new 4096)\<lparr>sy_ring := the (emit call0 (Some (ring_fresh 4096))), sy_claims := [call0],
     sy_drain := Draining 1 255, sy_drained := 1, sy_calls := [call_of call0]\<rparr>"

lemma one_call_reached:
  assumes "P = within_ring \<or> P = (\<lambda>_. True)"
  shows "ring_reach P 4096 one_call"
proof -
  let ?s1 = "(sys_new 4096)\<lparr>sy_ring := the (emit call0 (Some (ring_fresh 4096))), sy_claims := [call0]\<rparr>"
  obtain r where r: "emit call0 (Some (ring_fresh 4096)) = Some r" "swept 4096 r" "rg_write_index r = 1"
      "slot_of r 0 = \<lparr>sl_seq = 1, sl_payload = laid_out (payload_writes call0)\<rparr>"
    using swept_emit [OF swept_fresh [of 4096], of call0] by (auto simp: ring_fresh_def)
  then have parts: "rg_slot_count r = 4096" "rg_state r = 1" by (auto simp: swept_def ring_shape_def)
  have "ring_reach P 4096 (sys_new 4096)" by (rule ring_reach.fresh)
  then have s1: "ring_reach P 4096 ?s1"
    using emit_reach [of P 4096 "sys_new 4096" 0 call0] assms by (auto simp: sys_new_def ring_fresh_def within_ring_def)
  let ?s2 = "?s1\<lparr>sy_drain := Draining 1 256\<rparr>"
  have "ring_step ?s1 ?s2" using ring_step.starts [of ?s1 0] r parts by (simp add: sys_new_def resync_def)
  with s1 have s2: "ring_reach P 4096 ?s2" by (rule ring_reach.step) (use assms r parts in \<open>auto simp: within_ring_def\<close>)
  let ?s3 = "?s1\<lparr>sy_drain := Reading 1 255\<rparr>"
  have "ring_step ?s2 ?s3" using ring_step.checks [of ?s2 1 255] r by (simp add: sys_new_def)
  with s2 have s3: "ring_reach P 4096 ?s3" by (rule ring_reach.step) (use assms r parts in \<open>auto simp: within_ring_def\<close>)
  have "ring_step ?s3 one_call" using ring_step.reads [of ?s3 1 255] r by (simp add: sys_new_def one_call_def read_laid_out)
  with s3 show ?thesis by (rule ring_reach.step) (use assms r parts in \<open>auto simp: within_ring_def one_call_def\<close>)
qed


theorem sensor_fields_arrive_exchanged_witness:
  "decode (EmitBehaviorCallInternal 4 5 6 7 (sy_calls one_call ! 0))
     = Inr \<lparr>r_kind = KBehaviorCall, r_pid = 4, r_sequence = 6, r_time = 7, r_process_create_time = 5, r_trunc_flags = 0,
         r_payload = BehaviorCall NT_WRITE_FILE 1234 0 0 0 0\<rparr>"
  using sensor_fields_arrive_exchanged [OF _ one_call_reached [OF disjI1 [OF refl]], of 0 4 5 6 7]
  by (simp add: one_call_def sys_new_def call0_def)

end
