(* ===== verification/Sensor_Handshake.thy ===== *)
theory Sensor_Handshake
  imports Sensor_Ring Driver_Control
begin

text \<open>
  How a sensor becomes active: the handshake of \<^verbatim>\<open>crates/injectee/src/sensor.rs\<close> (challenge, mapping the
  ring, registration, geometry check), its retries, and the driver's gate on it
  (\<^verbatim>\<open>InjectionSensorChallenge\<close> and \<^verbatim>\<open>InjectionSensorRegister\<close> of \<^verbatim>\<open>src/driver/secoutfall/Injection.cpp\<close>, without its races
  of two challenges of one process). Windows calls that may fail are inputs.
\<close>

definition IOCTL_SECOUTFALL_SENSOR_CHALLENGE :: u32 where "IOCTL_SECOUTFALL_SENSOR_CHALLENGE = 0x80006018"
definition IOCTL_SECOUTFALL_SENSOR_REGISTER :: u32 where "IOCTL_SECOUTFALL_SENSOR_REGISTER = 0x8000A01C"

text \<open>The sensor's copies of the codes are the agent's, which are the macros of the driver.\<close>

lemma sensor_codes_match:
  "IOCTL_SECOUTFALL_SENSOR_CHALLENGE = SENSOR_CHALLENGE" "IOCTL_SECOUTFALL_SENSOR_REGISTER = SENSOR_REGISTER"
  by (simp_all add: IOCTL_SECOUTFALL_SENSOR_CHALLENGE_def IOCTL_SECOUTFALL_SENSOR_REGISTER_def SENSOR_CHALLENGE_def SENSOR_REGISTER_def
        ctl_code_def DEVICE_def METHOD_BUFFERED_def FILE_READ_ACCESS_def FILE_WRITE_ACCESS_def)

subsection \<open>The driver's ledger\<close>

datatype InjectionState = PendingThread | PendingNtdll | Ready | Injected | Registered | Failed

record InjectionEntry =
  ie_nonce :: u64
  ie_state :: InjectionState
  ie_ring :: "Ring option"   \<comment> \<open>\<open>RingKernelVa\<close>\<close>

definition SENSOR_SLOT_COUNT :: nat where "SENSOR_SLOT_COUNT = 4096"

text \<open>The challenge of a process with its ledger entry; \<open>section\<close> is whether the ring can be created, mapped and duplicated.\<close>

definition InjectionSensorChallenge :: "bool \<Rightarrow> InjectionEntry option \<Rightarrow> u64 option \<times> InjectionEntry option" where
  "InjectionSensorChallenge section_ok entry =
     (case entry of None \<Rightarrow> (None, entry)
      | Some ie \<Rightarrow>
          if ie_state ie \<noteq> Injected \<or> \<not> section_ok then (None, entry)
          else (Some (ie_nonce ie), Some (if ie_ring ie = None
                  then ie\<lparr>ie_ring := Some ((ring_fresh SENSOR_SLOT_COUNT)\<lparr>rg_state := 0\<rparr>)\<rparr> else ie)))"

definition InjectionSensorRegister :: "u64 \<Rightarrow> InjectionEntry option \<Rightarrow> bool \<times> InjectionEntry option" where
  "InjectionSensorRegister nonce entry =
     (case entry of None \<Rightarrow> (False, entry)
      | Some ie \<Rightarrow>
          if ie_state ie \<noteq> Injected \<or> ie_nonce ie \<noteq> nonce then (False, entry)
          else (True, Some (ie\<lparr>ie_state := Registered, ie_ring := map_option (\<lambda>r. r\<lparr>rg_state := 1\<rparr>) (ie_ring ie)\<rparr>)))"

subsection \<open>The sensor's side\<close>

fun count_ones :: "nat \<Rightarrow> nat" where
  "count_ones n = (if n = 0 then 0 else n mod 2 + count_ones (n div 2))"

declare count_ones.simps [simp del]

lemma count_ones_0 [simp]: "count_ones 0 = 0"
  by (simp add: count_ones.simps)

lemma count_ones_pos: "0 < n \<Longrightarrow> 0 < count_ones n"
proof (induction n rule: count_ones.induct)
  case (1 n)
  then show ?case by (cases "n mod 2 = 0") (auto simp: count_ones.simps [of n] elim: evenE)
qed

text \<open>The geometry test is that of a power of two.\<close>

lemma count_ones_power: "count_ones n = 1 \<longleftrightarrow> (\<exists>k. n = 2 ^ k)"
proof
  show "count_ones n = 1 \<Longrightarrow> \<exists>k. n = 2 ^ k"
  proof (induction n rule: count_ones.induct)
    case (1 n)
    then have n: "n \<noteq> 0" "n mod 2 + count_ones (n div 2) = 1" by (auto simp: count_ones.simps [of n] split: if_splits)
    show ?case
    proof (cases "even n")
      case True
      then have "count_ones (n div 2) = 1" using n(2) by (simp add: even_iff_mod_2_eq_zero)
      with 1 n obtain k where "n div 2 = 2 ^ k" by blast
      with True have "n = 2 ^ Suc k" by auto
      then show ?thesis by blast
    next
      case False
      then have "count_ones (n div 2) = 0" using n(2) by (simp add: odd_iff_mod_2_eq_one)
      then have "n div 2 = 0" using count_ones_pos [of "n div 2"] by auto
      with False have "n = 2 ^ 0" by (auto elim: oddE)
      then show ?thesis by blast
    qed
  qed
next
  have "count_ones (2 ^ k) = 1" for k
    by (induction k) (simp_all add: count_ones.simps [of "2 ^ _"] count_ones.simps [of "Suc 0"] count_ones.simps [of "2 * _"])
  then show "\<exists>k. n = 2 ^ k \<Longrightarrow> count_ones n = 1" by auto
qed

record Attempt =
  at_open :: bool
  at_section :: bool
  at_map :: bool

definition works :: "Attempt \<Rightarrow> bool" where
  "works a \<longleftrightarrow> at_open a \<and> at_section a \<and> at_map a"

datatype Op = OpenDevice | CloseDevice | CloseSection | MapView | UnmapView | StoreRing

text \<open>The view shows the ring of the ledger; \<open>geometry\<close> is what the control block says of it.\<close>

definition geometry_ok :: "nat \<times> nat \<Rightarrow> bool" where
  "geometry_ok g = (case g of (slot_size, slot_count) \<Rightarrow>
     \<not> (slot_size \<noteq> SLOT_PAYLOAD_SIZE \<or> slot_count = 0 \<or> count_ones slot_count \<noteq> 1))"

definition handshake :: "nat \<times> nat \<Rightarrow> Attempt \<Rightarrow> InjectionEntry option \<Rightarrow> bool \<times> InjectionEntry option \<times> Op list" where
  "handshake geometry a entry =
     (if \<not> at_open a then (False, entry, [])
      else case InjectionSensorChallenge (at_section a) entry of
        (None, entry) \<Rightarrow> (False, entry, [OpenDevice, CloseDevice])
      | (Some nonce, entry) \<Rightarrow>
          if \<not> at_map a then (False, entry, [OpenDevice, CloseSection, CloseDevice])
          else case InjectionSensorRegister nonce entry of (registered, entry) \<Rightarrow>
            if \<not> registered then (False, entry, [OpenDevice, MapView, CloseSection, CloseDevice, UnmapView])
            else if \<not> geometry_ok geometry then (False, entry, [OpenDevice, MapView, CloseSection, CloseDevice, UnmapView])
            else (True, entry, [OpenDevice, MapView, CloseSection, CloseDevice, StoreRing]))"

text \<open>The attempts of the init thread: three at most.\<close>

fun handshakes :: "nat \<times> nat \<Rightarrow> Attempt list \<Rightarrow> InjectionEntry option \<Rightarrow> bool \<times> InjectionEntry option" where
  "handshakes geometry [] entry = (False, entry)"
| "handshakes geometry (a # attempts) entry =
     (case handshake geometry a entry of (ok, entry, _) \<Rightarrow> if ok then (True, entry) else handshakes geometry attempts entry)"

text \<open>Waiting for the activation: the control block's state at each poll, and whether the deadline has passed then.\<close>

fun wait_active :: "(nat \<times> bool) list \<Rightarrow> bool" where
  "wait_active [] = False"
| "wait_active ((state, late) # polls) = (if state = 1 then True else if late then False else wait_active polls)"

text \<open>Whether the hooks are installed in the end, and the ledger entry the driver has.\<close>

definition sensor_run :: "nat \<times> nat \<Rightarrow> Attempt list \<Rightarrow> bool \<Rightarrow> InjectionEntry option \<Rightarrow> bool \<times> InjectionEntry option" where
  "sensor_run geometry attempts late entry =
     (case handshakes geometry (take 3 attempts) entry of (ok, entry) \<Rightarrow>
        (ok \<and> wait_active [(case entry of None \<Rightarrow> 0 | Some ie \<Rightarrow> (case ie_ring ie of None \<Rightarrow> 0 | Some r \<Rightarrow> rg_state r), late)], entry))"

text \<open>Every path releases what it took: the device always, the view unless it is kept as the ring.\<close>

lemma handshake_releases:
  assumes "handshake geometry a entry = (ok, entry', ops)"
  shows "count_list ops OpenDevice = count_list ops CloseDevice
    \<and> count_list ops MapView = count_list ops UnmapView + count_list ops StoreRing \<and> (ok \<longleftrightarrow> StoreRing \<in> set ops)"
  using assms by (auto simp: handshake_def split: if_splits prod.splits option.splits)

text \<open>A process the driver did not inject gets nowhere and changes nothing.\<close>

lemma handshake_gate:
  assumes "entry = None \<or> (\<exists>ie. entry = Some ie \<and> ie_state ie \<noteq> Injected)"
  shows "sensor_run geometry attempts late entry = (False, entry)"
proof -
  have "\<exists>ops. handshake geometry a entry = (False, entry, ops)" for a
    using assms by (auto simp: handshake_def InjectionSensorChallenge_def)
  then have "handshakes geometry as entry = (False, entry)" for as
    by (induction as) (auto split: prod.splits, (metis prod.inject)+)
  then show ?thesis by (simp add: sensor_run_def)
qed

lemma handshake_outcome:
  assumes "ie_state ie = Injected"
  shows "\<exists>ie' ops. handshake (SLOT_PAYLOAD_SIZE, SENSOR_SLOT_COUNT) a (Some ie) = (works a, Some ie', ops)
    \<and> ie_nonce ie' = ie_nonce ie
    \<and> (if works a then ie_state ie' = Registered \<and> (\<exists>r. ie_ring ie' = Some r \<and> rg_state r = 1)
       else ie_state ie' = Injected)"
proof -
  have "count_ones 4096 = 1" using count_ones_power [of 4096] by (simp add: exI [of _ 12])
  then have "geometry_ok (SLOT_PAYLOAD_SIZE, SENSOR_SLOT_COUNT)" by (simp add: geometry_ok_def SENSOR_SLOT_COUNT_def)
  then show ?thesis
    using assms by (auto simp: handshake_def InjectionSensorChallenge_def InjectionSensorRegister_def works_def)
qed

text \<open>
  An injected sensor gets its ring. With the driver's geometry, the process the driver injected
  installs its hooks exactly when one of its first three attempts finds the device, the section and the
  mapping working, and then the driver has it registered, with an active ring, under the nonce it
  minted; otherwise the entry is still waiting for it. A failed attempt does not use up the challenge.
\<close>

theorem sensor_handshake_completes:
  assumes "ie_state ie = Injected"
  shows "\<exists>ie'. sensor_run (SLOT_PAYLOAD_SIZE, SENSOR_SLOT_COUNT) attempts late (Some ie)
      = (list_ex works (take 3 attempts), Some ie')
    \<and> ie_nonce ie' = ie_nonce ie
    \<and> (if list_ex works (take 3 attempts) then ie_state ie' = Registered \<and> (\<exists>r. ie_ring ie' = Some r \<and> rg_state r = 1)
       else ie_state ie' = Injected)"
proof -
  have "\<exists>ie'. handshakes (SLOT_PAYLOAD_SIZE, SENSOR_SLOT_COUNT) as (Some ie)
      = (list_ex works as, Some ie') \<and> ie_nonce ie' = ie_nonce ie
    \<and> (if list_ex works as then ie_state ie' = Registered \<and> (\<exists>r. ie_ring ie' = Some r \<and> rg_state r = 1)
       else ie_state ie' = Injected)" for as
    using assms
  proof (induction as arbitrary: ie)
    case (Cons a as)
    from handshake_outcome [OF Cons.prems, of a] obtain ie1 ops where
      h: "handshake (SLOT_PAYLOAD_SIZE, SENSOR_SLOT_COUNT) a (Some ie) = (works a, Some ie1, ops)"
        "ie_nonce ie1 = ie_nonce ie"
        "if works a then ie_state ie1 = Registered \<and> (\<exists>r. ie_ring ie1 = Some r \<and> rg_state r = 1)
         else ie_state ie1 = Injected" by blast
    show ?case
    proof (cases "works a")
      case False
      with h Cons.IH [of ie1] show ?thesis by auto
    qed (use h in auto)
  qed simp
  from this [of "take 3 attempts"] obtain ie' where ie': "handshakes (SLOT_PAYLOAD_SIZE, SENSOR_SLOT_COUNT) (take 3 attempts) (Some ie)
      = (list_ex works (take 3 attempts), Some ie')" "ie_nonce ie' = ie_nonce ie"
    "if list_ex works (take 3 attempts) then ie_state ie' = Registered \<and> (\<exists>r. ie_ring ie' = Some r \<and> rg_state r = 1)
     else ie_state ie' = Injected" by blast
  then show ?thesis by (cases "list_ex works (take 3 attempts)") (auto simp: sensor_run_def)
qed

theorem sensor_handshake_completes_witness:
  "fst (sensor_run (40, 4096) [\<lparr>at_open = False, at_section = True, at_map = True\<rparr>, \<lparr>at_open = True, at_section = True, at_map = True\<rparr>]
      True (Some \<lparr>ie_nonce = 9, ie_state = Injected, ie_ring = None\<rparr>))"
  using sensor_handshake_completes [of "\<lparr>ie_nonce = 9, ie_state = Injected, ie_ring = None\<rparr>"
      "[\<lparr>at_open = False, at_section = True, at_map = True\<rparr>, \<lparr>at_open = True, at_section = True, at_map = True\<rparr>]" True]
  by (auto simp: SLOT_PAYLOAD_SIZE_def SENSOR_SLOT_COUNT_def works_def)

end
