(* ===== verification/Job_Queue.thy ===== *)
theory Job_Queue
  imports Screenshot_Intake
begin

text \<open>
  The bounded job queue behind the slow plugins (\<^verbatim>\<open>crates/agent/src/app/worker.rs\<close>): submitters that never
  wait, one worker that takes jobs in order until it is cancelled, and the count of what was not done.
  The channel holds \<open>jq_capacity\<close> jobs. The worker's exit is two steps, because counting what is left in
  the channel and dropping the receiver are two operations between which a submitter may run.
\<close>

datatype WorkerPhase = Serving | Counted | Gone

record 'a JobQueue =
  jq_capacity :: nat
  jq_queue :: "'a list"
  jq_running :: "'a option"
  jq_processed :: "'a list"
  jq_cancelled :: bool
  jq_phase :: WorkerPhase
  jq_dropped :: u64

definition spawn :: "nat \<Rightarrow> 'a JobQueue" where
  "spawn capacity = \<lparr>jq_capacity = capacity, jq_queue = [], jq_running = None, jq_processed = [], jq_cancelled = False,
     jq_phase = Serving, jq_dropped = 0\<rparr>"

definition try_send :: "'a JobQueue \<Rightarrow> TrySend" where
  "try_send q = (if jq_phase q = Gone then SendClosed else if length (jq_queue q) < jq_capacity q then SendOk else SendFull)"

definition submit_job :: "'a \<Rightarrow> 'a JobQueue \<Rightarrow> bool \<times> 'a JobQueue" where
  "submit_job job q =
     (case submit (try_send q) (jq_dropped q) of (ok, dropped) \<Rightarrow>
        (ok, q\<lparr>jq_dropped := dropped, jq_queue := if ok then jq_queue q @ [job] else jq_queue q\<rparr>))"

definition stop :: "'a JobQueue \<Rightarrow> 'a JobQueue" where
  "stop q = q\<lparr>jq_cancelled := True\<rparr>"

text \<open>The jobs still in the channel when the worker leaves its loop.\<close>

definition count_abandoned :: "'a JobQueue \<Rightarrow> 'a JobQueue" where
  "count_abandoned q = q\<lparr>jq_phase := Counted, jq_dropped := jq_dropped q + of_nat (length (jq_queue q))\<rparr>"

text \<open>A submission is labelled with its outcome and whether the worker had counted already.\<close>

datatype 'a QueueEvent = Submits 'a TrySend bool | Takes | Finishes | Stops | Leaves | Drops

inductive queue_step :: "'a JobQueue \<Rightarrow> 'a QueueEvent \<Rightarrow> 'a JobQueue \<Rightarrow> bool" where
  submits: "queue_step q (Submits job (try_send q) (jq_phase q = Counted)) (snd (submit_job job q))"
| takes: "jq_phase q = Serving \<Longrightarrow> \<not> jq_cancelled q \<Longrightarrow> jq_running q = None \<Longrightarrow> jq_queue q = job # rest \<Longrightarrow>
     queue_step q Takes (q\<lparr>jq_queue := rest, jq_running := Some job\<rparr>)"
| finishes: "jq_running q = Some job \<Longrightarrow>
     queue_step q Finishes (q\<lparr>jq_running := None, jq_processed := jq_processed q @ [job]\<rparr>)"
| stops: "queue_step q Stops (stop q)"
| leaves: "jq_phase q = Serving \<Longrightarrow> jq_cancelled q \<Longrightarrow> jq_running q = None \<Longrightarrow> queue_step q Leaves (count_abandoned q)"
| drops: "jq_phase q = Counted \<Longrightarrow> queue_step q Drops (q\<lparr>jq_phase := Gone, jq_queue := []\<rparr>)"

inductive queue_run :: "nat \<Rightarrow> 'a QueueEvent list \<Rightarrow> 'a JobQueue \<Rightarrow> bool" for capacity where
  spawned: "queue_run capacity [] (spawn capacity)"
| step: "queue_run capacity evs q \<Longrightarrow> queue_step q ev q' \<Longrightarrow> queue_run capacity (evs @ [ev]) q'"

inductive_simps queue_step_simps:
  "queue_step q (Submits job outcome gap) q'" "queue_step q Stops q'" "queue_step q Leaves q'" "queue_step q Drops q'"

subsection \<open>Accounting\<close>

text \<open>What a run submitted: the jobs accepted before and after the worker's count, and the refusals.\<close>

definition accepted :: "bool \<Rightarrow> 'a QueueEvent list \<Rightarrow> 'a list" where
  "accepted gap evs = concat (map (\<lambda>ev. case ev of Submits job outcome g \<Rightarrow> if outcome = SendOk \<and> g = gap then [job] else [] | _ \<Rightarrow> []) evs)"

definition refused :: "TrySend \<Rightarrow> 'a QueueEvent list \<Rightarrow> nat" where
  "refused outcome evs = length (filter (\<lambda>ev. case ev of Submits _ o' _ \<Rightarrow> o' = outcome | _ \<Rightarrow> False) evs)"

lemma accounting_snoc [simp]:
  "accepted gap [] = []" "refused out [] = 0"
  "accepted gap (evs @ [ev]) = accepted gap evs @ (case ev of Submits job outcome g \<Rightarrow> if outcome = SendOk \<and> g = gap then [job] else [] | _ \<Rightarrow> [])"
  "refused out (evs @ [ev]) = refused out evs + (case ev of Submits job outcome g \<Rightarrow> if outcome = out then 1 else 0 | _ \<Rightarrow> 0)"
  by (auto simp: accepted_def refused_def split: QueueEvent.split)

definition queue_inv :: "'a QueueEvent list \<Rightarrow> 'a JobQueue \<Rightarrow> bool" where
  "queue_inv evs q \<longleftrightarrow> (case jq_phase q of
      Serving \<Rightarrow> accepted True evs = []
        \<and> accepted False evs = jq_processed q @ (case jq_running q of None \<Rightarrow> [] | Some job \<Rightarrow> [job]) @ jq_queue q
        \<and> jq_dropped q = of_nat (refused SendFull evs)
    | phase \<Rightarrow> jq_running q = None \<and> (\<exists>abandoned. accepted False evs = jq_processed q @ abandoned
        \<and> jq_dropped q = of_nat (refused SendFull evs + length abandoned)
        \<and> (if phase = Counted then jq_queue q = abandoned @ accepted True evs else True)))"

lemma queue_inv_step: "queue_step q ev q' \<Longrightarrow> queue_inv evs q \<Longrightarrow> queue_inv (evs @ [ev]) q'"
proof (induction rule: queue_step.induct)
  case (submits q job)
  then show ?case
    by (cases "jq_phase q") (auto simp: queue_inv_def submit_job_def submit_def try_send_def split: if_splits)
next
  case (leaves q)
  then show ?case by (auto simp: queue_inv_def count_abandoned_def)
qed (auto simp: queue_inv_def stop_def split: WorkerPhase.splits)

lemma queue_run_inv: "queue_run capacity evs q \<Longrightarrow> queue_inv evs q"
proof (induction rule: queue_run.induct)
  case spawned
  show ?case by (simp add: queue_inv_def spawn_def)
qed (rule queue_inv_step)

lemma gap_run:
  assumes "0 < capacity"
  shows "queue_run capacity [Stops, Leaves, Submits job SendOk True, Drops]
    \<lparr>jq_capacity = capacity, jq_queue = [], jq_running = None, jq_processed = [], jq_cancelled = True, jq_phase = Gone, jq_dropped = 0\<rparr>"
proof -
  let ?q1 = "stop (spawn capacity)" let ?q2 = "count_abandoned ?q1" let ?q3 = "snd (submit_job job ?q2)"
  have 1: "queue_run capacity [Stops] ?q1" using queue_run.step [OF queue_run.spawned queue_step.stops] by simp
  have "queue_step ?q1 Leaves ?q2" by (rule queue_step.leaves) (simp_all add: stop_def spawn_def)
  from queue_run.step [OF 1 this] have 2: "queue_run capacity [Stops, Leaves] ?q2" by simp
  have "queue_step ?q2 (Submits job SendOk True) ?q3"
    using queue_step.submits [of ?q2 job] assms by (simp add: try_send_def count_abandoned_def stop_def spawn_def)
  from queue_run.step [OF 2 this] have 3: "queue_run capacity [Stops, Leaves, Submits job SendOk True] ?q3" by simp
  have "queue_step ?q3 Drops (?q3\<lparr>jq_phase := Gone, jq_queue := []\<rparr>)"
    by (rule queue_step.drops) (simp add: submit_job_def count_abandoned_def submit_def split: prod.split)
  from queue_run.step [OF 3 this] assms show ?thesis
    by (simp add: submit_job_def submit_def try_send_def count_abandoned_def stop_def spawn_def)
qed

text \<open>
  C25. Jobs are done in order or counted, but for one gap. However submitters and worker interleave, once
  the worker is gone the jobs accepted before it counted are those it did, in the order they were
  submitted, followed by abandoned ones, and the counter is the number of submissions refused by a full
  queue plus the abandoned jobs (modulo its 64 bits): none of them is lost silently. But a job submitted
  after the worker has counted and before its receiver is dropped is accepted and neither done nor
  counted; such a run exists for every capacity.
\<close>

theorem jobs_done_or_counted:
  assumes "queue_run capacity evs q" "jq_phase q = Gone" "0 < capacity"
  shows "(\<exists>abandoned. accepted False evs = jq_processed q @ abandoned
      \<and> jq_dropped q = of_nat (refused SendFull evs + length abandoned))
    \<and> (\<exists>evs' q'. queue_run capacity evs' q' \<and> jq_phase q' = Gone \<and> accepted True evs' = [job :: 'a]
      \<and> jq_processed q' = [] \<and> jq_dropped q' = 0)"
proof -
  have "accepted True [Stops, Leaves, Submits job SendOk True, Drops] = [job]" by (simp add: accepted_def)
  with queue_run_inv [OF assms(1)] assms(2) gap_run [OF assms(3), of job] show ?thesis
    by (fastforce simp: queue_inv_def)
qed

theorem jobs_done_or_counted_witness:
  "\<exists>evs' q'. queue_run 4 evs' q' \<and> jq_phase q' = Gone \<and> accepted True evs' = [7 :: nat] \<and> jq_processed q' = [] \<and> jq_dropped q' = 0"
  using jobs_done_or_counted [OF gap_run [of 4 "7 :: nat"], where job = "7 :: nat"] by simp

end
