(* ===== verification/Scope_Store.thy ===== *)
theory Scope_Store
  imports Scope
begin

text \<open>
  The file behind the scope state (\<^verbatim>\<open>adapters/driven/scope_store/json.rs\<close>): loading, and saving by a fresh
  temporary file, a sync and a rename. The sandbox is reset and loses power as a matter of course, so the
  question is what is on disk after a crash at any moment. A directory maps the two names of interest to
  inodes; content that was not synced may be anything after a crash, and of the directory changes made
  since the save began any prefix may have reached the disk. The JSON codec is a parameter, and so is
  whether each file operation succeeds.
\<close>

datatype ScopeRepositoryError = Corrupt | Io

datatype FileName = ScopeJson | ScopeTmp

type_synonym directory = "FileName \<Rightarrow> nat option"

record Disk =
  dk_dirs :: "directory list"   \<comment> \<open>what the directory has been since the save began, newest last\<close>
  dk_data :: "nat \<Rightarrow> u8 list"
  dk_synced :: "nat \<Rightarrow> bool"
  dk_next :: nat                \<comment> \<open>a fresh inode\<close>

definition entry_of :: "FileName \<Rightarrow> Disk \<Rightarrow> nat option" where
  "entry_of name d = last (dk_dirs d) name"

definition change_dir :: "(directory \<Rightarrow> directory) \<Rightarrow> Disk \<Rightarrow> Disk" where
  "change_dir f d = d\<lparr>dk_dirs := dk_dirs d @ [f (last (dk_dirs d))]\<rparr>"

subsection \<open>File operations\<close>

definition remove_file :: "FileName \<Rightarrow> Disk \<Rightarrow> Disk" where
  "remove_file name d = change_dir (\<lambda>dir. dir(name := None)) d"

definition create_new :: "FileName \<Rightarrow> Disk \<Rightarrow> Disk" where
  "create_new name d = (change_dir (\<lambda>dir. dir(name := Some (dk_next d))) d)
     \<lparr>dk_data := (dk_data d)(dk_next d := []), dk_synced := (dk_synced d)(dk_next d := False), dk_next := Suc (dk_next d)\<rparr>"

definition write_all :: "nat \<Rightarrow> u8 list \<Rightarrow> Disk \<Rightarrow> Disk" where
  "write_all i bytes d = d\<lparr>dk_data := (dk_data d)(i := bytes), dk_synced := (dk_synced d)(i := False)\<rparr>"

definition sync_all :: "nat \<Rightarrow> Disk \<Rightarrow> Disk" where
  "sync_all i d = d\<lparr>dk_synced := (dk_synced d)(i := True)\<rparr>"

definition rename_file :: "FileName \<Rightarrow> FileName \<Rightarrow> Disk \<Rightarrow> Disk" where
  "rename_file a b d = change_dir (\<lambda>dir. dir(b := dir a, a := None)) d"

text \<open>What a crash leaves: an earlier directory, and garbage in files that were not synced.\<close>

definition crashed :: "Disk \<Rightarrow> Disk \<Rightarrow> bool" where
  "crashed d d' \<longleftrightarrow> (\<exists>dir garbage. dir \<in> set (dk_dirs d)
     \<and> d' = d\<lparr>dk_dirs := [dir], dk_data := (\<lambda>i. if dk_synced d i then dk_data d i else garbage i), dk_synced := (\<lambda>_. True)\<rparr>)"

subsection \<open>The repository\<close>

definition ScopeState_default :: ScopeState where
  "ScopeState_default = \<lparr>sst_study_id = 0, sst_sessions = []\<rparr>"

text \<open>\<open>readable\<close> is whether an existing file can be read.\<close>

definition load :: "(u8 list \<Rightarrow> ScopeState option) \<Rightarrow> bool \<Rightarrow> Disk \<Rightarrow> ScopeRepositoryError + ScopeState" where
  "load from_slice readable d =
     (case entry_of ScopeJson d of
        None \<Rightarrow> Inr ScopeState_default
      | Some i \<Rightarrow> if readable then ok_or Corrupt (from_slice (dk_data d i)) else Inl Io)"

text \<open>
  Saving: the result, and the disk after each operation. \<open>ok k\<close> tells whether the \<open>k\<close>-th operation
  succeeds, \<open>partial\<close> how much of the content a failing write has written.
\<close>

definition save :: "(ScopeState \<Rightarrow> u8 list option) \<Rightarrow> (nat \<Rightarrow> bool) \<Rightarrow> nat \<Rightarrow> ScopeState \<Rightarrow> Disk \<Rightarrow> (ScopeRepositoryError + unit) \<times> Disk list" where
  "save to_vec_pretty ok partial state d0 =
     (case to_vec_pretty state of None \<Rightarrow> (Inl Corrupt, [d0])
      | Some bytes \<Rightarrow>
          if entry_of ScopeTmp d0 \<noteq> None \<and> \<not> ok 0 then (Inl Io, [d0])
          else let d1 = remove_file ScopeTmp d0 in
            if \<not> ok 1 then (Inl Io, [d0, d1])
            else let i = dk_next d1; d2 = create_new ScopeTmp d1 in
              if \<not> ok 2 then (Inl Io, [d0, d1, d2, write_all i (take partial bytes) d2])
              else let d3 = write_all i bytes d2 in
                if \<not> ok 3 then (Inl Io, [d0, d1, d2, d3])
                else let d4 = sync_all i d3 in
                  if \<not> ok 4 then (Inl Io, [d0, d1, d2, d3, d4])
                  else (Inr (), [d0, d1, d2, d3, d4, rename_file ScopeTmp ScopeJson d4]))"

subsection \<open>Crash safety\<close>

text \<open>The state file is untouched: every directory of the save has the old file under its name.\<close>

definition keeps_old :: "Disk \<Rightarrow> Disk \<Rightarrow> bool" where
  "keeps_old d0 d \<longleftrightarrow> dk_dirs d \<noteq> [] \<and> list_all (\<lambda>dir. dir ScopeJson = entry_of ScopeJson d0) (dk_dirs d)
     \<and> (case entry_of ScopeJson d0 of None \<Rightarrow> True
        | Some i \<Rightarrow> i < dk_next d0 \<and> dk_synced d i \<and> dk_data d i = dk_data d0 i) \<and> dk_next d0 \<le> dk_next d"

lemma keeps_old_load:
  assumes "keeps_old d0 d"
  shows "load from_slice readable d = load from_slice readable d0"
proof -
  have "entry_of ScopeJson d = entry_of ScopeJson d0"
    using assms last_in_set [of "dk_dirs d"] by (simp add: keeps_old_def entry_of_def list_all_iff)
  with assms show ?thesis by (auto simp: keeps_old_def load_def split: option.splits)
qed

lemma keeps_old_crashed: "keeps_old d0 d \<Longrightarrow> crashed d d' \<Longrightarrow> load from_slice readable d' = load from_slice readable d0"
  by (auto simp: keeps_old_def crashed_def load_def entry_of_def list_all_iff split: option.splits)

lemma keeps_old_ops:
  assumes "keeps_old d0 d"
  shows "keeps_old d0 (remove_file ScopeTmp d)" "keeps_old d0 (create_new ScopeTmp d)"
    "dk_next d0 \<le> i \<Longrightarrow> keeps_old d0 (write_all i bytes d)" "keeps_old d0 (sync_all i d)"
  using assms
  by (auto simp: keeps_old_def remove_file_def create_new_def write_all_def sync_all_def change_dir_def list_all_iff split: option.splits)

definition durable :: "Disk \<Rightarrow> bool" where
  "durable d \<longleftrightarrow> length (dk_dirs d) = 1 \<and> (case entry_of ScopeJson d of None \<Rightarrow> True | Some i \<Rightarrow> i < dk_next d \<and> dk_synced d i)"

lemma durable_keeps: "durable d \<Longrightarrow> keeps_old d d"
  by (auto simp: durable_def keeps_old_def entry_of_def length_Suc_conv split: option.splits)

text \<open>The disk after a complete save, and what a crash may make of it.\<close>

definition saved :: "Disk \<Rightarrow> u8 list \<Rightarrow> Disk" where
  "saved d0 bytes = (let i = dk_next d0 in
     rename_file ScopeTmp ScopeJson (sync_all i (write_all i bytes (create_new ScopeTmp (remove_file ScopeTmp d0)))))"

lemma saved_load:
  assumes "durable d0" "from_slice bytes = Some state"
  shows "load from_slice True (saved d0 bytes) = Inr state"
    "crashed (saved d0 bytes) d \<Longrightarrow> load from_slice True d = Inr state \<or> load from_slice True d = load from_slice True d0"
proof -
  have old: "i < dk_next d0 \<and> dk_synced d0 i" if "last (dk_dirs d0) ScopeJson = Some i" for i
    using assms(1) that by (simp add: durable_def entry_of_def)
  have "length (dk_dirs d0) = 1" using assms(1) by (simp add: durable_def)
  then obtain dir where dir: "dk_dirs d0 = [dir]" by (auto simp: length_Suc_conv)
  show "load from_slice True (saved d0 bytes) = Inr state"
    using assms(2) by (simp add: saved_def load_def entry_of_def rename_file_def sync_all_def write_all_def create_new_def
          remove_file_def change_dir_def Let_def)
  show "load from_slice True d = Inr state \<or> load from_slice True d = load from_slice True d0" if "crashed (saved d0 bytes) d"
    using that assms(2) old dir
    by (auto simp: crashed_def saved_def load_def entry_of_def rename_file_def sync_all_def write_all_def create_new_def
          remove_file_def change_dir_def Let_def split: option.splits)
qed

lemma save_states:
  assumes "to_vec_pretty state = Some bytes" "durable d0" "save to_vec_pretty ok partial state d0 = (r, ds)"
  shows "(case r of Inr _ \<Rightarrow> ds \<noteq> [] \<and> list_all (keeps_old d0) (butlast ds) \<and> last ds = saved d0 bytes
         | Inl _ \<Rightarrow> ds \<noteq> [] \<and> list_all (keeps_old d0) ds)"
proof -
  have next1: "dk_next (remove_file ScopeTmp d0) = dk_next d0" by (simp add: remove_file_def change_dir_def)
  note k0 = durable_keeps [OF assms(2)]
  note k1 = keeps_old_ops(1) [OF k0] note k2 = keeps_old_ops(2) [OF k1]
  note k3 = keeps_old_ops(3) [OF k2 order_refl] note k4 = keeps_old_ops(4) [OF k3]
  show ?thesis
    using assms(1,3) k0 k1 k2 k3 k4
    by (auto simp: save_def Let_def next1 saved_def split: if_splits)
qed

text \<open>
  C21. The scope state survives a crash. Whenever the machine loses power while the scope is being saved,
  also between two operations of the save, and whatever is left of content that was not synced, the next
  boot loads the state as it was before or as it was to be saved: never a corrupt file, and never an
  empty study. A save that reports an error leaves the old state, one that succeeds the new.
\<close>

theorem scope_save_crash_safe:
  assumes "durable d0" "to_vec_pretty state = Some bytes" "from_slice bytes = Some state"
    and "save to_vec_pretty ok partial state d0 = (r, ds)" "d \<in> set ds" "crashed d d'"
  shows "load from_slice True d' \<in> {Inr state, load from_slice True d0}
    \<and> load from_slice True (last ds) = (case r of Inr _ \<Rightarrow> Inr state | Inl _ \<Rightarrow> load from_slice True d0)"
proof (cases r)
  case (Inl e)
  then have "ds \<noteq> []" "list_all (keeps_old d0) ds" using save_states [OF assms(2,1,4)] by auto
  then show ?thesis
    using assms(5,6) Inl keeps_old_load keeps_old_crashed by (auto simp: list_all_iff)
next
  case (Inr u)
  then have ds: "ds \<noteq> []" "list_all (keeps_old d0) (butlast ds)" "last ds = saved d0 bytes"
    using save_states [OF assms(2,1,4)] by auto
  then have "keeps_old d0 d \<or> d = saved d0 bytes" using assms(5) by (metis append_butlast_last_id list_all_iff set_ConsD rotate1.simps(2) set_rotate1)
  then show ?thesis
    using assms(6) Inr ds saved_load [where from_slice = from_slice, OF assms(1,3)] keeps_old_crashed by auto
qed

definition disk0 :: Disk where
  "disk0 = \<lparr>dk_dirs = [(\<lambda>_. None)(ScopeJson \<mapsto> 0)], dk_data = (\<lambda>_. [1]), dk_synced = (\<lambda>_. True), dk_next = 1\<rparr>"

definition codec0 :: "u8 list \<Rightarrow> ScopeState option" where
  "codec0 bytes = (if bytes = [1] then Some \<lparr>sst_study_id = 7, sst_sessions = []\<rparr>
     else if bytes = [2] then Some \<lparr>sst_study_id = 8, sst_sessions = []\<rparr> else None)"

theorem scope_save_crash_safe_witness:
  "load codec0 True (last (snd (save (\<lambda>_. Some [2]) (\<lambda>_. True) 0 \<lparr>sst_study_id = 8, sst_sessions = []\<rparr> disk0)))
     = Inr \<lparr>sst_study_id = 8, sst_sessions = []\<rparr>"
proof -
  let ?state = "\<lparr>sst_study_id = 8, sst_sessions = []\<rparr>"
  obtain r ds where r: "save (\<lambda>_. Some [2]) (\<lambda>_. True) 0 ?state disk0 = (r, ds)" by fastforce
  then have "disk0 \<in> set ds" "r = Inr ()" by (auto simp: save_def Let_def)
  moreover have "crashed disk0 disk0" "durable disk0" by (auto simp: crashed_def durable_def entry_of_def disk0_def)
  moreover have "codec0 [2] = Some ?state" by (simp add: codec0_def)
  ultimately have "load codec0 True (last ds) = Inr ?state"
    using scope_save_crash_safe [OF _ _ _ r, of "[2]" codec0 disk0 disk0] by simp
  with r show ?thesis by simp
qed

end
