(* ===== verification/Etw_Source.thy ===== *)
theory Etw_Source
  imports App_Event Path_Text Screenshot_Intake
begin

text \<open>
  The ETW event source (\<^verbatim>\<open>adapters/driving/etw_mapping.rs\<close>, \<^verbatim>\<open>etw_adapter.rs\<close>): the table from providers and
  opcodes to canonical events, the parsing of one trace record, and the bounded hand-over. A record's
  schema and its typed property lookups belong to a library: they are fields of the record here, nothing
  is assumed of them.
\<close>

subsection \<open>Providers\<close>

datatype EtwProvider = Process | Thread | Image | Registry | FileIo | TcpIp

primrec guid :: "EtwProvider \<Rightarrow> rstr" where
  "guid Process = utf ''3d6fa8d0-fe05-11d0-9dda-00c04fd7ba7c''"
| "guid Thread = utf ''3d6fa8d1-fe05-11d0-9dda-00c04fd7ba7c''"
| "guid Image = utf ''2cb15d1d-5fc1-11d2-abe1-00a0c911f518''"
| "guid Registry = utf ''ae53722e-c863-11d2-8659-00c04fa321a1''"
| "guid FileIo = utf ''90dcb41a-4483-41a8-87b4-735a11b3b0e4''"
| "guid TcpIp = utf ''9a280ac0-c8e0-11d1-84e2-00c04fb998a2''"

definition ALL_providers :: "EtwProvider list" where
  "ALL_providers = [Process, Thread, Image, Registry, FileIo, TcpIp]"

abbreviation brace_open :: nat where "brace_open \<equiv> 123"
abbreviation brace_close :: nat where "brace_close \<equiv> 125"

definition from_guid :: "(rstr \<Rightarrow> rstr) \<Rightarrow> rstr \<Rightarrow> EtwProvider option" where
  "from_guid lc text =
     (let normalized = lc (rev (dropWhile (\<lambda>c. c = brace_close) (rev (dropWhile (\<lambda>c. c = brace_open) (trim text))))) in
      find (\<lambda>provider. guid provider = normalized) ALL_providers)"

definition event_type :: "EtwProvider \<Rightarrow> u8 \<Rightarrow> EventType option" where
  "event_type provider opcode =
     (case provider of
        Process \<Rightarrow> if opcode = 1 \<or> opcode = 3 then Some EventType.ProcessStarted
          else if opcode = 2 \<or> opcode = 4 then Some EventType.ProcessStopped else None
      | Thread \<Rightarrow> if opcode = 1 \<or> opcode = 3 then Some EventType.ThreadStarted
          else if opcode = 2 \<or> opcode = 4 then Some EventType.ThreadStopped else None
      | Image \<Rightarrow> if opcode = 10 then Some EventType.ImageLoaded
          else if opcode = 11 then Some EventType.ImageUnloaded else None
      | Registry \<Rightarrow> if opcode = 10 then Some EventType.RegistryKeyCreated
          else if opcode = 11 then Some EventType.RegistryKeyOpened
          else if opcode = 12 then Some EventType.RegistryKeyDeleted
          else if opcode = 13 then Some EventType.RegistryKeyQueried
          else if opcode = 14 then Some EventType.RegistryValueSet
          else if opcode = 16 \<or> opcode = 22 then Some EventType.RegistryValueQueried
          else if opcode = 27 then Some EventType.RegistryKeyClosed else None
      | FileIo \<Rightarrow> if opcode = 32 then Some EventType.FileCreated
          else if opcode = 20 then Some EventType.FileWritten
          else if opcode = 35 then Some EventType.FileClosed
          else if opcode = 36 then Some EventType.FileCleanedUp
          else if opcode = 33 then Some EventType.FileDeleted
          else if opcode = 34 then Some EventType.FileRenamed
          else if opcode = 42 then Some EventType.FileFsctl else None
      | TcpIp \<Rightarrow> if opcode = 12 \<or> opcode = 28 then Some EventType.NetTcpConnected
          else if opcode = 15 \<or> opcode = 31 then Some EventType.NetTcpAccepted
          else if opcode = 13 \<or> opcode = 29 then Some EventType.NetTcpDisconnected else None)"

subsection \<open>Records\<close>

text \<open>The typed property lookups (\<open>try_parse(name).ok()\<close>) of a record with its schema.\<close>

record Parser =
  pa_u32 :: "string \<Rightarrow> u32 option"
  pa_u64 :: "string \<Rightarrow> u64 option"
  pa_string :: "string \<Rightarrow> rstr option"

record EventRecord =
  er_provider_id :: rstr           \<comment> \<open>as \<open>format!\<close> prints it\<close>
  er_opcode :: u8
  er_process_id :: u32
  er_thread_id :: u32
  er_schema :: "Parser option"     \<comment> \<open>\<open>None\<close>: no schema\<close>

primrec find_map :: "('a \<Rightarrow> 'b option) \<Rightarrow> 'a list \<Rightarrow> 'b option" where
  "find_map f [] = None"
| "find_map f (x # xs) = (case f x of None \<Rightarrow> find_map f xs | Some y \<Rightarrow> Some y)"

definition opt_u32 :: "Parser \<Rightarrow> string list \<Rightarrow> u32 option" where
  "opt_u32 parser names = find_map (pa_u32 parser) names"

definition opt_u64 :: "Parser \<Rightarrow> string list \<Rightarrow> u64 option" where
  "opt_u64 parser names = find_map (pa_u64 parser) names"

definition opt_string :: "Parser \<Rightarrow> string list \<Rightarrow> rstr option" where
  "opt_string parser names = find_map (pa_string parser) names"

definition unwrap_or :: "'a \<Rightarrow> 'a option \<Rightarrow> 'a" where
  "unwrap_or d x = (case x of None \<Rightarrow> d | Some a \<Rightarrow> a)"

definition registry_key_data :: "u32 option \<Rightarrow> rstr option \<Rightarrow> u64 option \<Rightarrow> RegistryKeyData option" where
  "registry_key_data pid key_name key_handle =
     (case (pid, key_name) of (Some pid, Some key_name) \<Rightarrow> Some \<lparr>rk_pid = pid, rk_key_name = key_name, rk_key_handle = key_handle\<rparr>
      | _ \<Rightarrow> None)"

definition parse_registry :: "Parser \<Rightarrow> EventType \<Rightarrow> SourceEvent option" where
  "parse_registry parser event =
     (let key_name = opt_string parser [''KeyName'']; key_handle = opt_u64 parser [''KeyHandle''];
          pid = opt_u32 parser [''PID'', ''ProcessId''];
          key_data = registry_key_data pid key_name key_handle in
      case event of
        EventType.RegistryKeyCreated \<Rightarrow> map_option SourceEvent.RegistryKeyCreated key_data
      | EventType.RegistryKeyOpened \<Rightarrow> map_option SourceEvent.RegistryKeyOpened key_data
      | EventType.RegistryKeyDeleted \<Rightarrow> map_option SourceEvent.RegistryKeyDeleted key_data
      | EventType.RegistryKeyQueried \<Rightarrow> map_option SourceEvent.RegistryKeyQueried key_data
      | EventType.RegistryKeyClosed \<Rightarrow> map_option SourceEvent.RegistryKeyClosed key_data
      | EventType.RegistryValueQueried \<Rightarrow> (case (pid, key_name) of
            (Some pid, Some key_name) \<Rightarrow> Some (SourceEvent.RegistryValueQueried \<lparr>rvq_pid = pid, rvq_key_name = key_name,
                rvq_value_name = opt_string parser [''ValueName''], rvq_key_handle = key_handle\<rparr>)
          | _ \<Rightarrow> None)
      | EventType.RegistryValueSet \<Rightarrow> (case (pid, key_name) of
            (Some pid, Some key_name) \<Rightarrow> Some (SourceEvent.RegistryValueSet \<lparr>rvs_pid = pid, rvs_key_name = key_name,
                rvs_value_name = opt_string parser [''ValueName''], rvs_key_handle = key_handle,
                rvs_value_type = opt_string parser [''ValueType''], rvs_data_size = opt_u32 parser [''DataSize'']\<rparr>)
          | _ \<Rightarrow> None)
      | _ \<Rightarrow> None)"

definition parse_file_io :: "Parser \<Rightarrow> EventType \<Rightarrow> SourceEvent option" where
  "parse_file_io parser event =
     (let file_object = opt_u64 parser [''FileObject'']; file_key = opt_u64 parser [''FileKey''];
          file_name = opt_string parser [''FileName''] in
      case opt_u32 parser [''PID'', ''ProcessId''] of None \<Rightarrow> None
      | Some pid \<Rightarrow> (case event of
          EventType.FileCreated \<Rightarrow> Some (SourceEvent.FileCreated \<lparr>fc_pid = pid, fc_file_object = file_object, fc_file_name = file_name,
              fc_create_options = opt_u32 parser [''CreateOptions''], fc_create_disposition = opt_u32 parser [''CreateDisposition'']\<rparr>)
        | EventType.FileWritten \<Rightarrow> Some (SourceEvent.FileWritten \<lparr>fw_pid = pid, fw_file_object = file_object, fw_file_key = file_key,
              fw_file_name = file_name, fw_io_size = opt_u64 parser [''IoSize''], fw_offset = opt_u64 parser [''Offset'']\<rparr>)
        | EventType.FileClosed \<Rightarrow> Some (SourceEvent.FileClosed \<lparr>fr_pid = pid, fr_file_object = file_object, fr_file_key = file_key, fr_file_name = file_name\<rparr>)
        | EventType.FileCleanedUp \<Rightarrow> Some (SourceEvent.FileCleanedUp \<lparr>fr_pid = pid, fr_file_object = file_object, fr_file_key = file_key, fr_file_name = file_name\<rparr>)
        | EventType.FileDeleted \<Rightarrow> Some (SourceEvent.FileDeleted \<lparr>fd_pid = pid, fd_file_object = file_object, fd_file_key = file_key, fd_file_name = file_name\<rparr>)
        | EventType.FileRenamed \<Rightarrow> Some (SourceEvent.FileRenamed \<lparr>fn_pid = pid, fn_file_object = file_object, fn_file_name = file_name,
              fn_new_name = opt_string parser [''NewPath'', ''NewFileName''], fn_file_key = file_key\<rparr>)
        | EventType.FileFsctl \<Rightarrow> Some (SourceEvent.FileFsctl \<lparr>ff_pid = pid, ff_file_object = file_object, ff_file_name = file_name, ff_file_key = file_key\<rparr>)
        | _ \<Rightarrow> None))"

text \<open>\<open>u16::try_from(port).unwrap_or(0)\<close>: a port above 16 bits becomes 0.\<close>

definition port_of :: "u32 option \<Rightarrow> u16" where
  "port_of port = (case port of None \<Rightarrow> 0 | Some p \<Rightarrow> if unat p < 2 ^ 16 then ucast p else 0)"

definition parse_tcp_ip :: "Parser \<Rightarrow> EventType \<Rightarrow> SourceEvent option" where
  "parse_tcp_ip parser event =
     (case (opt_string parser [''saddr'', ''SourceAddress'', ''SrcAddr''], opt_string parser [''daddr'', ''DestinationAddress'', ''DestAddr'']) of
        (Some source_addr, Some dest_addr) \<Rightarrow>
          (let connection = \<lparr>tcp_pid = pa_u32 parser ''PID'', tcp_source_addr = source_addr,
                 tcp_source_port = port_of (opt_u32 parser [''sport'', ''SourcePort'']), tcp_dest_addr = dest_addr,
                 tcp_dest_port = port_of (opt_u32 parser [''dport'', ''DestPort''])\<rparr> in
           case event of
             EventType.NetTcpConnected \<Rightarrow> Some (SourceEvent.NetTcpConnected connection)
           | EventType.NetTcpAccepted \<Rightarrow> Some (SourceEvent.NetTcpAccepted connection)
           | EventType.NetTcpDisconnected \<Rightarrow> Some (SourceEvent.NetTcpDisconnected connection)
           | _ \<Rightarrow> None)
      | _ \<Rightarrow> None)"

definition parse_with :: "EventRecord \<Rightarrow> Parser \<Rightarrow> EtwProvider \<Rightarrow> EventType \<Rightarrow> SourceEvent option" where
  "parse_with r parser provider event =
     (let image = opt_string parser [''ImageFileName'', ''ImageName''];
          file_name = unwrap_or [] (map_option image_name (opt_string parser [''FileName''])) in
      case provider of
        Process \<Rightarrow> (case event of
            EventType.ProcessStarted \<Rightarrow> Some (SourceEvent.ProcessStarted \<lparr>ps_pid = er_process_id r,
                ps_parent_pid = opt_u32 parser [''ParentId'', ''ParentProcessID''], ps_name = unwrap_or [] image,
                ps_image_path = opt_string parser [''ImagePath''], ps_command_line = opt_string parser [''CommandLine''],
                ps_os_session_id = opt_u32 parser [''SessionId'', ''SessionID'']\<rparr>)
          | EventType.ProcessStopped \<Rightarrow> Some (SourceEvent.ProcessStopped \<lparr>pst_pid = er_process_id r, pst_name = unwrap_or [] image\<rparr>)
          | _ \<Rightarrow> None)
      | Thread \<Rightarrow> (case event of
            EventType.ThreadStarted \<Rightarrow> Some (SourceEvent.ThreadStarted
                \<lparr>ts_pid = unwrap_or (er_process_id r) (opt_u32 parser [''ProcessId'', ''TProcessId'']), ts_tid = er_thread_id r, ts_parent_tid = None\<rparr>)
          | EventType.ThreadStopped \<Rightarrow> Some (SourceEvent.ThreadStopped
                \<lparr>tst_pid = unwrap_or (er_process_id r) (opt_u32 parser [''ProcessId'']), tst_tid = er_thread_id r\<rparr>)
          | _ \<Rightarrow> None)
      | Image \<Rightarrow> (case event of
            EventType.ImageLoaded \<Rightarrow> Some (SourceEvent.ImageLoaded \<lparr>il_pid = er_process_id r, il_name = file_name,
                il_image_path = opt_string parser [''FileName''], il_image_size = opt_u64 parser [''ImageSize''],
                il_image_checksum = opt_u32 parser [''ImageCheckSum'', ''ImageChecksum'']\<rparr>)
          | EventType.ImageUnloaded \<Rightarrow> Some (SourceEvent.ImageUnloaded \<lparr>iu_pid = er_process_id r, iu_name = file_name\<rparr>)
          | _ \<Rightarrow> None)
      | Registry \<Rightarrow> parse_registry parser event
      | FileIo \<Rightarrow> parse_file_io parser event
      | TcpIp \<Rightarrow> parse_tcp_ip parser event)"

definition parse_event :: "(rstr \<Rightarrow> rstr) \<Rightarrow> EventRecord \<Rightarrow> SourceEvent option" where
  "parse_event lc r =
     (case from_guid lc (er_provider_id r) of None \<Rightarrow> None
      | Some provider \<Rightarrow> (case event_type provider (er_opcode r) of None \<Rightarrow> None
          | Some event \<Rightarrow> (case er_schema r of None \<Rightarrow> None | Some parser \<Rightarrow> parse_with r parser provider event)))"

text \<open>The trace callback: what it hands over, given the outcome of the bounded channel, and the loss counter.\<close>

definition etw_callback :: "(rstr \<Rightarrow> rstr) \<Rightarrow> TrySend \<Rightarrow> EventRecord \<Rightarrow> u64 \<Rightarrow> SandboxEvent option \<times> u64" where
  "etw_callback lc outcome r loss =
     (case parse_event lc r of None \<Rightarrow> (None, loss)
      | Some ev \<Rightarrow> if outcome = SendOk then (Some (SandboxEvent.Source ev), loss) else (None, loss + 1))"

subsection \<open>Correctness of the mapping\<close>

text \<open>What a family cannot do without.\<close>

definition has_fields :: "EtwProvider \<Rightarrow> Parser \<Rightarrow> bool" where
  "has_fields provider parser \<longleftrightarrow> (case provider of
      Registry \<Rightarrow> opt_u32 parser [''PID'', ''ProcessId''] \<noteq> None \<and> opt_string parser [''KeyName''] \<noteq> None
    | FileIo \<Rightarrow> opt_u32 parser [''PID'', ''ProcessId''] \<noteq> None
    | TcpIp \<Rightarrow> opt_string parser [''saddr'', ''SourceAddress'', ''SrcAddr''] \<noteq> None
        \<and> opt_string parser [''daddr'', ''DestinationAddress'', ''DestAddr''] \<noteq> None
    | _ \<Rightarrow> True)"

lemma parse_registry_type:
  "event_type Registry opcode = Some t \<Longrightarrow>
   (case parse_registry parser t of None \<Rightarrow> \<not> has_fields Registry parser | Some ev \<Rightarrow> has_fields Registry parser \<and> source_event_type ev = t)"
  by (auto simp: event_type_def parse_registry_def has_fields_def registry_key_data_def Let_def split: if_splits option.splits)

lemma parse_file_io_type:
  "event_type FileIo opcode = Some t \<Longrightarrow>
   (case parse_file_io parser t of None \<Rightarrow> \<not> has_fields FileIo parser | Some ev \<Rightarrow> has_fields FileIo parser \<and> source_event_type ev = t)"
  by (auto simp: event_type_def parse_file_io_def has_fields_def Let_def split: if_splits option.splits)

lemma parse_tcp_ip_type:
  "event_type TcpIp opcode = Some t \<Longrightarrow>
   (case parse_tcp_ip parser t of None \<Rightarrow> \<not> has_fields TcpIp parser | Some ev \<Rightarrow> has_fields TcpIp parser \<and> source_event_type ev = t)"
  by (auto simp: event_type_def parse_tcp_ip_def has_fields_def Let_def split: if_splits option.splits)

lemma parse_with_type:
  assumes "event_type provider opcode = Some t"
  shows "case parse_with r parser provider t of None \<Rightarrow> \<not> has_fields provider parser
         | Some ev \<Rightarrow> has_fields provider parser \<and> source_event_type ev = t"
proof (cases provider)
  case Registry
  from parse_registry_type [OF assms [unfolded Registry], of parser] show ?thesis
    by (simp add: Registry parse_with_def Let_def cong: option.case_cong)
next
  case FileIo
  from parse_file_io_type [OF assms [unfolded FileIo], of parser] show ?thesis
    by (simp add: FileIo parse_with_def Let_def cong: option.case_cong)
next
  case TcpIp
  from parse_tcp_ip_type [OF assms [unfolded TcpIp], of parser] show ?thesis
    by (simp add: TcpIp parse_with_def Let_def cong: option.case_cong)
qed (use assms in \<open>auto simp: parse_with_def event_type_def has_fields_def Let_def split: if_splits\<close>)

text \<open>
  C26. No trace record is mislabelled or invented. A record yields an event exactly when its provider is
  one of the six, the table knows its opcode, it has a schema, and the fields its family cannot do
  without are there (a process id for files, also a key name for the registry, both addresses for
  connections); and the event's canonical type is then the one the table gives for provider and opcode.
\<close>

theorem etw_events_follow_table:
  "case parse_event lc r of
     Some ev \<Rightarrow> (\<exists>provider parser. from_guid lc (er_provider_id r) = Some provider
        \<and> event_type provider (er_opcode r) = Some (source_event_type ev) \<and> er_schema r = Some parser \<and> has_fields provider parser)
   | None \<Rightarrow> (\<nexists>provider t parser. from_guid lc (er_provider_id r) = Some provider
        \<and> event_type provider (er_opcode r) = Some t \<and> er_schema r = Some parser \<and> has_fields provider parser)"
proof (cases "from_guid lc (er_provider_id r)")
  case (Some provider)
  show ?thesis
  proof (cases "event_type provider (er_opcode r)")
    case t: (Some t)
    show ?thesis
    proof (cases "er_schema r")
      case (Some parser)
      then show ?thesis
        using \<open>from_guid _ _ = _\<close> t parse_with_type [OF t, where r = r and parser = parser] by (auto simp: parse_event_def split: option.splits)
    qed (use Some t in \<open>simp add: parse_event_def\<close>)
  qed (use Some in \<open>simp add: parse_event_def\<close>)
qed (simp add: parse_event_def)

text \<open>Braces and case do not matter.\<close>

lemma from_guid_tolerant:
  assumes "lc g = guid p" "hd g \<notin> {brace_open, 32}" "last g \<notin> {brace_close, 32}" "g \<noteq> []" "list_all (\<lambda>c. \<not> is_whitespace c) g"
  shows "from_guid lc g = Some p" "from_guid lc (brace_open # g @ [brace_close]) = Some p"
proof -
  have trim: "trim xs = xs" if "list_all (\<lambda>c. \<not> is_whitespace c) xs" for xs
  proof -
    have "dropWhile is_whitespace ys = ys" if "list_all (\<lambda>c. \<not> is_whitespace c) ys" for ys
      using that by (cases ys) auto
    then show ?thesis using that by (simp add: trim_def list_all_rev)
  qed
  have open_: "dropWhile (\<lambda>c. c = brace_open) (g @ xs) = g @ xs" for xs using assms(2,4) by (cases g) auto
  have close_: "dropWhile (\<lambda>c. c = brace_close) (rev g) = rev g" using assms(3,4) by (cases g rule: rev_cases) auto
  have "find (\<lambda>provider. guid provider = guid p) ALL_providers = Some p"
    by (cases p) (simp_all add: ALL_providers_def)
  then show "from_guid lc g = Some p"
    using trim [OF assms(5)] open_ [of "[]"] close_ assms(1) by (simp add: from_guid_def)
  have "trim (brace_open # g @ [brace_close]) = brace_open # g @ [brace_close]"
    using assms(5) by (intro trim) (simp add: is_whitespace_def)
  then show "from_guid lc (brace_open # g @ [brace_close]) = Some p"
    using open_ [of "[brace_close]"] close_ \<open>find _ _ = _\<close> assms(1) by (simp add: from_guid_def)
qed

end
