(* ===== verification/Effect_Log.thy ===== *)
theory Effect_Log
  imports Agent
begin

text \<open>
  What the running agent may do to the outside. The locale \<open>effect_contract\<close> has a set of permitted effects
  that contains what every plugin, worker and task does in the course of its work: bus events, files,
  uploads, launches, saved scopes, reports on the event channel and heartbeats on the control channel.
  Setting the clock, killing processes and asking for a reboot or shutdown are the session manager's
  alone; when what its configuration enables of them is permitted too, every effect of every run is.
\<close>

definition control_types :: "EventType set" where
  "control_types = {EventType.ControlKeepalive, EventType.StudyRebootRequested, EventType.StudyShutdownRequested}"

locale effect_contract =
  fixes good :: "Effect \<Rightarrow> bool"
  assumes good_event: "env_event_type env \<notin> control_types \<Longrightarrow> good (Publish Event env)"
    and good_keepalive: "env_event_type env = EventType.ControlKeepalive \<Longrightarrow> good (Publish Control env)"
    and good_bus: "good (BusPublish ev)" and good_save: "good (SaveScope st)" and good_sleep: "good (SleepSecs n)"
    and good_done: "good FinalizeDone" and good_files: "good (CreateDirAll p)" "good (CreateNew p)" "good (WriteFile p bs)"
      "good (RemoveFile p)" "good (RenameFile p p')" and good_upload: "good (Upload x1 x2 x3 x4 x5 x6)" and good_launch: "good (Launch l)"
begin

definition logs :: "World \<Rightarrow> bool" where
  "logs w \<longleftrightarrow> list_all good (w_log w)"

lemma goods [simp]:
  "good (BusPublish ev)" "good (SaveScope st)" "good (SleepSecs n)" "good FinalizeDone" "good (CreateDirAll p)" "good (CreateNew p)"
  "good (WriteFile p bs)" "good (RemoveFile p)" "good (RenameFile p p')" "good (Upload x1 x2 x3 x4 x5 x6)" "good (Launch l)"
  by (rule good_bus good_save good_sleep good_done good_files good_upload good_launch)+

lemma logs_simps [simp]:
  "logs (perform e w) \<longleftrightarrow> logs w \<and> good e" "logs (send ch mk w) \<longleftrightarrow> logs w \<and> good (Publish ch (mk (w_seq w)))"
  "logs (w\<lparr>w_scope := st\<rparr>) \<longleftrightarrow> logs w" "logs (w\<lparr>w_reads := n\<rparr>) \<longleftrightarrow> logs w" "logs (w\<lparr>w_calls := n\<rparr>) \<longleftrightarrow> logs w"
  by (auto simp: logs_def effect_simps)

lemma good_raw [simp]: "t \<notin> control_types \<Longrightarrow> good (Publish Event (envelope_raw now q s i t d))"
  by (rule good_event) simp

lemma good_raws [simp]:
  "good (Publish Control (envelope_raw now q s i EventType.ControlKeepalive d))"
  by (rule good_keepalive) simp

text \<open>What the configuration of the session manager enables must be permitted.\<close>

definition permits :: "SessionManagerDeps \<Rightarrow> bool" where
  "permits deps \<longleftrightarrow> (smd_skip_time_manipulation deps \<or> (\<forall>t. good (SetUnixMs t)))
     \<and> (smd_processes_to_terminate deps = [] \<or> (\<forall>ns. good (KillByImageNames ns)))
     \<and> (smd_skip_reboot_and_shutdown deps
         \<or> (\<forall>env. env_event_type env \<in> {EventType.StudyRebootRequested, EventType.StudyShutdownRequested} \<longrightarrow> good (Publish Control env)))"

lemma logs_finalize: "permits deps \<Longrightarrow> logs w \<Longrightarrow> logs (snd (finalize_session lc deps reason p w))"
  by (auto simp: permits_def finalize_session_def finalize_tail_def publish_finalize_reports_def shift_clock_at_finalize_def
      kill_helpers_def save_scope_def request_reboot_or_shutdown_def now_ms_def ask_def control_types_def Let_def split: option.splits)

lemma logs_session:
  assumes "permits deps" "logs w"
  shows "logs (snd (smp_pre lc deps ev p w))" "logs (snd (smp_consume lc deps bev p w))" "logs (snd (smp_start deps p w))"
    "logs (open_session_if_needed deps w)"
proof -
  note fin = logs_finalize [OF assms]
  show "logs (snd (smp_pre lc deps ev p w))" using assms(2) by (cases ev) (simp_all add: smp_pre_def fin)
  show "logs (snd (smp_consume lc deps bev p w))"
    using fin [of lc DeadScope p] assms(2) by (auto simp: smp_consume_def split: AgentBusEvent.splits prod.splits)
  show "logs (snd (smp_start deps p w))"
    using assms by (auto simp: smp_start_def apply_study_start_timestamp_def permits_def now_ms_def ask_def control_types_def Let_def
        split: option.splits)
  show "logs (open_session_if_needed deps w)" using assms(2) by (simp add: open_session_if_needed_def now_ms_def Let_def)
qed

lemma logs_tracker: "logs w \<Longrightarrow> logs (snd (stp_pre lc input p w))"
proof -
  note defs = on_process_started_def on_process_stopped_def on_file_written_def on_behavior_call_def
    on_file_released_def now_ms_def Let_def
  have "logs (snd (q, w)) \<longrightarrow> logs (snd (handle_source lc source q w))" for source q
    by (rule handle_source_rule [where R = "\<lambda>s s'. logs (snd s) \<longrightarrow> logs (snd s')"])
       (auto simp: defs split: prod.splits option.splits)
  then show "logs w \<Longrightarrow> logs (snd (stp_pre lc input p w))" by (auto simp: stp_pre_def Let_def split: option.splits)
qed

lemma good_source: "good (Publish Event (envelope_from_source now q s i source))"
  "good (Publish Event ((envelope_from_source now q s i source)\<lparr>env_ts := t\<rparr>))"
proof -
  have "source_event_type source \<notin> control_types" by (cases source) (simp_all add: control_types_def)
  then have "env_event_type (envelope_from_source now q s i source) \<notin> control_types" by (simp add: envelope_from_source_def envelope_raw_def)
  then show "good (Publish Event (envelope_from_source now q s i source))"
    "good (Publish Event ((envelope_from_source now q s i source)\<lparr>env_ts := t\<rparr>))" by (auto intro: good_event)
qed

lemma logs_reports:
  assumes "logs w"
  shows "logs (reporter_pre verbosity ev w)" "logs (publish_bus_event bev w)"
    "logs (snd (snd (sip_pre en sconfig outcome ev si w)))" "logs (launch_flow resolve config loutcome w)"
    "logs (keepalive_tick w)" "logs (publish_user_actor_started s version pid w)" "logs (publish_user_actor_stopped s why w)"
    "logs (process_frame sconfig fio job w)"
  using assms
  by (auto simp: reporter_pre_def publish_bus_event_def sip_pre_def launch_flow_def keepalive_tick_def publish_user_actor_started_def
        publish_user_actor_stopped_def process_frame_def stage_frame_def now_ms_def good_source control_types_def Let_def
      split: SandboxEvent.splits AgentBusEvent.splits option.splits prod.splits sum.splits)

lemma logs_collect_drop:
  assumes "logs w"
  shows "logs (snd (collect_drop sha256 config io source inner w))"
proof -
  obtain study session where i: "identity (w_scope w) = (study, session)" by fastforce
  obtain r inner' w' where p: "persist_copy sha256 config io source session inner w = (r, inner', w')"
    by (cases "persist_copy sha256 config io source session inner w") auto
  have "logs w'"
    using p assms by (auto simp: persist_copy_def copy_capped_def Let_def simp del: utf_Cons split: if_splits option.splits prod.splits)
  with assms show ?thesis
    by (auto simp: collect_drop_def i p report_and_upload_def now_ms_def control_types_def Let_def split: option.splits)
qed

lemma logs_bus_list: "logs (fold (\<lambda>e. perform (BusPublish e)) out w) = logs w"
  by (induction out arbitrary: w) simp_all

lemma logs_middleware:
  assumes "permits (session_manager_deps b)" "m \<in> set (middleware b)" "logs (ag_world a)"
  shows "logs (ag_world (snd (snd (mw_pre m ev a))))" "logs (ag_world (snd (mw_post m ev a)))"
proof -
  have "logs (ag_world (snd (session_manager_pre b ev a)))"
    using logs_session(1) [OF assms(1,3), of "ab_lc b" ev "ag_session a"] by (auto simp: session_manager_pre_def split: prod.splits)
  moreover have "logs (ag_world (snd (tracker_pre b ev a)))"
    using logs_tracker [OF assms(3), of "ab_lc b" "(ag_received a (ag_drains a), ev)" "ag_tracker a"] by (auto simp: tracker_pre_def split: prod.splits)
  moreover have "logs (ag_world (snd (screenshot_pre b ev a)))"
    using logs_reports(3) [OF assms(3), of "ua_screencapture (ac_user_actor (ab_config b))" "ac_screenshots (ab_config b)"
        "ag_try_send a (ag_sends a)" ev "ag_intake a"] by (auto simp: screenshot_pre_def split: prod.splits)
  ultimately show "logs (ag_world (snd (snd (mw_pre m ev a))))" "logs (ag_world (snd (mw_post m ev a)))"
    using assms(2,3) by (auto simp: middleware_def event_reporter_pre_def logs_reports target_launcher_pre_def supervisor_pre_def
        statistics_plugin_pre_def simp del: utf_Cons)
qed

end

text \<open>The contract gives an invariant of the pipeline of every agent whose configuration is permitted.\<close>

sublocale effect_contract \<subseteq> contracted: pipeline_invariant "middleware b" "\<lambda>a. permits (session_manager_deps b) \<longrightarrow> logs (ag_world a)" for b
  by unfold_locales (metis logs_middleware snd_conv)+

context effect_contract
begin

lemma logs_accept:
  "permits (session_manager_deps b) \<Longrightarrow> logs (ag_world a) \<Longrightarrow> logs (ag_world (accept (middleware b) ev a))"
  using contracted.accept_keeps [of b a ev] by blast

lemma logs_step:
  assumes "permits (session_manager_deps b)" "agent_step b a a'" "logs (ag_world a)"
  shows "logs (ag_world a')"
  using assms(2,3)
proof (induction rule: agent_step.induct)
  case (session_bus ev a)
  then show ?case using logs_session(2) [OF assms(1), of "ag_world a" "ab_lc b" ev "ag_session a"] by (auto simp: session_consumes_def split: prod.splits)
next
  case (collector_job source a io)
  then show ?case using logs_collect_drop [of "ag_world a" "ab_sha256 b" "ac_drops (ab_config b)" io source "ag_collector a"]
    by (auto simp: collector_works_def split: prod.splits)
qed (simp_all add: logs_accept [OF assms(1)] logs_reports logs_bus_list reporter_consumes_def statistics_consumes_def scoring_consumes_def
      collector_consumes_def intake_works_def launcher_works_def supervisor_works_def launch_job_def split: AgentBusEvent.splits prod.splits option.splits)

lemma logs_run:
  "(agent_step b)\<^sup>*\<^sup>* a a' \<Longrightarrow> permits (session_manager_deps b) \<Longrightarrow> logs (ag_world a) \<Longrightarrow> logs (ag_world a')"
  by (induction rule: rtranclp_induct) (simp_all add: logs_step)

text \<open>Every effect of a run from its boot on is permitted.\<close>

lemma run_contracted:
  assumes "permits (session_manager_deps b)" "w_log w = []" "boot (plugins b) (assemble b received try_send w) = (result, a)"
    and "(agent_step b)\<^sup>*\<^sup>* a a'"
  shows "list_all good (w_log (ag_world a'))"
proof -
  let ?w = "open_session_if_needed (session_manager_deps b) w"
  obtain p w' where start: "smp_start (session_manager_deps b) SessionManagerPlugin_new ?w = (p, w')" by fastforce
  have "logs w" using assms(2) by (simp add: logs_def)
  then have "logs w'" using logs_session(3) [OF assms(1) logs_session(4) [OF assms(1)], of w SessionManagerPlugin_new] start by simp
  then have "logs (ag_world a)" using agent_boots [OF start, of received try_send] assms(3) by auto
  from logs_run [OF assms(4,1) this] show ?thesis by (simp add: logs_def)
qed

end

subsection \<open>Channels\<close>

text \<open>Each envelope goes on the channel its type belongs on.\<close>

definition on_its_channel :: "Effect \<Rightarrow> bool" where
  "on_its_channel e = (case e of Publish ch env \<Rightarrow> ch = Control \<longleftrightarrow> env_event_type env \<in> control_types | _ \<Rightarrow> True)"

interpretation channel_contract: effect_contract on_its_channel
  by unfold_locales (simp_all add: on_its_channel_def control_types_def)

lemma channel_permits: "channel_contract.permits deps"
  by (auto simp: channel_contract.permits_def on_its_channel_def control_types_def)

lemma run_publishes_well_typed:
  assumes "sessions_wf (sst_sessions (w_scope w))" "w_log w = []"
    and "boot (plugins b) (assemble b received try_send w) = (result, a)" "(agent_step b)\<^sup>*\<^sup>* a a'"
    and "Publish ch env \<in> set (w_log (ag_world a'))"
  shows "well_typed env"
proof -
  have "gapless (open_session_if_needed (session_manager_deps b) w) (ag_world a')"
    using agent_run_inv [OF assms(4) agent_boot_inv(2) [OF assms(1,3)]] by (simp add: agent_inv_def)
  then have "list_all well_typed (published (w_log (ag_world a')))" using assms(2) by (auto simp: gapless_def open_session_log)
  moreover have "env \<in> set (published (w_log (ag_world a')))" using assms(5) by (force simp: published_def map_filter_def)
  ultimately show ?thesis by (simp add: list_all_iff)
qed

text \<open>
  C3. Channels are typed. In every run of the agent, whatever its configuration and however its plugins,
  workers, tasks and pipe clients interleave, an envelope is published on the control channel exactly
  when it is a heartbeat, a reboot request or a shutdown request, and every envelope on either channel
  carries the payload its type names.
\<close>

theorem channels_typed:
  assumes "sessions_wf (sst_sessions (w_scope w))" "w_log w = []"
    and "boot (plugins b) (assemble b received try_send w) = (result, a)" "(agent_step b)\<^sup>*\<^sup>* a a'"
    and "Publish ch env \<in> set (w_log (ag_world a'))"
  shows "(ch = Control \<longleftrightarrow> env_event_type env \<in> control_types) \<and> payload_event_type (env_data env) = env_event_type env"
proof
  show "ch = Control \<longleftrightarrow> env_event_type env \<in> control_types"
    using channel_contract.run_contracted [OF channel_permits assms(2,3,4)] assms(5) by (auto simp: list_all_iff on_its_channel_def)
  show "payload_event_type (env_data env) = env_event_type env" using run_publishes_well_typed [OF assms] by (simp add: well_typed_def)
qed

text \<open>An agent booted with an open session that has sent one heartbeat.\<close>

definition beating :: Agent where
  "beating = (let a = snd (boot (plugins build0) (assemble build0 (\<lambda>_. []) (\<lambda>_. SendOk) world0)) in a\<lparr>ag_world := keepalive_tick (ag_world a)\<rparr>)"

lemma beating_reached:
  "sessions_wf (sst_sessions (w_scope world0))" "w_log world0 = []"
  "boot (plugins build0) (assemble build0 (\<lambda>_. []) (\<lambda>_. SendOk) world0)
    = (fst (boot (plugins build0) (assemble build0 (\<lambda>_. []) (\<lambda>_. SendOk) world0)), snd (boot (plugins build0) (assemble build0 (\<lambda>_. []) (\<lambda>_. SendOk) world0)))"
  "(agent_step build0)\<^sup>*\<^sup>* (snd (boot (plugins build0) (assemble build0 (\<lambda>_. []) (\<lambda>_. SendOk) world0))) beating"
proof -
  show "(agent_step build0)\<^sup>*\<^sup>* (snd (boot (plugins build0) (assemble build0 (\<lambda>_. []) (\<lambda>_. SendOk) world0))) beating"
    unfolding beating_def Let_def by (rule r_into_rtranclp) (rule agent_step.heartbeat)
qed (simp_all add: world0_def opened_def sessions_wf_def session_wf_def new_session_def u32_try_from_def)

lemma beating_publishes: "\<exists>env. Publish Control env \<in> set (w_log (ag_world beating))"
proof -
  have "\<exists>env. Publish Control env \<in> set (w_log (keepalive_tick v))" for v
    by (cases "identity (w_scope v)") (auto simp: keepalive_tick_def now_ms_def effect_simps)
  then show ?thesis by (simp add: beating_def Let_def)
qed

theorem channels_typed_witness:
  "\<exists>env. Publish Control env \<in> set (w_log (keepalive_tick (ag_world (snd (boot (plugins build0) (assemble build0 (\<lambda>_. []) (\<lambda>_. SendOk) world0))))))
     \<and> env_event_type env \<in> control_types"
proof -
  obtain env where env: "Publish Control env \<in> set (w_log (ag_world beating))" using beating_publishes by blast
  from channels_typed [OF beating_reached env] env show ?thesis by (auto simp: beating_def Let_def)
qed

end
