(* ===== verification/Agent_Host.thy ===== *)
theory Agent_Host
  imports Effect_Log Driver_Control
begin

text \<open>
  The host of the agent (\<^verbatim>\<open>crates/agent/src/bin/secoutfall-agent.rs\<close>, \<^verbatim>\<open>config_toml.rs\<close>, \<^verbatim>\<open>service_control.rs\<close>): the
  command line and the mode it selects, the configurations of the modes that run outside the analysis
  machine, the arguments the service is installed with, the control handler, the choice of the event
  source, and the push of the driver policies. Reading and parsing a file, the materialized sensor and
  the security descriptor are inputs.
\<close>

subsection \<open>Command line\<close>

record Args =
  ar_mode :: "rstr option"
  ar_config_path :: rstr
  ar_demo :: bool
  ar_start :: bool
  ar_target :: "rstr option"

definition Args_default :: Args where
  "Args_default = \<lparr>ar_mode = None, ar_config_path = win ''C:/Agent.toml'', ar_demo = False, ar_start = False, ar_target = None\<rparr>"

fun parse_args :: "rstr list \<Rightarrow> Args \<Rightarrow> Args" where
  "parse_args [] parsed = parsed"
| "parse_args (arg # args) parsed =
     (if arg = utf ''--config'' then
        (case args of [] \<Rightarrow> parsed | path # rest \<Rightarrow> parse_args rest (parsed\<lparr>ar_config_path := path\<rparr>))
      else if arg = utf ''--demo'' then parse_args args (parsed\<lparr>ar_demo := True\<rparr>)
      else if arg = utf ''--start'' then parse_args args (parsed\<lparr>ar_start := True\<rparr>)
      else if arg = utf ''--target'' then
        (case args of [] \<Rightarrow> parsed | target # rest \<Rightarrow> parse_args rest (parsed\<lparr>ar_target := Some target\<rparr>))
      else parse_args args (if ar_mode parsed = None then parsed\<lparr>ar_mode := Some arg\<rparr> else parsed))"

definition parse_from :: "rstr list \<Rightarrow> Args" where
  "parse_from args = parse_args args Args_default"

datatype HostMode = Simulate | Service | Install | Uninstall | Local | EtwProbe | Console

definition host_mode :: "Args \<Rightarrow> HostMode" where
  "host_mode args =
     (if ar_mode args = Some (utf ''simulate'') then Simulate
      else if ar_mode args = Some (utf ''service'') then Service
      else if ar_mode args = Some (utf ''install'') then Install
      else if ar_mode args = Some (utf ''uninstall'') then Uninstall
      else if ar_mode args = Some (utf ''local'') then Local
      else if ar_mode args = Some (utf ''etw-probe'') then EtwProbe
      else Console)"

definition service_launch_arguments :: "rstr \<Rightarrow> rstr list" where
  "service_launch_arguments config_path = [utf ''service'', utf ''--config'', config_path]"

text \<open>What the service is installed with starts it in service mode with the configuration it was installed for.\<close>

lemma service_arguments_roundtrip:
  "host_mode (parse_from (service_launch_arguments path)) = Service"
  "ar_config_path (parse_from (service_launch_arguments path)) = path"
  by (simp_all add: parse_from_def service_launch_arguments_def host_mode_def Args_default_def)

datatype ServiceControl = Stop | Shutdown | Interrogate | OtherControl

datatype ServiceControlHandlerResult = NoError | NotImplemented

definition control_handler :: "ServiceControl \<Rightarrow> ServiceControlHandlerResult \<times> SandboxEvent list" where
  "control_handler control =
     (if control = Stop \<or> control = Shutdown then (NoError, [ServiceStop])
      else if control = Interrogate then (NoError, [])
      else (NotImplemented, []))"

subsection \<open>Configurations\<close>

datatype ConfigLoadError = Read | Schema ConfigError

text \<open>\<open>source\<close> is the content of the file, if it can be read, and \<open>from_toml_str\<close> the parser.\<close>

definition config_load :: "('s \<Rightarrow> ConfigError + AgentConfig) \<Rightarrow> 's option \<Rightarrow> ConfigLoadError + AgentConfig" where
  "config_load from_toml_str source =
     (case source of None \<Rightarrow> Inl Read
      | Some text \<Rightarrow>
          (case from_toml_str text of Inl e \<Rightarrow> Inl (Schema e)
           | Inr config \<Rightarrow> (case validate config of Inl e \<Rightarrow> Inl (Schema e) | Inr _ \<Rightarrow> Inr config)))"

definition standalone_config :: "AgentConfig \<Rightarrow> rstr option \<Rightarrow> AgentConfig" where
  "standalone_config config target =
     (let config = (case target of None \<Rightarrow> config
            | Some target \<Rightarrow> config\<lparr>ac_target := (ac_target config)\<lparr>tg_path := target\<rparr>\<rparr>) in
      config\<lparr>ac_debug := (ac_debug config)\<lparr>db_skip_time_manipulation := True, db_skip_reboot_and_shutdown := True\<rparr>,
             ac_study := (ac_study config)\<lparr>sy_processes_to_terminate := []\<rparr>\<rparr>)"

text \<open>\<open>temp_dir\<close> joins a name to the directory for temporary files.\<close>

definition demo_settings :: "(rstr \<Rightarrow> rstr) \<Rightarrow> AgentConfig" where
  "demo_settings temp_dir =
     AgentConfig_default\<lparr>ac_target := TargetConfig_default\<lparr>tg_path := win ''C:/Targets/evil.exe''\<rparr>,
       ac_study := StudyConfig_default\<lparr>sy_uptimes := [6000]\<rparr>,
       ac_drops := DropsConfig_default\<lparr>drp_extensions := [utf ''.txt'', utf ''.exe''],
         drp_path := temp_dir (utf ''secoutfall-demo-drops''), drp_upload_uri := None\<rparr>,
       ac_screenshots := ScreenshotsConfig_default\<lparr>scs_path := temp_dir (utf ''secoutfall-demo-shots'')\<rparr>\<rparr>"

definition demo_config :: "(rstr \<Rightarrow> rstr) \<Rightarrow> ConfigError + AgentConfig" where
  "demo_config temp_dir = bind_r (validate (demo_settings temp_dir)) (\<lambda>_. Inr (demo_settings temp_dir))"

text \<open>The configuration of the \<open>local\<close> mode: the file when there is one, built-in settings otherwise.\<close>

definition local_config :: "('s \<Rightarrow> ConfigError + AgentConfig) \<Rightarrow> (rstr \<Rightarrow> rstr) \<Rightarrow> bool \<Rightarrow> 's option \<Rightarrow> Args
    \<Rightarrow> ConfigLoadError + AgentConfig" where
  "local_config from_toml_str temp_dir has_config source args =
     bind_r (if has_config then config_load from_toml_str source
             else (case demo_config temp_dir of Inl e \<Rightarrow> Inl (Schema e) | Inr config \<Rightarrow> Inr config)) (\<lambda>base.
     let config = standalone_config base (ar_target args) in
     case validate config of Inl e \<Rightarrow> Inl (Schema e) | Inr _ \<Rightarrow> Inr config)"

text \<open>The built-in settings are always valid, and a target given on the command line only has to be non-empty.\<close>

lemma demo_config_valid:
  assumes "\<And>name. temp_dir name \<noteq> []"
  shows "demo_config temp_dir = Inr (demo_settings temp_dir)"
  using assms by (simp add: demo_config_def validate_def problems_def problem_when_def demo_settings_def AgentConfig_default_def
      TargetConfig_default_def StudyConfig_default_def DropsConfig_default_def ScreenshotsConfig_default_def BrokerConfig_default_def
      UserActorSection_default_def PlatformConfig_default_def TelemetryConfig_default_def win_def)

lemma standalone_valid:
  assumes "validate config = Inr ()" "target \<noteq> Some []"
  shows "validate (standalone_config config target) = Inr ()"
proof -
  have "problems config = []" using assms(1) by (simp add: validate_def split: if_splits)
  moreover have "problems (standalone_config config target)
      = (if target = None then problems config else problems (config\<lparr>ac_target := (ac_target config)\<lparr>tg_path := the target\<rparr>\<rparr>))"
    by (simp add: problems_def standalone_config_def Let_def split: option.splits)
  ultimately show ?thesis
    using assms(2) by (auto simp: validate_def problems_def problem_when_def split: if_splits)
qed

subsection \<open>A standalone run is harmless\<close>

text \<open>What a run on a developer's machine must not do.\<close>

definition harmless :: "Effect \<Rightarrow> bool" where
  "harmless e = (case e of SetUnixMs _ \<Rightarrow> False | KillByImageNames _ \<Rightarrow> False
     | Publish ch env \<Rightarrow> ch = Control \<longrightarrow> env_event_type env = EventType.ControlKeepalive | _ \<Rightarrow> True)"

lemma harmless_simps [simp]:
  "harmless (Publish ch env) \<longleftrightarrow> (ch = Control \<longrightarrow> env_event_type env = EventType.ControlKeepalive)"
  "harmless (BusPublish ev)" "\<not> harmless (SetUnixMs t)" "\<not> harmless (KillByImageNames ns)" "harmless (SaveScope st)"
  "harmless (SleepSecs n)" "harmless FinalizeDone" "harmless (CreateDirAll p)" "harmless (CreateNew p)" "harmless (WriteFile p bs)"
  "harmless (RemoveFile p)" "harmless (RenameFile p q)" "harmless (Upload x1 x2 x3 x4 x5 x6)" "harmless (Launch l)"
  by (simp_all add: harmless_def)

definition standalone :: "SessionManagerDeps \<Rightarrow> bool" where
  "standalone deps \<longleftrightarrow> smd_skip_time_manipulation deps \<and> smd_skip_reboot_and_shutdown deps \<and> smd_processes_to_terminate deps = []"

interpretation harmless_contract: effect_contract harmless
  by unfold_locales (simp_all add: control_types_def)

lemma standalone_permits: "standalone deps \<Longrightarrow> harmless_contract.permits deps"
  by (simp add: standalone_def harmless_contract.permits_def)

lemma standalone_config_fields [simp]:
  "db_skip_time_manipulation (ac_debug (standalone_config config target))"
  "db_skip_reboot_and_shutdown (ac_debug (standalone_config config target))"
  "sy_processes_to_terminate (ac_study (standalone_config config target)) = []"
  by (simp_all add: standalone_config_def Let_def)

lemma local_config_standalone:
  assumes "local_config from_toml_str temp_dir has_config source args = Inr (ab_config b)"
  shows "standalone (session_manager_deps b)"
proof -
  obtain base where "standalone_config base (ar_target args) = ab_config b"
    using assms by (auto simp: local_config_def bind_r_def Let_def split: sum.splits if_splits)
  then show ?thesis
    by (simp add: standalone_def session_manager_deps_def Let_def flip: \<open>standalone_config base (ar_target args) = ab_config b\<close>)
qed

text \<open>
  C27. A local run leaves the machine alone. Whatever configuration file is given or left out and
  whatever target is named, an agent built from the configuration of the local mode never sets the
  clock, never asks for processes to be killed, and sends nothing but heartbeats on the control
  channel, so no reboot and no shutdown request: not at boot, and not under any interleaving of
  events, consumers, jobs, heartbeats and pipe clients afterwards, finalization included.
\<close>

theorem standalone_is_harmless:
  assumes "local_config from_toml_str temp_dir has_config source args = Inr (ab_config b)" "w_log w = []"
    and "boot (plugins b) (assemble b received try_send w) = (result, a)" "(agent_step b)\<^sup>*\<^sup>* a a'"
  shows "list_all harmless (w_log (ag_world a'))"
  by (rule harmless_contract.run_contracted [OF standalone_permits [OF local_config_standalone [OF assms(1)]] assms(2,3,4)])

definition local_build :: AgentBuild where
  "local_build = build0\<lparr>ab_config := standalone_config (demo_settings (\<lambda>name. 47 # name)) None\<rparr>"

lemma local_build_config:
  "local_config (\<lambda>_ :: nat. Inl (Validation [])) (\<lambda>name. 47 # name) False None Args_default = Inr (ab_config local_build)"
  using demo_config_valid [of "\<lambda>name. 47 # name"] standalone_valid [of "demo_settings (\<lambda>name. 47 # name)" None]
  by (simp add: local_config_def demo_config_def bind_r_def Args_default_def Let_def local_build_def split: sum.splits)

theorem standalone_is_harmless_witness:
  "list_all harmless (w_log (ag_world (accept (middleware local_build) SessionDeadline
     (snd (boot (plugins local_build) (assemble local_build (\<lambda>_. []) (\<lambda>_. SendOk) world0))))))"
proof -
  let ?a = "assemble local_build (\<lambda>_. []) (\<lambda>_. SendOk) world0"
  obtain result a where boot: "boot (plugins local_build) ?a = (result, a)" by fastforce
  have "(agent_step local_build)\<^sup>*\<^sup>* a (accept (middleware local_build) SessionDeadline a)"
    by (rule r_into_rtranclp) (rule agent_step.accepts)
  from standalone_is_harmless [OF local_build_config _ boot this] boot show ?thesis by (simp add: world0_def)
qed

subsection \<open>Arming the driver\<close>

datatype SourceHandle = SourceDriver | SourceEtw | SourceNone

text \<open>Which source a build attaches (the driver and ETW features), and whether the policies are pushed before.\<close>

definition attach_event_source :: "bool \<Rightarrow> bool \<Rightarrow> AgentConfig \<Rightarrow> bool \<times> SourceHandle" where
  "attach_event_source driver_feature etw_feature config =
     (if driver_feature \<and> dv_enabled (ac_driver config) then (True, SourceDriver)
      else if etw_feature then (False, SourceEtw) else (False, SourceNone))"

definition injection_of :: "(rstr \<Rightarrow> rstr option) \<Rightarrow> DriverConfig \<Rightarrow> InjectionPolicy option" where
  "injection_of materialize driver =
     (if dv_sensor_path driver = [] then None
      else case materialize (dv_sensor_path driver) of
        Some nt_path \<Rightarrow> Some \<lparr>ip_sensor_path = nt_path, ip_exclusions = []\<rparr>
      | None \<Rightarrow> None)"

definition policies_of :: "(rstr \<Rightarrow> rstr option) \<Rightarrow> DriverConfig \<Rightarrow> DriverPolicies" where
  "policies_of materialize driver =
     \<lparr>dpl_injection = injection_of materialize driver,
      dpl_drops = (if dv_drops_dir driver \<noteq> []
        then Some \<lparr>dp_dir = dv_drops_dir driver, dp_extensions = dv_drop_extensions driver\<rparr> else None),
      dpl_protection = Some \<lparr>pp_names = dv_protected_names driver\<rparr>\<rparr>"

text \<open>\<open>descriptor\<close> converts the security text; it may refuse.\<close>

definition apply_device_security :: "(u32 \<Rightarrow> u8 list \<Rightarrow> 'd \<Rightarrow> bool \<times> 'd) \<Rightarrow> (rstr \<Rightarrow> u8 list option) \<Rightarrow> rstr \<Rightarrow> 'd \<Rightarrow> (DriverControlError + unit) \<times> 'd" where
  "apply_device_security ioctl descriptor sddl d =
     (case descriptor sddl of None \<Rightarrow> (Inl Rejected, d)
      | Some sd \<Rightarrow> device_send ioctl SET_DEVICE_SECURITY (encode_device_security True sd) d)"

text \<open>
  The push: every step is taken whatever became of the ones before. \<open>opened\<close> is whether the control device can be opened.
  The results, for the log, and the device.
\<close>

definition push_driver_policies :: "(u32 \<Rightarrow> u8 list \<Rightarrow> 'd \<Rightarrow> bool \<times> 'd) \<Rightarrow> (rstr \<Rightarrow> u8 list option) \<Rightarrow> (rstr \<Rightarrow> rstr option)
    \<Rightarrow> bool \<Rightarrow> rstr option \<Rightarrow> AgentConfig \<Rightarrow> 'd \<Rightarrow> (DriverControlError + unit) list \<times> 'd" where
  "push_driver_policies ioctl descriptor materialize device_opens console_sid config d =
     (if \<not> device_opens then ([Inl DeviceMissing], d)
      else case apply_device_security ioctl descriptor (device_security_sddl console_sid) d of (r1, d) \<Rightarrow>
        case apply_policies ioctl (policies_of materialize (ac_driver config)) d of (r2, d) \<Rightarrow>
        case set_file_watch ioctl True [] d of (r3, d) \<Rightarrow> ([r1, r2, r3], d))"

text \<open>The driver with its device security, whose outcome \<open>secure\<close> is the operating system's.\<close>

definition driver_device :: "(u8 list \<Rightarrow> bool) \<Rightarrow> (nat \<Rightarrow> bool) \<Rightarrow> u32 \<Rightarrow> u8 list \<Rightarrow> Driver \<Rightarrow> bool \<times> Driver" where
  "driver_device secure pool code input d =
     (if code = SET_DEVICE_SECURITY
      then (\<not> (length input < 8 \<or> unat (input ! 0) > 1) \<and> ulong_at input 4 \<noteq> 0 \<and> ulong_at input 4 \<le> 4096
          \<and> length input = 8 + ulong_at input 4 \<and> input ! 0 \<noteq> 0 \<and> secure (drop 8 input), d)
      else driver_ioctl pool code input d)"

lemma driver_device_policies:
  "driver_device secure pool SET_FILE_WATCH = driver_ioctl pool SET_FILE_WATCH"
  "driver_device secure pool SET_DROP_POLICY = driver_ioctl pool SET_DROP_POLICY"
  "driver_device secure pool SET_PROTECTED = driver_ioctl pool SET_PROTECTED"
  "driver_device secure pool SET_INJECTION_POLICY = driver_ioctl pool SET_INJECTION_POLICY"
  by (simp_all add: fun_eq_iff driver_device_def code_values)

lemma device_security_keeps: "snd (apply_device_security (driver_device secure pool) descriptor sddl d) = d"
  by (auto simp: apply_device_security_def device_send_def driver_device_def split: option.splits prod.splits)

text \<open>Watching all files needs no memory and no names: nothing the driver could refuse.\<close>

lemma watch_all_applied:
  "set_file_watch (driver_device secure pool) True [] d = (Inr (), d\<lparr>dv_watch := \<lparr>fw_enabled = True, fw_extensions = []\<rparr>\<rparr>)"
proof -
  have "ulong_at ([1, 0, 0, 0, 0, 0, 0, 0, 0, 0, 0, 0] :: u8 list) 4 = 0" "ulong_at ([1, 0, 0, 0, 0, 0, 0, 0, 0, 0, 0, 0] :: u8 list) 8 = 0"
    by (simp_all add: ulong_at_def from_le_bytes_def)
  moreover have four: "(4 :: nat) = Suc (Suc (Suc (Suc 0)))" by simp
  have le_zeros: "le_bytes 4 0 = [0, 0, 0, 0]" unfolding four by simp
  moreover have "encode_file_watch_policy True [] = [1, 0, 0, 0, 0, 0, 0, 0, 0, 0, 0, 0]"
    by (simp add: encode_file_watch_policy_def wide_list_def u32_from_len_def to_le_bytes_def le_zeros)
  ultimately show ?thesis
    by (simp add: set_file_watch_def device_send_def driver_device_policies) (simp add: driver_ioctl_def ioctl_set_file_watch_def)
qed

lemma push_watches_all:
  "dv_watch (snd (push_driver_policies (driver_device secure pool) descriptor materialize True sid config d))
     = \<lparr>fw_enabled = True, fw_extensions = []\<rparr>"
  by (simp add: push_driver_policies_def watch_all_applied split: prod.splits)

definition armed_injection :: "InjectionPolicy option \<Rightarrow> Driver \<Rightarrow> Driver" where
  "armed_injection injection d =
     (case injection of None \<Rightarrow> d
      | Some p \<Rightarrow> d\<lparr>dv_sensor_dll_path := encode_utf16 (ip_sensor_path p), dv_injection_enabled := True\<rparr>)"

definition armed_drops :: "DropPolicy option \<Rightarrow> Driver \<Rightarrow> Driver" where
  "armed_drops drops d =
     (case drops of None \<Rightarrow> d
      | Some p \<Rightarrow> d\<lparr>dv_target := encode_utf16 (dp_dir p),
           dv_drop_watch := \<lparr>fw_enabled = True, fw_extensions = map encode_utf16 (dp_extensions p)\<rparr>\<rparr>)"

definition fits :: "DriverPolicies \<Rightarrow> bool" where
  "fits p \<longleftrightarrow> pred_option fits_injection (dpl_injection p) \<and> pred_option fits_drops (dpl_drops p)
     \<and> pred_option (\<lambda>q. fits_names (pp_names q)) (dpl_protection p)"

lemma send_injection:
  assumes "\<forall>n. pool n" "fits_injection p"
  shows "device_send (driver_device secure pool) SET_INJECTION_POLICY (encode_injection_policy p) d
    = (Inr (), d\<lparr>dv_sensor_dll_path := encode_utf16 (ip_sensor_path p), dv_injection_enabled := True,
         dv_extra_blocklist := if ip_exclusions p = [] then dv_extra_blocklist d
           else \<lparr>fw_enabled = True, fw_extensions = map encode_utf16 (ip_exclusions p)\<rparr>\<rparr>)"
proof -
  have "length (encode_injection_policy p) < 2 ^ 32"
    using assms(2) by (simp add: encode_injection_policy_def Let_def fits_injection_def driver_caps)
  then show ?thesis
    by (simp add: device_send_def driver_device_policies) (simp add: driver_ioctl_def code_values injection_applied [OF assms])
qed

lemma send_drops:
  assumes "\<forall>n. pool n" "fits_drops p"
  shows "device_send (driver_device secure pool) SET_DROP_POLICY (encode_drop_policy p) d = (Inr (), armed_drops (Some p) d)"
proof -
  have "length (encode_drop_policy p) < 2 ^ 32"
    using assms(2) by (simp add: encode_drop_policy_def Let_def fits_drops_def driver_caps)
  then show ?thesis
    by (simp add: device_send_def driver_device_policies) (simp add: driver_ioctl_def code_values drop_policy_applied [OF assms] armed_drops_def)
qed

lemma send_protection:
  assumes "\<forall>n. pool n" "fits_names (pp_names p)"
  shows "device_send (driver_device secure pool) SET_PROTECTED (encode_protection_policy p) d
    = (Inr (), d\<lparr>dv_names := map encode_utf16 (pp_names p)\<rparr>)"
proof -
  have "length (encode_protection_policy p) < 2 ^ 32"
    using assms(2) by (simp add: encode_protection_policy_def Let_def fits_names_def driver_caps)
  then show ?thesis
    by (simp add: device_send_def driver_device_policies) (simp add: driver_ioctl_def code_values protection_applied [OF assms])
qed

lemma push_applied:
  assumes "\<forall>n. pool n" "fits (policies_of materialize (ac_driver config))"
  shows "snd (push_driver_policies (driver_device secure pool) descriptor materialize True sid config d)
    = (armed_drops (dpl_drops (policies_of materialize (ac_driver config)))
        (armed_injection (injection_of materialize (ac_driver config)) d))
       \<lparr>dv_names := map encode_utf16 (dv_protected_names (ac_driver config)),
        dv_watch := \<lparr>fw_enabled = True, fw_extensions = []\<rparr>\<rparr>"
proof -
  let ?drv = "ac_driver config" and ?io = "driver_device secure pool"
  let ?drops = "\<lparr>dp_dir = dv_drops_dir ?drv, dp_extensions = dv_drop_extensions ?drv\<rparr>" and ?prot = "\<lparr>pp_names = dv_protected_names ?drv\<rparr>"
  have inj: "fits_injection p \<and> ip_sensor_path p \<noteq> [] \<and> ip_exclusions p = []" if "injection_of materialize ?drv = Some p" for p
    using assms(2) that by (auto simp: fits_def policies_of_def fits_injection_def plain_def injection_of_def split: if_splits option.splits)
  have drops: "fits_drops ?drops" if "dv_drops_dir ?drv \<noteq> []"
    using assms(2) that by (simp add: fits_def policies_of_def)
  have names: "fits_names (pp_names ?prot)" using assms(2) by (simp add: fits_def policies_of_def)
  have "apply_policies ?io (policies_of materialize ?drv) d
    = (Inr (), (armed_drops (dpl_drops (policies_of materialize ?drv)) (armed_injection (injection_of materialize ?drv) d))
        \<lparr>dv_names := map encode_utf16 (dv_protected_names ?drv)\<rparr>)" for d
    using inj drops
    by (auto simp: apply_policies_def policies_of_def then_r_def send_injection [OF assms(1)] send_drops [OF assms(1)]
        send_protection [OF assms(1) names] armed_injection_def armed_drops_def split: option.splits)
  then show ?thesis
    using device_security_keeps [of secure pool descriptor "device_security_sddl sid" d]
    by (auto simp: push_driver_policies_def watch_all_applied split: prod.splits)
qed

text \<open>
  C30. What the host arms is what is configured, and what it does not arm stays. When the values of the
  driver section are within the driver's limits and the driver gets the memory it asks for, then after
  the push it watches all files, protects exactly the configured names, captures drops into the
  configured directory when there is one, and injects the materialized sensor when there is one;
  whether setting the device security worked makes no difference. Without a drop directory, or
  without a sensor that could be materialized, the policy the driver had before stays in force, also
  one that is armed: nothing is switched off.
\<close>

theorem host_arms_driver:
  assumes "\<forall>n. pool n" "fits (policies_of materialize (ac_driver config))"
  shows "snd (push_driver_policies (driver_device secure pool) descriptor materialize True sid config d)
    = (armed_drops (dpl_drops (policies_of materialize (ac_driver config)))
        (armed_injection (injection_of materialize (ac_driver config)) d))
       \<lparr>dv_names := map encode_utf16 (dv_protected_names (ac_driver config)),
        dv_watch := \<lparr>fw_enabled = True, fw_extensions = []\<rparr>\<rparr>"
  using assms by (rule push_applied)

text \<open>A driver armed before, and a configuration that names neither sensor nor directory.\<close>

definition driver1 :: Driver where
  "driver1 = driver0\<lparr>dv_injection_enabled := True, dv_sensor_dll_path := [115]\<rparr>"

theorem host_arms_driver_witness:
  "dv_injection_enabled (snd (push_driver_policies (driver_device (\<lambda>_. True) (\<lambda>_. True)) (\<lambda>_. None) (\<lambda>_. None) True None
     AgentConfig_default driver1))"
proof -
  have "\<forall>n. (\<lambda>_. True) n" "fits (policies_of (\<lambda>_. None) (ac_driver AgentConfig_default))"
    by (simp_all add: fits_def policies_of_def injection_of_def AgentConfig_default_def DriverConfig_default_def fits_names_def wide_list_def)
  from host_arms_driver [OF this, of "\<lambda>_. True" "\<lambda>_. None" None driver1] show ?thesis
    by (simp add: policies_of_def injection_of_def AgentConfig_default_def DriverConfig_default_def armed_drops_def armed_injection_def driver1_def)
qed

end
