(* ===== verification/Sensor_Store.thy ===== *)
theory Sensor_Store
  imports Agent_Host Path_Text
begin

text \<open>
  Materializing the sensor (\<^verbatim>\<open>crates/agent/src/adapters/driven/sensor_store.rs\<close>, \<^verbatim>\<open>sensor_store/windows.rs\<close>,
  \<^verbatim>\<open>ports/driven/sensor_store.rs\<close>): a copy of the configured DLL under a random name in a protected directory of
  this boot, checked against the hash of the source before its path is handed to the driver. The
  random bytes, SHA-256 and the answers of the file system are inputs, among them what a copy holds
  when it is read back, which another process may have changed.
\<close>

subsection \<open>Text\<close>

fun random_fill :: "nat \<Rightarrow> rstr \<Rightarrow> u8 list list \<Rightarrow> rstr" where
  "random_fill len out [] = out"
| "random_fill len out (uuid # uuids) =
     (if length out < len then random_fill len (out @ concat (map hex2 uuid)) uuids else out)"

definition random_hex :: "nat \<Rightarrow> u8 list list \<Rightarrow> rstr" where
  "random_hex bytes uuids = take (bytes * 2) (random_fill (bytes * 2) [] uuids)"

definition sha256_hex :: "(u8 list \<Rightarrow> u8 list) \<Rightarrow> u8 list \<Rightarrow> rstr" where
  "sha256_hex sha256 bytes = concat (map hex2 (sha256 bytes))"

definition nt_prefix :: rstr where
  "nt_prefix = [backslash, 63, 63, backslash]"

text \<open>\<open>trim_start_matches\<close> removes the prefix as often as it is there.\<close>

fun trim_nt :: "rstr \<Rightarrow> rstr" where
  "trim_nt (a # b # c # d # rest) =
     (if [a, b, c, d] = nt_prefix then trim_nt rest else a # b # c # d # rest)"
| "trim_nt s = s"

definition to_nt_path :: "rstr \<Rightarrow> rstr" where
  "to_nt_path dos =
     (let trimmed = map (\<lambda>c. if c = slash then backslash else c) (trim_nt dos) in
      if starts_with trimmed [backslash, backslash]
      then nt_prefix @ utf ''UNC'' @ [backslash] @ drop 2 trimmed
      else nt_prefix @ trimmed)"

definition STORE_SDDL_BASE :: rstr where "STORE_SDDL_BASE = utf ''D:P(A;OICI;FA;;;SY)(A;OICI;FA;;;BA)''"

definition store_sddl :: "rstr option \<Rightarrow> rstr" where
  "store_sddl token_user_sid = (case token_user_sid of
      Some sid \<Rightarrow> STORE_SDDL_BASE @ utf ''(A;OICI;FA;;;'' @ sid @ utf '')'' | None \<Rightarrow> STORE_SDDL_BASE)"

subsection \<open>Text lemmas\<close>

lemma trim_nt_prefix [simp]: "trim_nt (nt_prefix @ s) = trim_nt s"
  by (simp add: nt_prefix_def)

lemma trim_nt_idem: "trim_nt (trim_nt s) = trim_nt s"
  by (induction s rule: trim_nt.induct) auto

lemma set_trim_nt: "set (trim_nt s) \<subseteq> set s"
  by (induction s rule: trim_nt.induct) auto

text \<open>The driver's form: one NT prefix, and only backslashes.\<close>

lemma to_nt_path_shape: "starts_with (to_nt_path dos) nt_prefix" "slash \<notin> set (to_nt_path dos)"
  by (auto simp: to_nt_path_def Let_def starts_with_def nt_prefix_def dest!: in_set_dropD)

lemma to_nt_path_idempotent:
  assumes "slash \<notin> set dos"
  shows "to_nt_path (to_nt_path dos) = to_nt_path dos"
proof -
  have id: "map (\<lambda>c. if c = slash then backslash else c) s = s" if "slash \<notin> set s" for s
    using that by (induction s) auto
  have t: "slash \<notin> set (trim_nt dos)" using assms set_trim_nt [of dos] by auto
  have unc: "trim_nt (utf ''UNC'' @ backslash # r) = utf ''UNC'' @ backslash # r" for r by (simp add: nt_prefix_def)
  show ?thesis
    using t id [OF t] id [of "drop 2 (trim_nt dos)"] unc [of "drop 2 (trim_nt dos)"] trim_nt_idem [of dos]
    by (auto simp: to_nt_path_def Let_def starts_with_def dest: in_set_dropD simp del: utf_Cons) (simp_all add: nt_prefix_def)
qed

text \<open>The prefix is removed before the separators are normalized, so one that is written with a slash is doubled.\<close>

lemma to_nt_path_doubles_prefix: "to_nt_path ([backslash, 63, 63, slash] @ utf ''C:'') = nt_prefix @ nt_prefix @ utf ''C:''"
  by (simp add: to_nt_path_def Let_def nt_prefix_def starts_with_def)

lemma random_hex_length:
  assumes "list_all (\<lambda>u. length u = 16) uuids" "bytes * 2 \<le> 32 * length uuids"
  shows "length (random_hex bytes uuids) = bytes * 2"
proof -
  have hex: "length (concat (map hex2 u)) = 2 * length u" for u by (induction u) (simp_all add: hex2_def)
  have "min (length out + 32 * length uuids) len \<le> length (random_fill len out uuids)" if "list_all (\<lambda>u. length u = 16) uuids" for out len
    using that
  proof (induction uuids arbitrary: out)
    case (Cons u uuids)
    then show ?case using Cons.IH [of "out @ concat (map hex2 u)"] by (auto simp: hex)
  qed simp
  from this [OF assms(1), of "[]" "bytes * 2"] assms(2) show ?thesis by (simp add: random_hex_def)
qed

subsection \<open>Materializing\<close>

datatype SensorStoreError = SourceMissing | StoreIo | HashMismatch rstr rstr | Security

record MaterializedSensor =
  ms_nt_path :: rstr
  ms_dos_path :: rstr
  ms_sha256_hex :: rstr

text \<open>One level of the protected directory: it is there, it is created, somebody else was faster, or it fails.\<close>

datatype DirLevel = IsDir | Created | AlreadyExists | CreateFailed

fun create_protected_dir :: "bool \<Rightarrow> DirLevel list \<Rightarrow> SensorStoreError + unit" where
  "create_protected_dir converted [] = (if converted then Inr () else Inl Security)"
| "create_protected_dir converted (level # levels) =
     (if \<not> converted \<or> level = CreateFailed then Inl Security else create_protected_dir converted levels)"

text \<open>The store: the boot directories under its base, and the files in them.\<close>

record Store =
  so_dirs :: "rstr set"
  so_files :: "rstr \<Rightarrow> rstr \<Rightarrow> u8 list option"

record StoreOutside =
  sx_source :: "u8 list option"
  sx_boot_uuids :: "u8 list list"
  sx_file_uuids :: "u8 list list"
  sx_converted :: bool
  sx_levels :: "DirLevel list"
  sx_create :: bool
  sx_write :: bool
  sx_landed :: "u8 list"      \<comment> \<open>what is in the copy when it is read back\<close>
  sx_reread :: bool
  sx_remove :: "rstr \<Rightarrow> bool"

definition set_file :: "rstr \<Rightarrow> rstr \<Rightarrow> u8 list option \<Rightarrow> Store \<Rightarrow> Store" where
  "set_file dir name bytes st = st\<lparr>so_files := (so_files st)(dir := (so_files st dir)(name := bytes))\<rparr>"

definition prune_other_boots :: "(rstr \<Rightarrow> bool) \<Rightarrow> rstr \<Rightarrow> Store \<Rightarrow> Store" where
  "prune_other_boots removable keep st =
     (let gone = {dir \<in> so_dirs st. dir \<noteq> keep \<and> removable dir} in
      st\<lparr>so_dirs := so_dirs st - gone, so_files := (\<lambda>dir. if dir \<in> gone then (\<lambda>_. None) else so_files st dir)\<rparr>)"

definition boot_name :: "StoreOutside \<Rightarrow> rstr" where
  "boot_name x = utf ''boot-'' @ random_hex 8 (sx_boot_uuids x)"

definition sensor_name :: "StoreOutside \<Rightarrow> rstr" where
  "sensor_name x = utf ''sensor-'' @ random_hex 8 (sx_file_uuids x) @ utf ''.dll''"

definition materialize :: "(u8 list \<Rightarrow> u8 list) \<Rightarrow> rstr \<Rightarrow> StoreOutside \<Rightarrow> Store \<Rightarrow> (SensorStoreError + MaterializedSensor) \<times> Store" where
  "materialize sha256 base x st =
     (case sx_source x of
        None \<Rightarrow> (Inl SourceMissing, st)
      | Some source_bytes \<Rightarrow>
          let source_hash = sha256_hex sha256 source_bytes; boot = boot_name x; file = sensor_name x in
          case create_protected_dir (sx_converted x) (sx_levels x) of
            Inl e \<Rightarrow> (Inl e, st)
          | Inr _ \<Rightarrow>
              let st = st\<lparr>so_dirs := insert boot (so_dirs st)\<rparr> in
              if so_files st boot file \<noteq> None \<or> \<not> sx_create x then (Inl StoreIo, st)
              else let st = set_file boot file (Some (sx_landed x)) st in
              if \<not> sx_write x then (Inl StoreIo, st)
              else if \<not> sx_reread x then (Inl StoreIo, st)
              else let copy_hash = sha256_hex sha256 (sx_landed x) in
              if copy_hash \<noteq> source_hash
              then (Inl (HashMismatch source_hash copy_hash), set_file boot file None st)
              else let st = prune_other_boots (sx_remove x) boot st; dos_path = path_join (path_join base boot) file in
                (Inr \<lparr>ms_nt_path = to_nt_path dos_path, ms_dos_path = dos_path, ms_sha256_hex = copy_hash\<rparr>, st))"

text \<open>The port as the host uses it: a path to arm, or none.\<close>

definition sensor_port :: "(u8 list \<Rightarrow> u8 list) \<Rightarrow> rstr \<Rightarrow> StoreOutside \<Rightarrow> Store \<Rightarrow> rstr \<Rightarrow> rstr option" where
  "sensor_port sha256 base x st source = (case fst (materialize sha256 base x st) of Inr sensor \<Rightarrow> Some (ms_nt_path sensor) | Inl _ \<Rightarrow> None)"

lemma materialize_ok:
  assumes "materialize sha256 base x st = (Inr sensor, st')"
  shows "ms_nt_path sensor = to_nt_path (path_join (path_join base (boot_name x)) (sensor_name x))"
    "\<exists>source. sx_source x = Some source \<and> sha256_hex sha256 (sx_landed x) = sha256_hex sha256 source"
    "so_files st' (boot_name x) (sensor_name x) = Some (sx_landed x)" "so_files st (boot_name x) (sensor_name x) = None"
  using assms
  by (auto simp: materialize_def Let_def prune_other_boots_def set_file_def split: option.splits sum.splits if_splits)


definition store0 :: Store where
  "store0 = \<lparr>so_dirs = {}, so_files = (\<lambda>_ _. None)\<rparr>"

definition outside0 :: StoreOutside where
  "outside0 = \<lparr>sx_source = Some [1], sx_boot_uuids = [replicate 16 7], sx_file_uuids = [replicate 16 8], sx_converted = True, sx_levels = [IsDir, Created],
     sx_create = True, sx_write = True, sx_landed = [1], sx_reread = True, sx_remove = (\<lambda>_. True)\<rparr>"

definition config0 :: AgentConfig where
  "config0 = AgentConfig_default\<lparr>ac_driver := DriverConfig_default\<lparr>dv_sensor_path := utf ''s.dll''\<rparr>\<rparr>"

definition path0 :: rstr where
  "path0 = nt_prefix @ utf ''C:'' @ [backslash] @ utf ''boot-0707070707070707'' @ [backslash] @ utf ''sensor-0808080808080808.dll''"

lemma names0: "boot_name outside0 = utf ''boot-0707070707070707''" "sensor_name outside0 = utf ''sensor-0808080808080808.dll''"
  by (code_simp)+

lemma outside0_fields:
  "sx_source outside0 = Some [1]" "sx_converted outside0" "sx_levels outside0 = [IsDir, Created]" "sx_create outside0" "sx_write outside0"
  "sx_landed outside0 = [1]" "sx_reread outside0"
  by (simp_all add: outside0_def)

lemma nt0: "to_nt_path (path_join (path_join (utf ''C:'') (utf ''boot-0707070707070707'')) (utf ''sensor-0808080808080808.dll'')) = path0"
  by code_simp

lemma materialize0: "fst (materialize (\<lambda>bs. bs) (utf ''C:'') outside0 store0)
   = Inr \<lparr>ms_nt_path = path0, ms_dos_path = path_join (path_join (utf ''C:'') (utf ''boot-0707070707070707'')) (utf ''sensor-0808080808080808.dll''),
       ms_sha256_hex = sha256_hex (\<lambda>bs. bs) [1]\<rparr>"
  by (simp add: materialize_def names0 nt0 outside0_fields store0_def Let_def del: utf_Cons)

lemma path0_fits: "plain path0" "length (wide_nul path0) \<le> MaxFilePathBytes"
  by (simp_all add: plain_def length_wide encode_utf16_def driver_caps path0_def nt_prefix_def)


end
