(* ===== verification/Upload_Stream.thy ===== *)
theory Upload_Stream
  imports Agent_World "HOL-Library.Sublist"
begin

text \<open>
  Uploading a file (\<^verbatim>\<open>crates/agent/src/adapters/driven/upload/http.rs\<close>, \<^verbatim>\<open>ports/driven/uploader.rs\<close>,
  \<^verbatim>\<open>protocol/src/upload.rs\<close>): the stream that enforces the size cap on a file the sample may still be
  changing, and the upload around it. The file is what its reader yields, poll by poll; the HTTP client
  polls the stream until it ends or fails, or stops on its own, and then answers.
\<close>

record UploadMeta =
  um_path :: rstr
  um_study :: Uuid
  um_session :: u32

record UploadRequest =
  ur_endpoint :: rstr
  ur_meta :: UploadMeta
  ur_file_path :: rstr
  ur_max_blob_bytes :: u64

datatype UploadError = NotFound rstr | TooLarge u64 u64 | UploadIo | Transport

definition CHUNK_BYTES :: nat where "CHUNK_BYTES = 64 * 1024"

subsection \<open>The capped stream\<close>

datatype Polled = Pending | Chunk "u8 list" | Failed | Ended

record CappedStream =
  cs_limit :: u64
  cs_total_read :: u64
  cs_overflow :: "UploadError option"

definition poll_next :: "Polled \<Rightarrow> CappedStream \<Rightarrow> Polled \<times> CappedStream" where
  "poll_next polled s =
     (case polled of
        Chunk chunk \<Rightarrow>
          let s = s\<lparr>cs_total_read := cs_total_read s + of_nat (length chunk)\<rparr> in
          if cs_total_read s > cs_limit s
          then (Failed, s\<lparr>cs_overflow := Some (TooLarge (cs_limit s) (cs_total_read s))\<rparr>)
          else (Chunk chunk, s)
      | other \<Rightarrow> (other, s))"

text \<open>The client: what it sends of the blob, the stream after it, and how the body ended.\<close>

datatype BodyEnd = Completed | Aborted | Abandoned

fun drive :: "Polled list \<Rightarrow> CappedStream \<Rightarrow> u8 list \<times> CappedStream \<times> BodyEnd" where
  "drive [] s = ([], s, Abandoned)"
| "drive (polled # rest) s =
     (case poll_next polled s of
        (Pending, s) \<Rightarrow> drive rest s
      | (Chunk chunk, s) \<Rightarrow> (case drive rest s of (sent, s, e) \<Rightarrow> (chunk @ sent, s, e))
      | (Failed, s) \<Rightarrow> ([], s, Aborted)
      | (Ended, s) \<Rightarrow> ([], s, Completed))"

subsection \<open>The upload\<close>

text \<open>What the file system and the client answer: \<open>Some True\<close> of \<open>fo_send\<close> is a response of success.\<close>

datatype Opened = OpenOk | OpenNotFound | OpenFailed

record FileOutside =
  fo_open :: Opened
  fo_metadata :: "u64 option"
  fo_meta_json :: bool
  fo_polls :: "Polled list"
  fo_send :: "BodyEnd \<Rightarrow> bool option"

definition upload :: "FileOutside \<Rightarrow> UploadRequest \<Rightarrow> (UploadError + unit) \<times> u8 list" where
  "upload fo request =
     (case fo_open fo of
        OpenNotFound \<Rightarrow> (Inl (NotFound (ur_file_path request)), [])
      | OpenFailed \<Rightarrow> (Inl UploadIo, [])
      | OpenOk \<Rightarrow>
          (case fo_metadata fo of None \<Rightarrow> (Inl UploadIo, [])
           | Some preflight_len \<Rightarrow>
               if preflight_len > ur_max_blob_bytes request
               then (Inl (TooLarge (ur_max_blob_bytes request) preflight_len), [])
               else if \<not> fo_meta_json fo then (Inl Transport, [])
               else case drive (fo_polls fo) \<lparr>cs_limit = ur_max_blob_bytes request, cs_total_read = 0, cs_overflow = None\<rparr> of
                 (sent, s, e) \<Rightarrow>
                   (case fo_send fo e of
                      Some ok \<Rightarrow> if ok then Inr () else Inl Transport
                    | None \<Rightarrow> (case cs_overflow s of Some overflowed \<Rightarrow> Inl overflowed | None \<Rightarrow> Inl Transport), sent)))"

subsection \<open>The cap holds\<close>

text \<open>What the reader yields before it ends or fails, and which of the two it is.\<close>

fun content :: "Polled list \<Rightarrow> u8 list" where
  "content (Pending # rest) = content rest"
| "content (Chunk chunk # rest) = chunk @ content rest"
| "content _ = []"

fun body_end :: "Polled list \<Rightarrow> BodyEnd" where
  "body_end [] = Abandoned"
| "body_end (Failed # rest) = Aborted"
| "body_end (Ended # rest) = Completed"
| "body_end (_ # rest) = body_end rest"

definition chunks_ok :: "Polled list \<Rightarrow> bool" where
  "chunks_ok polls \<longleftrightarrow> list_all (\<lambda>p. case p of Chunk c \<Rightarrow> length c \<le> CHUNK_BYTES | _ \<Rightarrow> True) polls"

lemma total_unat:
  assumes "n \<le> unat (limit :: u64)" "k \<le> CHUNK_BYTES" "unat limit < 2 ^ 64 - CHUNK_BYTES"
  shows "unat (of_nat n + of_nat k :: u64) = n + k"
proof -
  have "n + k < 2 ^ 64" using assms by (simp add: CHUNK_BYTES_def)
  then have "unat (of_nat (n + k) :: u64) = n + k" by (simp only: unat_of_nat take_bit_nat_eq_self_iff) simp
  then show ?thesis by simp
qed

lemma drive_capped:
  assumes "chunks_ok polls" "n \<le> unat (cs_limit s)" "unat (cs_limit s) < 2 ^ 64 - CHUNK_BYTES" "cs_total_read s = of_nat n"
    and "drive polls s = (sent, s', e)"
  shows "if n + length (content polls) \<le> unat (cs_limit s)
    then sent = content polls \<and> e = body_end polls \<and> cs_overflow s' = cs_overflow s
    else e = Aborted \<and> prefix sent (content polls) \<and> n + length sent \<le> unat (cs_limit s)
      \<and> (\<exists>read. cs_overflow s' = Some (TooLarge (cs_limit s) read) \<and> cs_limit s < read)"
  using assms
proof (induction polls arbitrary: n s sent)
  case (Cons polled rest)
  show ?case
  proof (cases polled)
    case (Chunk chunk)
    let ?s = "s\<lparr>cs_total_read := cs_total_read s + of_nat (length chunk)\<rparr>"
    have k: "unat (cs_total_read ?s) = n + length chunk"
      using total_unat [of n "cs_limit s" "length chunk"] Cons.prems Chunk by (simp add: chunks_ok_def)
    show ?thesis
    proof (cases "n + length chunk \<le> unat (cs_limit s)")
      case True
      then have le: "\<not> cs_total_read ?s > cs_limit s" using k by (simp add: word_less_nat_alt)
      then obtain sent' where rest: "drive rest ?s = (sent', s', e)" "sent = chunk @ sent'"
        using Cons.prems(5) Chunk by (auto simp: poll_next_def Let_def split: prod.splits)
      have "if (n + length chunk) + length (content rest) \<le> unat (cs_limit ?s)
        then sent' = content rest \<and> e = body_end rest \<and> cs_overflow s' = cs_overflow ?s
        else e = Aborted \<and> prefix sent' (content rest) \<and> (n + length chunk) + length sent' \<le> unat (cs_limit ?s)
          \<and> (\<exists>read. cs_overflow s' = Some (TooLarge (cs_limit ?s) read) \<and> cs_limit ?s < read)"
        by (rule Cons.IH [OF _ _ _ _ rest(1)]) (use Cons.prems Chunk True in \<open>simp_all add: chunks_ok_def\<close>)
      then show ?thesis using Chunk rest(2) by (simp add: add.assoc split: if_splits)
    next
      case False
      then have "cs_total_read ?s > cs_limit s" using k by (simp add: word_less_nat_alt)
      then show ?thesis using Cons.prems(2,5) Chunk False by (auto simp: poll_next_def Let_def)
    qed
  next
    case Pending
    with Cons.prems show ?thesis using Cons.IH [of n s sent] by (simp add: poll_next_def chunks_ok_def)
  qed (use Cons.prems in \<open>auto simp: poll_next_def chunks_ok_def\<close>)
qed auto

text \<open>
  C29. An upload never exceeds its cap, whatever the sample does to the file. The bytes sent are a prefix
  of what the reader yielded, and at most the cap. When the client fails a request whose body fails,
  and the controller accepts only complete requests, then an upload that succeeds has sent the whole
  file; and a file that yields more than the cap, though its length was within it when the upload
  began, is reported as too large, not as a failed transport.
\<close>

theorem upload_capped:
  assumes "chunks_ok (fo_polls fo)" "unat (ur_max_blob_bytes request) < 2 ^ 64 - CHUNK_BYTES"
    and "fo_send fo Aborted = None" "fo_send fo Abandoned \<noteq> Some True"
    and "upload fo request = (result, sent)"
  shows "length sent \<le> unat (ur_max_blob_bytes request) \<and> prefix sent (content (fo_polls fo))
    \<and> (result = Inr () \<longrightarrow> sent = content (fo_polls fo) \<and> body_end (fo_polls fo) = Completed)
    \<and> (fo_open fo = OpenOk \<and> fo_metadata fo \<noteq> None \<and> fo_meta_json fo \<and> length (content (fo_polls fo)) > unat (ur_max_blob_bytes request)
       \<longrightarrow> (\<exists>read. result = Inl (TooLarge (ur_max_blob_bytes request) read) \<and> ur_max_blob_bytes request < read))"
proof -
  let ?s = "\<lparr>cs_limit = ur_max_blob_bytes request, cs_total_read = 0, cs_overflow = None\<rparr>"
  obtain out s' e where d: "drive (fo_polls fo) ?s = (out, s', e)" by (cases "drive (fo_polls fo) ?s") auto
  note cap = drive_capped [OF assms(1) _ _ _ d, of 0, simplified]
  show ?thesis
    using assms(2-5) cap d
    by (auto simp: upload_def split: Opened.splits option.splits if_splits) (cases "body_end (fo_polls fo)"; simp)+
qed

text \<open>A file that grows past a cap of two bytes while it is read.\<close>

definition growing :: FileOutside where
  "growing = \<lparr>fo_open = OpenOk, fo_metadata = Some 2, fo_meta_json = True, fo_polls = [Chunk [1, 2], Pending, Chunk [3], Ended],
     fo_send = (\<lambda>e. if e = Completed then Some True else None)\<rparr>"

definition request0 :: UploadRequest where
  "request0 = \<lparr>ur_endpoint = [], ur_meta = \<lparr>um_path = [], um_study = 0, um_session = 0\<rparr>, ur_file_path = [], ur_max_blob_bytes = 2\<rparr>"

theorem upload_capped_witness:
  "\<exists>read. fst (upload growing request0) = Inl (TooLarge 2 read) \<and> 2 < read"
proof -
  have "chunks_ok (fo_polls growing)" "unat (ur_max_blob_bytes request0) < 2 ^ 64 - CHUNK_BYTES" "fo_send growing Aborted = None"
    "fo_send growing Abandoned \<noteq> Some True"
    by (simp_all add: growing_def request0_def chunks_ok_def CHUNK_BYTES_def)
  from upload_capped [OF this, of "fst (upload growing request0)" "snd (upload growing request0)"]
  show ?thesis by (simp add: growing_def request0_def)
qed

end
