(* ===== verification/Clock_Shift.thy ===== *)
theory Clock_Shift
  imports Driver_Event_Source
begin

text \<open>
  Setting the clock (\<^verbatim>\<open>crates/agent/src/adapters/driven/clock/shift.rs\<close>): milliseconds since 1970 to ticks
  since 1601, with checked arithmetic, split into the two halves of a \<open>FILETIME\<close>. What Windows does
  with it is an input.
\<close>

unbundle bit_operations_syntax

datatype ClockShiftError = Unavailable | System

definition UNIX_EPOCH_FILETIME_100NS :: int where "UNIX_EPOCH_FILETIME_100NS = 116444736000000000"

text \<open>\<open>i64::checked_mul\<close> and \<open>checked_add\<close> give \<open>None\<close> outside of the type.\<close>

definition checked_i64 :: "int \<Rightarrow> i64 option" where
  "checked_i64 x = (if - (2 ^ 63) \<le> x \<and> x < 2 ^ 63 then Some (word_of_int x) else None)"

definition unix_ms_to_filetime :: "i64 \<Rightarrow> ClockShiftError + i64" where
  "unix_ms_to_filetime unix_ms =
     ok_or System (case checked_i64 (sint unix_ms * 10000) of None \<Rightarrow> None
       | Some ticks \<Rightarrow> checked_i64 (sint ticks + UNIX_EPOCH_FILETIME_100NS))"

record FILETIME =
  dwLowDateTime :: u32
  dwHighDateTime :: u32

text \<open>The masks make both conversions to \<open>u32\<close> succeed; the shift is arithmetic.\<close>

definition split_filetime :: "i64 \<Rightarrow> FILETIME" where
  "split_filetime file_time =
     \<lparr>dwLowDateTime = word_of_int (sint file_time AND 0xFFFFFFFF),
      dwHighDateTime = word_of_int (drop_bit 32 (sint file_time) AND 0xFFFFFFFF)\<rparr>"

text \<open>\<open>convert\<close> and \<open>set_time\<close> are the two Windows calls; the file time handed to them is returned as well.\<close>

definition set_blocking :: "(FILETIME \<Rightarrow> bool) \<Rightarrow> i64 \<Rightarrow> (ClockShiftError + unit) \<times> FILETIME option" where
  "set_blocking sets unix_ms =
     (case unix_ms_to_filetime unix_ms of Inl e \<Rightarrow> (Inl e, None)
      | Inr file_time \<Rightarrow> (let target = split_filetime file_time in
          (if sets target then Inr () else Inl System, Some target)))"

text \<open>How Windows reads the two halves.\<close>

definition ticks_of :: "FILETIME \<Rightarrow> u64" where
  "ticks_of ft = push_bit 32 (ucast (dwHighDateTime ft)) OR ucast (dwLowDateTime ft)"

lemma sint_checked_i64: "checked_i64 x = Some w \<Longrightarrow> sint w = x"
  by (auto simp: checked_i64_def sint_word_ariths signed_take_bit_int_eq_self_iff signed_take_bit_int_eq_self signed_of_int split: if_splits)

lemma ticks_of_split: "ticks_of (split_filetime w) = w"
proof (rule bit_word_eqI)
  fix n assume n: "n < LENGTH(64)"
  have mask: "(0xFFFFFFFF :: int) = mask 32" by (simp add: mask_eq_exp_minus_1)
  show "bit (ticks_of (split_filetime w)) n = bit w n"
    using n unfolding ticks_of_def split_filetime_def mask
    by (auto simp: bit_simps bit_sint_iff not_less)
qed

text \<open>
  C39. The clock is set to the requested time or not at all. A time whose tick count fits the type is
  handed to Windows as exactly the ticks between 1601 and that time, split without loss; any other
  time is refused before a call is made, and nothing wraps around.
\<close>

theorem clock_set_exact:
  "case snd (set_blocking sets unix_ms) of
     Some target \<Rightarrow> sint (ticks_of target) = sint unix_ms * 10000 + UNIX_EPOCH_FILETIME_100NS
   | None \<Rightarrow> fst (set_blocking sets unix_ms) = Inl System
       \<and> sint unix_ms \<notin> {- 922337203685477 .. 910692730085477}"
proof (cases "unix_ms_to_filetime unix_ms")
  case (Inr file_time)
  then have "sint file_time = sint unix_ms * 10000 + UNIX_EPOCH_FILETIME_100NS"
    by (auto simp: unix_ms_to_filetime_def ok_or_def dest!: sint_checked_i64 split: option.splits)
  with Inr show ?thesis by (simp add: set_blocking_def Let_def ticks_of_split)
next
  case (Inl e)
  have "sint unix_ms \<notin> {- 922337203685477 .. 910692730085477}"
  proof (cases "checked_i64 (sint unix_ms * 10000)")
    case None
    then show ?thesis by (auto simp: checked_i64_def split: if_splits)
  next
    case (Some ticks)
    then have "checked_i64 (sint unix_ms * 10000 + UNIX_EPOCH_FILETIME_100NS) = None"
      using Inl sint_checked_i64 [OF Some] by (simp add: unix_ms_to_filetime_def ok_or_def split: option.splits)
    then show ?thesis by (auto simp: checked_i64_def UNIX_EPOCH_FILETIME_100NS_def split: if_splits)
  qed
  moreover have "e = System" using Inl by (auto simp: unix_ms_to_filetime_def ok_or_def split: option.splits)
  ultimately show ?thesis using Inl by (simp add: set_blocking_def)
qed

text \<open>
  The driver event source converts the other way with a constant a hundred times too large: a time
  the clock was set to is read back as 1970.
\<close>

lemma conversions_disagree:
  assumes "unix_ms_to_filetime unix_ms = Inr file_time" "0 \<le> sint unix_ms"
  shows "filetime_to_unix_ms file_time = 0"
proof -
  have t: "sint file_time = sint unix_ms * 10000 + UNIX_EPOCH_FILETIME_100NS"
    using assms(1) by (auto simp: unix_ms_to_filetime_def ok_or_def dest!: sint_checked_i64 split: option.splits)
  then have "0 \<le> sint file_time" using assms(2) by (simp add: UNIX_EPOCH_FILETIME_100NS_def)
  moreover have "sint file_time < 2 ^ 63" using sint_lt [of file_time] by simp
  ultimately have "uint (word_of_int (sint file_time) :: i64) = sint file_time"
    by (simp only: uint_word_of_int_eq take_bit_int_eq_self_iff) simp
  then have "uint file_time < 2 ^ 63" using \<open>sint file_time < 2 ^ 63\<close> by (simp only: of_int_sint scast_id)
  then have "unat file_time < 2 ^ 63" by (simp only: unat_eq_nat_uint nat_less_iff [OF uint_ge_0] of_nat_power of_nat_numeral)
  then show ?thesis by (simp add: filetime_to_unix_ms_def EPOCH_DIFF_100NS_def)
qed

end
