(* ===== verification/Broker_Adapters.thy ===== *)
theory Broker_Adapters
  imports Agent_World Config
begin

text \<open>
  The brokers (\<^verbatim>\<open>crates/agent/src/adapters/driven/broker/nats.rs\<close>, \<^verbatim>\<open>tee.rs\<close>, \<^verbatim>\<open>jsonl.rs\<close>, \<^verbatim>\<open>ports/driven/broker.rs\<close>): the
  checks and retries before the NATS connection stands, publishing over it with the count of what was lost,
  and the fan-out to several sinks of the local mode. The client library, serialization and the file
  are inputs: what each of their calls answers.
\<close>

datatype BrokerError = ConnectionLost | Persistence

datatype SubjectDetail = EmptyToken | IllegalCharacter rstr

datatype ConnectError = RetriesExhausted nat rstr | InvalidSubject rstr SubjectDetail

subsection \<open>Subjects\<close>

fun split_dots :: "rstr \<Rightarrow> rstr list" where
  "split_dots [] = [[]]"
| "split_dots (c # rest) = (if c = dot then [] # split_dots rest
     else (case split_dots rest of token # tokens \<Rightarrow> (c # token) # tokens | [] \<Rightarrow> [[c]]))"

definition subject_char :: "nat \<Rightarrow> bool" where
  "subject_char c \<longleftrightarrow> is_ascii_alphanumeric c \<or> c \<in> {95, 45, 42, 62}"

fun validate_tokens :: "rstr \<Rightarrow> rstr list \<Rightarrow> ConnectError + unit" where
  "validate_tokens subject [] = Inr ()"
| "validate_tokens subject (token # tokens) =
     (if token = [] then Inl (InvalidSubject subject EmptyToken)
      else if \<not> list_all subject_char token then Inl (InvalidSubject subject (IllegalCharacter token))
      else validate_tokens subject tokens)"

definition validate_subject :: "rstr \<Rightarrow> ConnectError + unit" where
  "validate_subject subject = validate_tokens subject (split_dots subject)"

text \<open>The accepted subjects, character by character: legal characters and single dots between them.\<close>

fun grammar :: "rstr \<Rightarrow> bool" where
  "grammar [] = False"
| "grammar [c] = subject_char c"
| "grammar (c # d # rest) = (subject_char c \<and> (if d = dot then grammar rest else grammar (d # rest)))"

lemma split_dots_nonempty: "split_dots s \<noteq> []"
  by (cases s) (auto split: list.splits)

lemma validate_tokens_iff: "validate_tokens subject tokens = Inr () \<longleftrightarrow> list_all (\<lambda>t. t \<noteq> [] \<and> list_all subject_char t) tokens"
  by (induction tokens) auto

lemma subject_char_dot [simp]: "\<not> subject_char dot"
  by (simp add: subject_char_def is_ascii_alphanumeric_def)

lemma validate_subject_grammar: "validate_subject subject = Inr () \<longleftrightarrow> grammar subject"
proof -
  have "list_all (\<lambda>t. t \<noteq> [] \<and> list_all subject_char t) (split_dots s) = grammar s" for s
  proof (induction s rule: grammar.induct)
    case (3 c d rest)
    then show ?case by (cases "c = dot"; cases "d = dot") (auto split: list.splits simp: split_dots_nonempty)
  qed auto
  then show ?thesis by (simp add: validate_subject_def validate_tokens_iff)
qed

subsection \<open>Connecting\<close>

definition CONNECT_ATTEMPTS :: nat where "CONNECT_ATTEMPTS = 18"
definition CONNECT_RETRY_DELAY :: nat where "CONNECT_RETRY_DELAY = 5"

record NatsBroker =
  nb_control_subject :: rstr
  nb_event_subject :: rstr
  nb_loss :: u64

text \<open>\<open>answer k\<close> is the error of attempt \<open>k\<close>, or none; also returned are the seconds slept.\<close>

fun attempts_loop :: "BrokerConfig \<Rightarrow> (nat \<Rightarrow> rstr option) \<Rightarrow> nat \<Rightarrow> nat \<Rightarrow> nat \<Rightarrow> nat \<Rightarrow> rstr \<Rightarrow> (ConnectError + NatsBroker) \<times> nat" where
  "attempts_loop config answer attempts delay attempt 0 last_error = (Inl (RetriesExhausted attempts last_error), 0)"
| "attempts_loop config answer attempts delay attempt (Suc left) last_error =
     (case answer attempt of
        None \<Rightarrow> (Inr \<lparr>nb_control_subject = bk_control_channel config, nb_event_subject = bk_event_channel config, nb_loss = 0\<rparr>, 0)
      | Some error \<Rightarrow> (case attempts_loop config answer attempts delay (Suc attempt) left error of (r, slept) \<Rightarrow> (r, delay + slept)))"

definition connect_with :: "BrokerConfig \<Rightarrow> (nat \<Rightarrow> rstr option) \<Rightarrow> nat \<Rightarrow> nat \<Rightarrow> (ConnectError + NatsBroker) \<times> nat" where
  "connect_with config answer attempts delay =
     (case validate_subject (bk_control_channel config) of Inl e \<Rightarrow> (Inl e, 0)
      | Inr _ \<Rightarrow>
          (case validate_subject (bk_event_channel config) of Inl e \<Rightarrow> (Inl e, 0)
           | Inr _ \<Rightarrow> attempts_loop config answer attempts delay 1 attempts (utf ''no attempts made'')))"

definition connect :: "BrokerConfig \<Rightarrow> (nat \<Rightarrow> rstr option) \<Rightarrow> (ConnectError + NatsBroker) \<times> nat" where
  "connect config answer = connect_with config answer CONNECT_ATTEMPTS CONNECT_RETRY_DELAY"

lemma attempts_loop_result:
  assumes "attempts_loop config answer attempts delay k left err = (r, slept)"
  shows "slept \<le> left * delay \<and> (case r of
      Inr b \<Rightarrow> (\<exists>i < left. answer (k + i) = None \<and> (\<forall>j < i. answer (k + j) \<noteq> None) \<and> slept = i * delay)
        \<and> b = \<lparr>nb_control_subject = bk_control_channel config, nb_event_subject = bk_event_channel config, nb_loss = 0\<rparr>
    | Inl e \<Rightarrow> (\<forall>i < left. answer (k + i) \<noteq> None)
        \<and> e = RetriesExhausted attempts (if left = 0 then err else the (answer (k + left - 1))))"
  using assms
proof (induction left arbitrary: k err r slept)
  case (Suc left)
  show ?case
  proof (cases "answer k")
    case None
    with Suc.prems show ?thesis by (auto intro!: exI [of _ 0])
  next
    case (Some error)
    obtain s where s: "attempts_loop config answer attempts delay (Suc k) left error = (r, s)" "slept = delay + s"
      using Suc.prems Some by (auto split: prod.splits)
    note ih = Suc.IH [OF s(1)]
    show ?thesis
    proof (cases r)
      case (Inr b)
      with ih obtain i where i: "i < left" "answer (Suc k + i) = None" "\<forall>j < i. answer (Suc k + j) \<noteq> None" "s = i * delay" by auto
      have "answer (k + j) \<noteq> None" if "j < Suc i" for j using that Some i(3) by (cases j) auto
      with i Inr ih s(2) show ?thesis by (auto intro!: exI [of _ "Suc i"])
    next
      case (Inl e)
      have "answer (k + j) \<noteq> None" if "j < Suc left" for j using that Some ih Inl by (cases j) auto
      with ih Inl Some s(2) show ?thesis by auto
    qed
  qed
qed auto

subsection \<open>Publishing\<close>

definition subject_of :: "NatsBroker \<Rightarrow> Channel \<Rightarrow> rstr" where
  "subject_of b channel = (case channel of Control \<Rightarrow> nb_control_subject b | Event \<Rightarrow> nb_event_subject b)"

text \<open>\<open>accepted\<close> is the client's answer; what was handed to it is returned as well.\<close>

definition nats_publish :: "(Envelope \<Rightarrow> u8 list option) \<Rightarrow> bool \<Rightarrow> Channel \<Rightarrow> Envelope \<Rightarrow> NatsBroker
    \<Rightarrow> (BrokerError + unit) \<times> (rstr \<times> u8 list) option \<times> NatsBroker" where
  "nats_publish to_vec accepted channel envelope b =
     (case to_vec envelope of None \<Rightarrow> (Inl ConnectionLost, None, b)
      | Some bytes \<Rightarrow>
          if accepted then (Inr (), Some (subject_of b channel, bytes), b)
          else (Inl ConnectionLost, None, b\<lparr>nb_loss := nb_loss b + 1\<rparr>))"

definition nats_flush :: "bool \<Rightarrow> NatsBroker \<Rightarrow> (BrokerError + unit) \<times> NatsBroker" where
  "nats_flush flushed b = (if flushed then (Inr (), b) else (Inl ConnectionLost, b\<lparr>nb_loss := nb_loss b + 1\<rparr>))"

subsection \<open>The event log and the fan-out\<close>

definition jsonl_publish :: "(Envelope \<Rightarrow> u8 list option) \<Rightarrow> bool \<Rightarrow> Envelope \<Rightarrow> u8 list \<Rightarrow> (BrokerError + unit) \<times> u8 list" where
  "jsonl_publish to_string written envelope file =
     (case to_string envelope of None \<Rightarrow> (Inl Persistence, file)
      | Some line \<Rightarrow> if written then (Inr (), file @ line @ [10]) else (Inl Persistence, file))"

text \<open>Sinks are state transformers over a shared state; all of them are called, in order.\<close>

type_synonym 's sink = "Channel \<Rightarrow> Envelope \<Rightarrow> 's \<Rightarrow> (BrokerError + unit) \<times> 's"

fun tee_loop :: "'s sink list \<Rightarrow> Channel \<Rightarrow> Envelope \<Rightarrow> nat \<Rightarrow> 's \<Rightarrow> nat \<times> 's" where
  "tee_loop [] channel envelope failures s = (failures, s)"
| "tee_loop (sink # sinks) channel envelope failures s =
     (case sink channel envelope s of
        (Inl _, s) \<Rightarrow> tee_loop sinks channel envelope (failures + 1) s
      | (Inr _, s) \<Rightarrow> tee_loop sinks channel envelope failures s)"

definition tee_publish :: "'s sink list \<Rightarrow> 's sink" where
  "tee_publish sinks channel envelope s =
     (case tee_loop sinks channel envelope 0 s of (failures, s) \<Rightarrow>
        (if failures = length sinks then Inl Persistence else Inr (), s))"

text \<open>A failing sink does not keep the others from the event; the publish fails only if all do.\<close>

fun outcomes :: "'s sink list \<Rightarrow> Channel \<Rightarrow> Envelope \<Rightarrow> 's \<Rightarrow> (BrokerError + unit) list" where
  "outcomes [] channel envelope s = []"
| "outcomes (sink # sinks) channel envelope s =
     (case sink channel envelope s of (r, s) \<Rightarrow> r # outcomes sinks channel envelope s)"

lemma length_outcomes [simp]: "length (outcomes sinks channel envelope s) = length sinks"
  by (induction sinks arbitrary: s) (auto split: prod.splits)

lemma tee_loop_failures:
  "fst (tee_loop sinks channel envelope f s) = f + length (filter isl (outcomes sinks channel envelope s))"
  by (induction sinks arbitrary: f s) (auto split: prod.splits sum.splits)

lemma tee_publish_result:
  "fst (tee_publish sinks channel envelope s) = (if list_all isl (outcomes sinks channel envelope s) then Inl Persistence else Inr ())"
proof -
  have all: "length (filter P xs) = length xs \<longleftrightarrow> list_all P xs" for P and xs :: "(BrokerError + unit) list"
    by (induction xs) (auto simp: le_imp_less_Suc less_imp_neq)
  show ?thesis
    using tee_loop_failures [of sinks channel envelope 0 s] all [of isl "outcomes sinks channel envelope s"]
    by (auto simp: tee_publish_def split: prod.splits)
qed

text \<open>
  C40. The broker is reached within its budget or the boot fails with the reason. Connecting sleeps at
  most 90 seconds in all. It succeeds exactly when both configured subjects follow the token grammar
  (legal characters, single dots between them) and one of the 18 attempts does, with the subjects as
  configured; a bad subject is refused before any attempt, without a delay, and only after 18
  failures the budget is reported as exhausted.
\<close>

theorem broker_connects_within_budget:
  "case connect config answer of (r, slept) \<Rightarrow> slept \<le> 90 \<and> (case r of
      Inr b \<Rightarrow> grammar (bk_control_channel config) \<and> grammar (bk_event_channel config) \<and> (\<exists>i < 18. answer (Suc i) = None)
        \<and> subject_of b Control = bk_control_channel config \<and> subject_of b Event = bk_event_channel config
    | Inl (RetriesExhausted n _) \<Rightarrow> n = 18 \<and> (\<nexists>i. i < 18 \<and> answer (Suc i) = None)
    | Inl (InvalidSubject s _) \<Rightarrow> slept = 0 \<and> \<not> (grammar (bk_control_channel config) \<and> grammar (bk_event_channel config)))"
proof (cases "grammar (bk_control_channel config) \<and> grammar (bk_event_channel config)")
  case True
  then have v: "validate_subject (bk_control_channel config) = Inr ()" "validate_subject (bk_event_channel config) = Inr ()"
    by (simp_all add: validate_subject_grammar)
  obtain r slept where l: "attempts_loop config answer 18 5 1 18 (utf ''no attempts made'') = (r, slept)" by fastforce
  then have "connect config answer = (r, slept)"
    by (simp add: connect_def connect_with_def v CONNECT_ATTEMPTS_def CONNECT_RETRY_DELAY_def)
  with True attempts_loop_result [OF l] show ?thesis
    by (auto simp: subject_of_def split: sum.splits)
next
  case False
  have invalid: "\<exists>detail. e = InvalidSubject s detail" if "validate_subject s = Inl e" for s e
  proof -
    have "\<exists>detail. e = InvalidSubject s detail" if "validate_tokens s ts = Inl e" for ts
      using that by (induction ts) (auto split: if_splits)
    with that show ?thesis by (simp add: validate_subject_def)
  qed
  with False show ?thesis
    using validate_subject_grammar [of "bk_control_channel config"] validate_subject_grammar [of "bk_event_channel config"]
    by (auto simp: connect_def connect_with_def split: sum.splits dest!: invalid)
qed

end
