(* ===== verification/Dummy_Broker.thy ===== *)
theory Dummy_Broker
  imports Agent
begin

text \<open>
  The observer of the developer tools (\<^verbatim>\<open>crates/devtools/src/bin/dummy-broker.rs\<close>): its command line, the
  sequence tracker of each channel and the traffic counters, and what it reports of a session of the
  agent. Parsing an envelope is an input. Printing is left out.
\<close>

subsection \<open>Command line and address\<close>

record BrokerArgs =
  ba_uri :: rstr
  ba_control :: rstr
  ba_events :: rstr
  ba_spawn :: "rstr option"
  ba_pretty :: bool

definition BrokerArgs_default :: BrokerArgs where
  "BrokerArgs_default = \<lparr>ba_uri = utf ''nats://127.0.0.1:4222'', ba_control = utf ''control'', ba_events = utf ''events'',
     ba_spawn = None, ba_pretty = False\<rparr>"

datatype ArgsError = MissingValue rstr | UnknownArgument rstr

fun parse_broker_args :: "rstr list \<Rightarrow> BrokerArgs \<Rightarrow> ArgsError + BrokerArgs" where
  "parse_broker_args [] parsed = Inr parsed"
| "parse_broker_args (arg # args) parsed =
     (if arg = utf ''--pretty'' then parse_broker_args args (parsed\<lparr>ba_pretty := True\<rparr>)
      else if arg \<in> {utf ''--uri'', utf ''--control'', utf ''--events'', utf ''--spawn''} then
        (case args of
           [] \<Rightarrow> Inl (MissingValue arg)
         | v # rest \<Rightarrow> parse_broker_args rest
             (if arg = utf ''--uri'' then parsed\<lparr>ba_uri := v\<rparr>
              else if arg = utf ''--control'' then parsed\<lparr>ba_control := v\<rparr>
              else if arg = utf ''--events'' then parsed\<lparr>ba_events := v\<rparr>
              else parsed\<lparr>ba_spawn := Some v\<rparr>))
      else Inl (UnknownArgument arg))"

text \<open>\<open>str::split_once\<close>, \<open>rsplit_once\<close> on one character, \<open>strip_prefix\<close> and \<open>u16::from_str\<close>.\<close>

fun split_once :: "rstr \<Rightarrow> rstr \<Rightarrow> (rstr \<times> rstr) option" where
  "split_once pat [] = (if pat = [] then Some ([], []) else None)"
| "split_once pat (c # cs) =
     (if take (length pat) (c # cs) = pat then Some ([], drop (length pat) (c # cs))
      else map_option (\<lambda>(before, after). (c # before, after)) (split_once pat cs))"

definition rsplit_once :: "nat \<Rightarrow> rstr \<Rightarrow> (rstr \<times> rstr) option" where
  "rsplit_once c s = (if c \<in> set s
     then Some (rev (tl (dropWhile (\<lambda>x. x \<noteq> c) (rev s))), rev (takeWhile (\<lambda>x. x \<noteq> c) (rev s))) else None)"

fun strip_prefix :: "nat \<Rightarrow> rstr \<Rightarrow> rstr option" where
  "strip_prefix c [] = None"
| "strip_prefix c (x # xs) = (if x = c then Some xs else None)"

definition u16_from_str :: "rstr \<Rightarrow> nat option" where
  "u16_from_str s =
     (let digits = (case s of c # rest \<Rightarrow> if c = 43 then rest else s | [] \<Rightarrow> s);
          n = foldl (\<lambda>acc d. 10 * acc + (d - 48)) 0 digits in
      if digits \<noteq> [] \<and> list_all (\<lambda>d. 48 \<le> d \<and> d \<le> 57) digits \<and> n < 2 ^ 16 then Some n else None)"

definition split_host_port :: "rstr \<Rightarrow> (rstr \<times> nat) option" where
  "split_host_port uri =
     (let rest = (case split_once (utf ''://'') uri of Some (_, rest) \<Rightarrow> rest | None \<Rightarrow> uri);
          rest = takeWhile (\<lambda>c. c \<noteq> 47 \<and> c \<noteq> 63) rest in
      if rest = [] then None
      else case strip_prefix 91 rest of
        Some bracketed \<Rightarrow>
          (case split_once [93] bracketed of
             None \<Rightarrow> None
           | Some (host, tail) \<Rightarrow>
               Some (host, case Option.bind (strip_prefix 58 tail) u16_from_str of Some port \<Rightarrow> port | None \<Rightarrow> 4222))
      | None \<Rightarrow>
          (case rsplit_once 58 rest of
             Some (host, port) \<Rightarrow> map_option (\<lambda>port. (host, port)) (u16_from_str port)
           | None \<Rightarrow> Some (rest, 4222)))"

lemma split_once_append: "split_once pat s = Some (x, y) \<Longrightarrow> s = x @ pat @ y"
proof (induction pat s arbitrary: x rule: split_once.induct)
  case (2 pat c cs)
  then show ?case
    by (auto split: if_splits option.splits) (metis append_take_drop_id)
qed (simp split: if_splits)

lemma rsplit_once_append: "rsplit_once c s = Some (x, y) \<Longrightarrow> s = x @ c # y"
proof -
  assume r: "rsplit_once c s = Some (x, y)"
  then have c: "c \<in> set (rev s)" by (simp add: rsplit_once_def split: if_splits)
  let ?P = "\<lambda>x. x \<noteq> c"
  have "dropWhile ?P (rev s) \<noteq> []" using c by (auto simp: dropWhile_eq_Nil_conv)
  moreover from this have "hd (dropWhile ?P (rev s)) = c" using hd_dropWhile by blast
  ultimately have "dropWhile ?P (rev s) = c # tl (dropWhile ?P (rev s))" by (metis list.collapse)
  then have "rev s = takeWhile ?P (rev s) @ c # tl (dropWhile ?P (rev s))" by (metis takeWhile_dropWhile_id)
  then have "s = rev (tl (dropWhile ?P (rev s))) @ c # rev (takeWhile ?P (rev s))"
    by (metis append.assoc append_Cons append_Nil rev.simps(2) rev_append rev_rev_ident)
  with r show ?thesis by (simp add: rsplit_once_def split: if_splits)
qed

text \<open>The server is bound to a bare host, without path or query, and to a port that fits 16 bits.\<close>

lemma split_host_port_clean:
  assumes "split_host_port uri = Some (host, port)"
  shows "47 \<notin> set host \<and> 63 \<notin> set host \<and> port < 2 ^ 16"
proof -
  have port: "port < 2 ^ 16" if "u16_from_str s = Some port" for s port
    using that by (simp add: u16_from_str_def Let_def split: if_splits)
  define rest where "rest = takeWhile (\<lambda>c. c \<noteq> 47 \<and> c \<noteq> 63)
    (case split_once (utf ''://'') uri of Some (_, rest) \<Rightarrow> rest | None \<Rightarrow> uri)"
  have clean: "c \<noteq> 47 \<and> c \<noteq> 63" if "c \<in> set rest" for c using that by (auto simp: rest_def dest: set_takeWhileD)
  have "set host \<subseteq> set rest \<and> port < 2 ^ 16"
    using assms [unfolded split_host_port_def Let_def, folded rest_def]
    by (cases rest) (auto dest!: split_once_append rsplit_once_append port split: if_splits option.splits bind_splits,
        metis Un_iff set_ConsD set_append)
  then show ?thesis using clean by blast
qed

text \<open>A port that does not parse is an error after a plain host and is ignored after a bracketed one.\<close>

lemma bracketed_garbage_port:
  "split_host_port (utf ''nats://host:notaport'') = None"
  "split_host_port (utf ''nats://[::1]:notaport'') = Some (utf ''::1'', 4222)"
  by (simp_all add: split_host_port_def utf_def rsplit_once_def u16_from_str_def Let_def)

subsection \<open>Sequence numbers\<close>

record SeqTracker =
  sq_last :: "u64 option"

datatype SeqVerdict = InOrder | Gap u64 | Regression

definition seq_observe :: "u64 \<Rightarrow> SeqTracker \<Rightarrow> SeqVerdict \<times> SeqTracker" where
  "seq_observe seq t =
     (case sq_last t of
        None \<Rightarrow> (InOrder, t\<lparr>sq_last := Some seq\<rparr>)
      | Some prev \<Rightarrow>
          if prev = - 1 \<or> seq < prev + 1 then (Regression, t)
          else let missing = seq - (prev + 1) in
            (if missing > 0 then Gap missing else InOrder, t\<lparr>sq_last := Some seq\<rparr>))"

subsection \<open>The observer\<close>

record Traffic =
  tr_per_type :: "EventType \<Rightarrow> u64"
  tr_control :: u64
  tr_events :: u64
  tr_unparsed :: u64
  tr_gaps :: u64
  tr_missing_seqs :: u64
  tr_regressions :: u64

record Observer =
  ob_traffic :: Traffic
  ob_control_seqs :: SeqTracker
  ob_event_seqs :: SeqTracker

definition Observer_new :: Observer where
  "Observer_new = \<lparr>ob_traffic = \<lparr>tr_per_type = (\<lambda>_. 0), tr_control = 0, tr_events = 0, tr_unparsed = 0, tr_gaps = 0,
     tr_missing_seqs = 0, tr_regressions = 0\<rparr>, ob_control_seqs = \<lparr>sq_last = None\<rparr>, ob_event_seqs = \<lparr>sq_last = None\<rparr>\<rparr>"

definition seqs :: "Channel \<Rightarrow> Observer \<Rightarrow> SeqTracker" where
  "seqs channel o' = (case channel of Control \<Rightarrow> ob_control_seqs o' | Event \<Rightarrow> ob_event_seqs o')"

definition set_seqs :: "Channel \<Rightarrow> SeqTracker \<Rightarrow> Observer \<Rightarrow> Observer" where
  "set_seqs channel t o' = (case channel of Control \<Rightarrow> o'\<lparr>ob_control_seqs := t\<rparr> | Event \<Rightarrow> o'\<lparr>ob_event_seqs := t\<rparr>)"

definition count_message :: "Channel \<Rightarrow> Envelope \<Rightarrow> Traffic \<Rightarrow> Traffic" where
  "count_message channel envelope t =
     (let t = (case channel of Control \<Rightarrow> t\<lparr>tr_control := tr_control t + 1\<rparr> | Event \<Rightarrow> t\<lparr>tr_events := tr_events t + 1\<rparr>) in
      t\<lparr>tr_per_type := (tr_per_type t)(env_event_type envelope := tr_per_type t (env_event_type envelope) + 1)\<rparr>)"

definition count_verdict :: "SeqVerdict \<Rightarrow> Traffic \<Rightarrow> Traffic" where
  "count_verdict verdict t =
     (case verdict of InOrder \<Rightarrow> t
      | Gap missing \<Rightarrow> t\<lparr>tr_gaps := tr_gaps t + 1, tr_missing_seqs := tr_missing_seqs t + missing\<rparr>
      | Regression \<Rightarrow> t\<lparr>tr_regressions := tr_regressions t + 1\<rparr>)"

definition observer_observe :: "('b \<Rightarrow> Envelope option) \<Rightarrow> Channel \<Rightarrow> 'b \<Rightarrow> Observer \<Rightarrow> Observer" where
  "observer_observe from_slice channel payload o' =
     (case from_slice payload of
        None \<Rightarrow> o'\<lparr>ob_traffic := (ob_traffic o')\<lparr>tr_unparsed := tr_unparsed (ob_traffic o') + 1\<rparr>\<rparr>
      | Some envelope \<Rightarrow>
          (case seq_observe (env_seq envelope) (seqs channel o') of (verdict, t) \<Rightarrow>
             (set_seqs channel t o')\<lparr>ob_traffic := count_verdict verdict (count_message channel envelope (ob_traffic o'))\<rparr>))"

fun observe_all :: "('b \<Rightarrow> Envelope option) \<Rightarrow> (Channel \<times> 'b) list \<Rightarrow> Observer \<Rightarrow> Observer" where
  "observe_all from_slice [] o' = o'"
| "observe_all from_slice ((channel, payload) # rest) o' = observe_all from_slice rest (observer_observe from_slice channel payload o')"

subsection \<open>A session without loss\<close>

text \<open>Which of the other channel's messages lie between the first and the last of a channel.\<close>

definition between :: "Channel \<Rightarrow> Channel list \<Rightarrow> Channel list" where
  "between c chs = dropWhile (\<lambda>x. x \<noteq> c) (rev (dropWhile (\<lambda>x. x \<noteq> c) (rev chs)))"

definition skipped :: "Channel \<Rightarrow> Channel list \<Rightarrow> nat" where
  "skipped c chs = length (filter (\<lambda>x. x \<noteq> c) (between c chs))"

text \<open>How many messages since the last one of a channel.\<close>

definition since :: "Channel \<Rightarrow> Channel list \<Rightarrow> nat" where
  "since c chs = length (takeWhile (\<lambda>x. x \<noteq> c) (rev chs))"

lemma between_snoc:
  "between c (chs @ [c]) = dropWhile (\<lambda>x. x \<noteq> c) chs @ [c]" "x \<noteq> c \<Longrightarrow> between c (chs @ [x]) = between c chs"
  by (induction chs) (simp_all add: between_def)

lemma dropWhile_rev_split: "chs = rev (dropWhile P (rev chs)) @ rev (takeWhile P (rev chs))"
  by (metis rev_append rev_rev_ident takeWhile_dropWhile_id)

lemma skipped_snoc:
  "skipped c (chs @ [c]) = (if c \<in> set chs then skipped c chs + since c chs else 0)"
  "x \<noteq> c \<Longrightarrow> skipped c (chs @ [x]) = skipped c chs"
proof -
  let ?P = "\<lambda>x. x \<noteq> c"
  let ?a = "rev (dropWhile ?P (rev chs))" and ?b = "rev (takeWhile ?P (rev chs))"
  have b: "filter ?P ?b = ?b" by (auto simp: filter_id_conv dest: set_takeWhileD)
  have "dropWhile ?P chs = dropWhile ?P ?a @ ?b" if "c \<in> set chs"
  proof -
    have "set chs = set ?a \<union> set ?b" by (subst dropWhile_rev_split [of chs ?P]) (simp only: set_append)
    moreover have "c \<notin> set ?b" by (auto dest: set_takeWhileD)
    ultimately have "c \<in> set ?a" using that by blast
    then have "dropWhile ?P (?a @ ?b) = dropWhile ?P ?a @ ?b" by (rule dropWhile_append1) simp
    then show ?thesis using dropWhile_rev_split [of chs ?P] by simp
  qed
  moreover have "filter ?P (dropWhile ?P chs) = []" if "c \<notin> set chs"
  proof -
    have none: "dropWhile ?P chs = []" using that by (auto simp: dropWhile_eq_Nil_conv)
    show ?thesis by (simp only: none filter.simps)
  qed
  ultimately show "skipped c (chs @ [c]) = (if c \<in> set chs then skipped c chs + since c chs else 0)"
    by (simp add: skipped_def between_snoc(1) since_def b) (simp add: between_def b)
  show "x \<noteq> c \<Longrightarrow> skipped c (chs @ [x]) = skipped c chs"
    by (simp add: skipped_def between_snoc(2))
qed

lemma since_snoc: "since c (chs @ [x]) = (if x = c then 0 else Suc (since c chs))"
  by (simp add: since_def)

lemma since_less: "c \<in> set chs \<Longrightarrow> since c chs < length chs"
proof -
  assume "c \<in> set chs"
  then have "takeWhile (\<lambda>x. x \<noteq> c) (rev chs) \<noteq> rev chs" by (metis (mono_tags, lifting) set_rev takeWhile_eq_all_conv)
  then show ?thesis
    unfolding since_def by (metis length_rev length_takeWhile_le le_neq_implies_less takeWhile_eq_take take_all)
qed

text \<open>What the tracker of a channel holds after the messages numbered from \<^verbatim>\<open>q\<close>.\<close>

definition tracked :: "u64 \<Rightarrow> Channel list \<Rightarrow> Channel \<Rightarrow> SeqTracker" where
  "tracked q chs c = \<lparr>sq_last = if c \<in> set chs then Some (q + of_nat (length chs - Suc (since c chs))) else None\<rparr>"

lemma u64_within:
  assumes "unat (q :: u64) + n < 2 ^ 64"
  shows "unat (q + of_nat n) = unat q + n"
proof -
  have "unat (of_nat n :: u64) = n" using assms by (simp add: unat_of_nat take_bit_nat_eq_self)
  then show ?thesis using assms by (subst unat_add_lem [THEN iffD1]) simp_all
qed

lemma seq_observe_next:
  assumes "unat q + length chs < 2 ^ 64"
  shows "seq_observe (q + of_nat (length chs)) (tracked q chs c)
    = (if c \<in> set chs \<and> since c chs > 0 then Gap (of_nat (since c chs)) else InOrder, tracked q (chs @ [c]) c)"
proof (cases "c \<in> set chs")
  case True
  let ?n = "length chs - Suc (since c chs)"
  have n: "?n + 1 + since c chs = length chs" using since_less [OF True] by simp
  have prev: "unat (q + of_nat ?n) = unat q + ?n" by (rule u64_within) (use assms in linarith)
  have nxt: "unat (q + of_nat ?n + 1) = unat q + ?n + 1"
    using u64_within [of q "?n + 1"] assms n by (simp add: algebra_simps)
  have cur: "unat (q + of_nat (length chs)) = unat q + length chs" using assms by (rule u64_within)
  have "q + of_nat ?n \<noteq> - 1"
  proof
    assume "q + of_nat ?n = - 1"
    then have "unat (q + of_nat ?n + 1) = 0" by simp
    with nxt show False by simp
  qed
  moreover have "\<not> q + of_nat (length chs) < q + of_nat ?n + 1" using n by (simp only: word_less_nat_alt nxt cur)
  moreover have m: "q + of_nat (length chs) - (q + of_nat ?n + 1) = of_nat (since c chs)"
    using arg_cong [OF n, of "of_nat :: nat \<Rightarrow> u64"] by (simp add: algebra_simps)
  moreover have "(of_nat (since c chs) :: u64) > 0 \<longleftrightarrow> since c chs > 0"
    using assms n by (simp add: word_less_nat_alt unat_of_nat take_bit_nat_eq_self)
  ultimately show ?thesis
    using True by (simp add: seq_observe_def tracked_def since_snoc Let_def)
qed (simp add: seq_observe_def tracked_def since_snoc)

lemma observe_all_append: "observe_all f (xs @ ys) o' = observe_all f ys (observe_all f xs o')"
  by (induction xs arbitrary: o') auto

text \<open>The report on a session in which nothing was lost or reordered.\<close>

definition report :: "u64 \<Rightarrow> (Channel \<times> Envelope) list \<Rightarrow> Observer \<Rightarrow> bool" where
  "report q msgs o' \<longleftrightarrow> (let chs = map fst msgs; t = ob_traffic o' in
     ob_control_seqs o' = tracked q chs Control \<and> ob_event_seqs o' = tracked q chs Event
     \<and> tr_control t = of_nat (count_list chs Control) \<and> tr_events t = of_nat (count_list chs Event)
     \<and> (\<forall>ty. tr_per_type t ty = of_nat (count_list (map (env_event_type \<circ> snd) msgs) ty))
     \<and> tr_unparsed t = 0 \<and> tr_regressions t = 0
     \<and> tr_missing_seqs t = of_nat (skipped Control chs + skipped Event chs))"

lemma skipped_none: "c \<notin> set chs \<Longrightarrow> skipped c chs = 0"
proof (induction chs rule: rev_induct)
  case (snoc x chs)
  then show ?case using skipped_snoc(2) [of x c chs] by auto
qed (simp add: skipped_def between_def)

lemma tracked_snoc: "x \<noteq> c \<Longrightarrow> tracked q (chs @ [x]) c = tracked q chs c"
  by (simp add: tracked_def since_snoc)

lemma report_snoc:
  assumes "report q msgs o'" "unat q + length msgs < 2 ^ 64" "env_seq env = q + of_nat (length msgs)"
    and "from_slice payload = Some env"
  shows "report q (msgs @ [(ch, env)]) (observer_observe from_slice ch payload o')"
proof -
  let ?chs = "map fst msgs"
  have "seqs ch o' = tracked q ?chs ch" using assms(1) by (cases ch) (simp_all add: report_def Let_def seqs_def)
  then have o: "seq_observe (env_seq env) (seqs ch o')
      = (if ch \<in> set ?chs \<and> since ch ?chs > 0 then Gap (of_nat (since ch ?chs)) else InOrder, tracked q (?chs @ [ch]) ch)"
    using seq_observe_next [of q ?chs ch] assms(2,3) by simp
  have since: "since ch ?chs = 0" if "\<not> (ch \<in> set ?chs \<and> since ch ?chs > 0)" "ch \<in> set ?chs" using that by simp
  show ?thesis
    using assms(1) since unfolding report_def observer_observe_def assms(4) option.case o
    by (cases ch) (auto simp: Let_def set_seqs_def count_message_def count_verdict_def tracked_snoc skipped_snoc skipped_none)
qed

lemma observer_reports:
  assumes "map env_seq (map snd msgs) = consecutive q (length msgs)" "unat q + length msgs \<le> 2 ^ 64"
    and "\<And>env. env \<in> set (map snd msgs) \<Longrightarrow> from_slice (to_vec env) = Some env"
  shows "report q msgs (observe_all from_slice (map (\<lambda>(ch, env). (ch, to_vec env)) msgs) Observer_new)"
  using assms
proof (induction msgs rule: rev_induct)
  case Nil
  show ?case by (simp add: report_def Observer_new_def tracked_def skipped_def between_def)
next
  case (snoc msg msgs)
  obtain ch env where msg: "msg = (ch, env)" by fastforce
  have c: "map env_seq (map snd msgs) = consecutive q (length msgs) \<and> env_seq env = q + of_nat (length msgs)"
    using snoc.prems(1) by (simp add: msg consecutive_def)
  have "report q msgs (observe_all from_slice (map (\<lambda>(ch, env). (ch, to_vec env)) msgs) Observer_new)"
    by (rule snoc.IH) (use c snoc.prems in auto)
  then show ?case
    using c snoc.prems(2) by (simp add: msg observe_all_append report_snoc snoc.prems(3))
qed

subsection \<open>Observing the agent\<close>

definition sent :: "Effect list \<Rightarrow> (Channel \<times> Envelope) list" where
  "sent log = List.map_filter (\<lambda>e. case e of Publish ch env \<Rightarrow> Some (ch, env) | _ \<Rightarrow> None) log"

lemma sent_published: "map snd (sent log) = published log"
proof (induction log)
  case (Cons e log)
  then show ?case by (cases e) (simp_all add: sent_def published_def map_filter_simps)
qed (simp add: sent_def map_filter_simps)

lemma sent_length: "length (sent log) = length (published log)"
  by (metis length_map sent_published)

text \<open>
  The observer counts a lossless session as lossy. The agent numbers both channels from one
  counter while the observer keeps one tracker per channel, so when every envelope of a run of the agent
  (any interleaving after a boot, at most the counter's range) reaches the observer in the order it was
  published and parses back, the summary has no unparsable message and no regression, the right totals
  per channel and type, and as many missing messages as there are control messages between the first
  and last event and events between the first and last control message.
\<close>

theorem observer_misreads_lossless_session:
  assumes "sessions_wf (sst_sessions (w_scope w))" "w_log w = []"
    and "boot (plugins b) (assemble b received try_send w) = (result, a)" "(agent_step b)\<^sup>*\<^sup>* a a'"
    and "msgs = sent (w_log (ag_world a'))" "unat (w_seq w) + length msgs \<le> 2 ^ 64"
    and "\<And>env. env \<in> set (map snd msgs) \<Longrightarrow> from_slice (to_vec env) = Some env"
  shows "report (w_seq w) msgs (observe_all from_slice (map (\<lambda>(ch, env). (ch, to_vec env)) msgs) Observer_new)"
proof (rule observer_reports)
  have "gapless (open_session_if_needed (session_manager_deps b) w) (ag_world a')"
    using agent_run_inv [OF assms(4) agent_boot_inv(2) [OF assms(1,3)]] by (simp add: agent_inv_def)
  then have "map env_seq (published (w_log (ag_world a'))) = consecutive (w_seq w) (length (published (w_log (ag_world a'))))"
    using assms(2) by (auto simp: gapless_def open_session_log)
  then show "map env_seq (map snd msgs) = consecutive (w_seq w) (length msgs)"
    unfolding assms(5) sent_published sent_length .
qed (use assms(6,7) in auto)

text \<open>A boot, a heartbeat, the user-actor arriving, another heartbeat: nothing is lost, two messages are reported missing.\<close>

definition quiet_session :: "Agent \<Rightarrow> Agent" where
  "quiet_session a = (let a = a\<lparr>ag_world := keepalive_tick (ag_world a)\<rparr>;
     a = a\<lparr>ag_world := publish_user_actor_started sample_client (utf ''0.1.0'') None (ag_world a)\<rparr> in
     a\<lparr>ag_world := keepalive_tick (ag_world a)\<rparr>)"

lemma quiet_session_runs: "(agent_step b)\<^sup>*\<^sup>* a (quiet_session a)"
  unfolding quiet_session_def Let_def
  by (rule rtranclp.rtrancl_into_rtrancl [OF rtranclp.rtrancl_into_rtrancl [OF r_into_rtranclp]])
    (rule agent_step.heartbeat agent_step.pipe_up)+

lemma quiet_session_sends:
  "map fst (sent (w_log (ag_world (quiet_session a)))) = map fst (sent (w_log (ag_world a))) @ [Control, Event, Control]"
  by (simp add: quiet_session_def Let_def keepalive_tick_def publish_user_actor_started_def now_ms_def effect_simps sample_client_def
        sent_def map_filter_def split: prod.splits)

lemma second_boot_sends:
  "map fst (sent (w_log (snd (smp_start (session_manager_deps build0) SessionManagerPlugin_new
     (open_session_if_needed (session_manager_deps build0) world0))))) = [Event, Event]"
  by (simp add: smp_start_def open_session_if_needed_def world0_def opened_def new_session_def current_session_def
        last_opt_def update_current_def update_last_def now_ms_def apply_study_start_timestamp_def Let_def effect_simps
        session_manager_deps_def build0_def sent_def map_filter_simps)

theorem observer_misreads_lossless_session_witness:
  "tr_missing_seqs (ob_traffic (observe_all Some (sent (w_log (ag_world (quiet_session
     (snd (boot (plugins build0) (assemble build0 (\<lambda>_. []) (\<lambda>_. SendOk) world0))))))) Observer_new)) = 2"
proof -
  let ?r = "boot (plugins build0) (assemble build0 (\<lambda>_. []) (\<lambda>_. SendOk) world0)"
  let ?s = "smp_start (session_manager_deps build0) SessionManagerPlugin_new (open_session_if_needed (session_manager_deps build0) world0)"
  let ?m = "sent (w_log (ag_world (quiet_session (snd ?r))))"
  have pre: "sessions_wf (sst_sessions (w_scope world0))" "w_log world0 = []" "w_seq world0 = 0"
    by (simp_all add: world0_def opened_def sessions_wf_def session_wf_def new_session_def u32_try_from_def)
  have boots: "?r = (fst ?r, snd ?r)" "?s = (fst ?s, snd ?s)" by simp_all
  from agent_boots [OF boots(2), of "\<lambda>_. []" "\<lambda>_. SendOk"] have "ag_world (snd ?r) = snd ?s" by auto
  then have chs: "map fst ?m = [Event, Event, Control, Event, Control]"
    by (simp only: quiet_session_sends second_boot_sends append.simps)
  have "length (map fst ?m) = 5" unfolding chs by simp
  then have "length ?m = 5" by (simp only: length_map)
  then have "report 0 ?m (observe_all Some (map (\<lambda>(ch, env). (ch, id env)) ?m) Observer_new)"
    using observer_misreads_lossless_session [OF pre(1,2) boots(1) quiet_session_runs refl, where to_vec = id and from_slice = Some] pre(3)
    by simp
  then show ?thesis unfolding report_def chs Let_def by (simp add: skipped_def between_def)
qed

end
