(* ===== verification/Study.thy ===== *)
theory Study
  imports Agent Scope_Store
begin

text \<open>
  A whole study of the assembled agent over its boots, as the simulation of the developer tools drives it
  (\<^verbatim>\<open>crates/devtools/src/bin/session-sim.rs\<close>, \<^verbatim>\<open>scope_store/memory.rs\<close>): every boot loads what the previous ones
  persisted, opens a session and runs under any interleaving until it has finalized or loses power.
\<close>

subsection \<open>What a boot leaves behind\<close>

text \<open>The saves and the requests to the platform among the effects.\<close>

datatype mark = Saved ScopeState | Requested EventType

definition mark_of :: "Effect \<Rightarrow> mark option" where
  "mark_of e = (case e of SaveScope st \<Rightarrow> Some (Saved st)
     | Publish ch env \<Rightarrow> if ch = Control \<and> env_event_type env \<in> {EventType.StudyRebootRequested, EventType.StudyShutdownRequested}
         then Some (Requested (env_event_type env)) else None
     | _ \<Rightarrow> None)"

definition trail :: "World \<Rightarrow> mark list" where
  "trail w = List.map_filter mark_of (w_log w)"

text \<open>What stays of a scope state during a boot: the study, the earlier sessions, and whether the current
  one counts as abandoned.\<close>

definition base_of :: "ScopeState \<Rightarrow> Uuid \<times> SessionRecord list \<times> bool option" where
  "base_of st = (sst_study_id st, butlast (sst_sessions st), map_option ses_abandoned (current_session st))"

definition view :: "World \<Rightarrow> (Uuid \<times> SessionRecord list \<times> bool option) \<times> mark list" where
  "view w = (base_of (w_scope w), trail w)"

lemma trail_simps [effect_simps]:
  "trail (perform e w) = trail w @ (case mark_of e of None \<Rightarrow> [] | Some n \<Rightarrow> [n])"
  "trail (send ch mk w) = trail w @ (case mark_of (Publish ch (mk (w_seq w))) of None \<Rightarrow> [] | Some n \<Rightarrow> [n])"
  "trail (w\<lparr>w_scope := st\<rparr>) = trail w" "trail (w\<lparr>w_reads := n\<rparr>) = trail w" "trail (w\<lparr>w_calls := n\<rparr>) = trail w"
  by (simp_all add: trail_def effect_simps map_filter_def split: option.split)

lemma mark_of_simps [simp]:
  "mark_of (Publish Event env) = None"
  "mark_of (Publish Control env) = (if env_event_type env \<in> {EventType.StudyRebootRequested, EventType.StudyShutdownRequested}
     then Some (Requested (env_event_type env)) else None)"
  "mark_of (BusPublish ev) = None" "mark_of (SetUnixMs t) = None" "mark_of (KillByImageNames ns) = None"
  "mark_of (SaveScope st) = Some (Saved st)" "mark_of (SleepSecs n) = None" "mark_of FinalizeDone = None"
  "mark_of (CreateDirAll p) = None" "mark_of (CreateNew p) = None" "mark_of (WriteFile p bs) = None" "mark_of (RemoveFile p) = None"
  "mark_of (RenameFile p q) = None" "mark_of (Upload x1 x2 x3 x4 x5 x6) = None" "mark_of (Launch l) = None"
  by (simp_all add: mark_of_def)

lemma view_simps [simp]:
  "mark_of e = None \<Longrightarrow> view (perform e w) = view w" "view (send Event mk w) = view w"
  "view (w\<lparr>w_reads := n\<rparr>) = view w" "view (w\<lparr>w_calls := n\<rparr>) = view w"
  "base_of st = base_of (w_scope w) \<Longrightarrow> view (w\<lparr>w_scope := st\<rparr>) = view w"
  by (simp_all add: view_def effect_simps)

lemma base_of_update:
  "(\<And>s. ses_abandoned (f s) = ses_abandoned s) \<Longrightarrow> base_of (update_current f st) = base_of st"
  by (cases "sst_sessions st" rule: rev_cases)
    (simp_all add: base_of_def update_current_def update_last_def current_session_def last_opt_def)

lemma base_of_scope_ops [simp]:
  "base_of (snd (process_entered lc trk st pdata now)) = base_of st"
  "base_of (snd (process_exited st sdata now)) = base_of st"
  "base_of (snd (drop_observed lc st fdata fltr)) = base_of st"
  by (auto simp: process_entered_def process_exited_def drop_observed_def Let_def base_of_update split: option.splits)

lemma base_of_results:
  "process_entered lc trk st pdata now = (x, st') \<Longrightarrow> base_of st' = base_of st"
  "process_exited st sdata now = (y, st') \<Longrightarrow> base_of st' = base_of st"
  "drop_observed lc st fdata fltr = (z, st') \<Longrightarrow> base_of st' = base_of st"
  using base_of_scope_ops by (metis snd_conv)+

lemma view_arms:
  "view (on_process_started lc sdata p w) = view w" "view (on_process_stopped tdata w) = view w"
  "view (on_file_written lc wdata p w) = view w" "view (on_behavior_call bdata w) = view w"
  "view (snd (on_file_released rdata p w)) = view w"
  by (auto simp: on_process_started_def on_process_stopped_def on_file_written_def on_behavior_call_def on_file_released_def
      now_ms_def Let_def effect_simps view_def dest: base_of_results split: prod.splits option.splits)

lemma view_tracker: "view (snd (stp_pre lc input p w)) = view w"
proof -
  have "view (snd (handle_source lc source q w)) = view (snd (q, w))" for source q
    by (rule handle_source_rule [where R = "\<lambda>s s'. view (snd s') = view (snd s)"]) (simp_all add: view_arms)
  then show ?thesis by (auto simp: stp_pre_def Let_def split: option.splits)
qed

lemma view_keepalive: "view (keepalive_tick w) = view w"
  by (simp add: keepalive_tick_def now_ms_def view_def effect_simps split: prod.splits)

lemma view_reports:
  "view (reporter_pre verbosity ev w) = view w" "view (publish_bus_event bev w) = view w"
  "view (snd (snd (sip_pre en sconfig outcome ev si w))) = view w" "view (launch_flow resolve config loutcome w) = view w"
  "view (publish_user_actor_started s version pid w) = view w" "view (publish_user_actor_stopped s why w) = view w"
  "view (process_frame sconfig fio job w) = view w"
  by (auto simp: reporter_pre_def publish_bus_event_def sip_pre_def launch_flow_def publish_user_actor_started_def
        publish_user_actor_stopped_def process_frame_def stage_frame_def now_ms_def Let_def
      split: SandboxEvent.splits AgentBusEvent.splits option.splits prod.splits sum.splits)

lemma view_collect_drop: "view (snd (collect_drop sha256 config io source inner w)) = view w"
proof -
  obtain study session where i: "identity (w_scope w) = (study, session)" by fastforce
  obtain r inner' w' where p: "persist_copy sha256 config io source session inner w = (r, inner', w')"
    by (cases "persist_copy sha256 config io source session inner w") auto
  have "view w' = view w"
    using p by (auto simp: persist_copy_def copy_capped_def Let_def simp del: utf_Cons split: if_splits option.splits prod.splits)
  then show ?thesis
    by (auto simp: collect_drop_def i p report_and_upload_def now_ms_def Let_def split: option.splits)
qed

lemma view_bus_list: "view (fold (\<lambda>e. perform (BusPublish e)) out w) = view w"
  by (induction out arbitrary: w) simp_all

subsection \<open>The session manager\<close>

definition request_of :: "SessionManagerDeps \<Rightarrow> nat \<Rightarrow> EventType" where
  "request_of deps count = (if smd_uptimes deps = [] \<or> length (smd_uptimes deps) \<le> count
     then EventType.StudyShutdownRequested else EventType.StudyRebootRequested)"

lemma finalize_trail:
  assumes "\<not> smp_finalized p" "current_session (w_scope w) = Some session"
  shows "view (snd (finalize_session lc deps reason p w)) = (base_of (w_scope w), trail w
     @ Saved (update_current (close_session (w_clock w (w_reads w))) (w_scope w))
     # (if smd_skip_reboot_and_shutdown deps then [] else [Requested (request_of deps (length (sst_sessions (w_scope w))))]))"
  using assms
  by (simp add: view_def finalize_session_def finalize_tail_def publish_finalize_reports_def shift_clock_at_finalize_def
      kill_helpers_def save_scope_def request_reboot_or_shutdown_def request_of_def now_ms_def ask_def Let_def effect_simps
      base_of_update close_session_def)

text \<open>What a boot has told the outside: saves of the same study, with the earlier sessions as they were, and,
  once finalized, at last a closed session and one request.\<close>

definition told :: "SessionManagerDeps \<Rightarrow> Uuid \<times> SessionRecord list \<Rightarrow> bool
    \<Rightarrow> (Uuid \<times> SessionRecord list \<times> bool option) \<times> mark list \<Rightarrow> bool" where
  "told deps known finalized v \<longleftrightarrow> fst v = (fst known, snd known, Some False)
     \<and> (\<exists>sts. (\<forall>st \<in> set sts. base_of st = fst v)
         \<and> (if finalized then sts \<noteq> [] \<and> map_option ses_ended_at_ms (current_session (last sts)) \<noteq> Some None
              \<and> snd v = map Saved sts @ (if smd_skip_reboot_and_shutdown deps then [] else [Requested (request_of deps (Suc (length (snd known))))])
            else snd v = map Saved sts))"

lemma base_of_SomeD:
  assumes "base_of st = (study, old, Some abandoned)"
  obtains session where "sst_sessions st = old @ [session]" "current_session st = Some session" "ses_abandoned session = abandoned"
    "sst_study_id st = study"
  using assms by (cases "sst_sessions st" rule: rev_cases) (auto simp: base_of_def current_session_def last_opt_def)

lemma told_save:
  "told deps known False (view w) \<Longrightarrow> told deps known False (view (perform (SaveScope (w_scope w)) w))"
  by (auto simp: told_def view_def effect_simps) (metis (no_types, lifting) Un_iff empty_iff insert_iff list.set(1,2) map_append list.map set_append)

lemma told_finalize:
  assumes "\<not> smp_finalized p" "told deps known False (view w)"
  shows "told deps known True (view (snd (finalize_session lc deps reason p w)))" "smp_finalized (fst (finalize_session lc deps reason p w))"
proof -
  have base: "base_of (w_scope w) = (fst known, snd known, Some False)" using assms(2) by (simp add: told_def view_def)
  then obtain session where s: "sst_sessions (w_scope w) = snd known @ [session]" "current_session (w_scope w) = Some session"
    by (rule base_of_SomeD)
  let ?now = "w_clock w (w_reads w)"
  let ?st = "update_current (close_session ?now) (w_scope w)"
  have st: "base_of ?st = base_of (w_scope w)" "map_option ses_ended_at_ms (current_session ?st) = Some (Some ?now)"
    by (simp_all add: base_of_update close_session_def scope_simps s)
  obtain sts where sts: "\<forall>st \<in> set sts. base_of st = base_of (w_scope w)" "trail w = map Saved sts"
    using assms(2) by (auto simp: told_def view_def)
  show "told deps known True (view (snd (finalize_session lc deps reason p w)))"
    unfolding told_def finalize_trail [OF assms(1) s(2)]
    using sts st base by (auto simp: s(1) intro!: exI [of _ "sts @ [?st]"])
  show "smp_finalized (fst (finalize_session lc deps reason p w))"
    using assms(1) by (simp add: finalize_session_def Let_def split: prod.splits option.splits)
qed

lemma finalized_stays: "smp_finalized p \<Longrightarrow> finalize_session lc deps reason p w = (p, w)"
  by (simp add: finalize_session_def)

lemma told_session:
  assumes "told deps known (smp_finalized p) (view w)"
  shows "case smp_pre lc deps ev p w of (p', w') \<Rightarrow> told deps known (smp_finalized p') (view w')"
    and "case smp_consume lc deps bev p w of (p', w') \<Rightarrow> told deps known (smp_finalized p') (view w')"
proof -
  have fin: "told deps known (smp_finalized (fst (finalize_session lc deps reason p w))) (view (snd (finalize_session lc deps reason p w)))" for reason
    using assms told_finalize [of p deps known w lc reason] by (cases "smp_finalized p") (simp_all add: finalized_stays)
  show "case smp_pre lc deps ev p w of (p', w') \<Rightarrow> told deps known (smp_finalized p') (view w')"
    using assms fin [of Deadline] fin [of InboundRequest] by (cases ev) (auto simp: smp_pre_def told_save split: prod.splits)
  show "case smp_consume lc deps bev p w of (p', w') \<Rightarrow> told deps known (smp_finalized p') (view w')"
    using assms fin [of DeadScope] by (cases bev) (auto simp: smp_consume_def split: prod.splits)
qed

subsection \<open>A boot of the assembled agent\<close>

definition boot_inv :: "AgentBuild \<Rightarrow> Uuid \<times> SessionRecord list \<Rightarrow> Agent \<Rightarrow> bool" where
  "boot_inv b known a \<longleftrightarrow> told (session_manager_deps b) known (smp_finalized (ag_session a)) (view (ag_world a))"

lemma boot_inv_quiet:
  "boot_inv b known a \<Longrightarrow> ag_session a' = ag_session a \<Longrightarrow> view (ag_world a') = view (ag_world a) \<Longrightarrow> boot_inv b known a'"
  by (simp add: boot_inv_def)

lemma boot_inv_hooks:
  assumes "boot_inv b known a"
  shows "boot_inv b known (snd (session_manager_pre b ev a))" "boot_inv b known (snd (tracker_pre b ev a))"
    "boot_inv b known (snd (event_reporter_pre b ev a))" "boot_inv b known (snd (screenshot_pre b ev a))"
    "boot_inv b known (snd (target_launcher_pre b ev a))" "boot_inv b known (snd (supervisor_pre b ev a))"
    "boot_inv b known (snd (statistics_plugin_pre ev a))"
proof -
  show "boot_inv b known (snd (session_manager_pre b ev a))"
    using told_session(1) [OF assms [unfolded boot_inv_def], of "ab_lc b" ev]
    by (auto simp: session_manager_pre_def boot_inv_def split: prod.splits)
  show "boot_inv b known (snd (tracker_pre b ev a))"
    using assms view_tracker [of "ab_lc b" "(ag_received a (ag_drains a), ev)" "ag_tracker a" "ag_world a"]
    by - (erule boot_inv_quiet, auto simp: tracker_pre_def split: prod.splits)
  show "boot_inv b known (snd (screenshot_pre b ev a))"
    using assms view_reports(3) [of "ua_screencapture (ac_user_actor (ab_config b))" "ac_screenshots (ab_config b)"
        "ag_try_send a (ag_sends a)" ev "ag_intake a" "ag_world a"]
    by - (erule boot_inv_quiet, auto simp: screenshot_pre_def split: prod.splits)
qed (use assms in \<open>simp_all add: boot_inv_def event_reporter_pre_def view_reports target_launcher_pre_def supervisor_pre_def
      statistics_plugin_pre_def\<close>)

lemma boot_inv_middleware:
  assumes "m \<in> set (middleware b)" "boot_inv b known a"
  shows "boot_inv b known (snd (snd (mw_pre m ev a)))" "boot_inv b known (snd (mw_post m ev a))"
  using assms by (auto simp: middleware_def boot_inv_hooks simp del: utf_Cons)

interpretation study_pipeline: pipeline_invariant "middleware b" "boot_inv b known" for b known
  by unfold_locales (metis boot_inv_middleware snd_conv)+

lemma boot_inv_step: "agent_step b a a' \<Longrightarrow> boot_inv b known a \<Longrightarrow> boot_inv b known a'"
proof (induction rule: agent_step.induct)
  case (session_bus ev a)
  then show ?case
    using told_session(2) [of "session_manager_deps b" known "ag_session a" "ag_world a" "ab_lc b" ev]
    by (auto simp: session_consumes_def boot_inv_def split: prod.splits)
next
  case (collector_job source a io)
  then show ?case
    using view_collect_drop [of "ab_sha256 b" "ac_drops (ab_config b)" io source "ag_collector a" "ag_world a"]
    by (auto simp: collector_works_def boot_inv_def split: prod.splits)
next
  case (supervisor_job spec a outcome)
  then show ?case by (auto simp: supervisor_works_def launch_job_def boot_inv_def split: prod.splits option.splits)
qed (auto simp: study_pipeline.accept_keeps, auto simp: boot_inv_def view_reports view_keepalive view_bus_list reporter_consumes_def
      statistics_consumes_def scoring_consumes_def collector_consumes_def intake_works_def launcher_works_def
      split: AgentBusEvent.splits prod.splits option.splits)

lemma boot_inv_run: "(agent_step b)\<^sup>*\<^sup>* a a' \<Longrightarrow> boot_inv b known a \<Longrightarrow> boot_inv b known a'"
  by (induction rule: rtranclp_induct) (simp_all add: boot_inv_step)

text \<open>The sessions a boot starts from: the last one is stamped when it was left open.\<close>

definition earlier :: "World \<Rightarrow> SessionRecord list" where
  "earlier w = update_last (stamp_abandoned (w_clock w (w_reads w))) (sst_sessions (w_scope w))"

lemma earlier_ended:
  "list_all (\<lambda>s. ses_ended_at_ms s \<noteq> None \<and> \<not> ses_abandoned s) (sst_sessions (w_scope w)) \<Longrightarrow> earlier w = sst_sessions (w_scope w)"
  by (cases "sst_sessions (w_scope w)" rule: rev_cases) (simp_all add: earlier_def stamp_abandoned_def)

lemma view_start: "view (snd (smp_start deps p w)) = view w"
  by (auto simp: smp_start_def apply_study_start_timestamp_def now_ms_def ask_def Let_def split: option.splits)

lemma SessionManagerPlugin_new_fresh: "\<not> smp_finalized SessionManagerPlugin_new"
  by (simp add: SessionManagerPlugin_new_def)

lemma boot_inv_boot:
  assumes "w_log w = []" "boot (plugins b) (assemble b received try_send w) = (result, a)"
  shows "boot_inv b (sst_study_id (w_scope w), earlier w) a"
proof -
  let ?d = "session_manager_deps b" and ?w = "open_session_if_needed (session_manager_deps b) w"
  obtain p w' where start: "smp_start ?d SessionManagerPlugin_new ?w = (p, w')" by fastforce
  from agent_boots [OF this, of received try_send] assms(2) have a: "ag_world a = w'" by simp
  have "ag_session a = p"
    using start assms(2) by (simp add: boot_def plugins_def plugin_defs default_hook_def assemble_def Let_def del: utf_Cons) auto
  moreover have "smp_finalized (fst (smp_start d q v)) = smp_finalized q" for d q v
    by (simp add: smp_start_def Let_def split: option.splits prod.splits)
  ultimately have p: "\<not> smp_finalized (ag_session a)" using start by (metis fst_conv SessionManagerPlugin_new_fresh)
  have "view w' = view ?w" using view_start [of ?d SessionManagerPlugin_new ?w] start by simp
  moreover have "base_of (w_scope ?w) = (sst_study_id (w_scope w), earlier w, Some False)"
    by (simp add: base_of_def current_session_def open_session_sessions earlier_def) (simp add: new_session_def open_session_if_needed_def now_ms_def Let_def scope_simps split: option.splits)
  moreover have "trail ?w = []" using assms(1) by (simp add: trail_def open_session_log map_filter_simps)
  ultimately show ?thesis using p by (simp add: boot_inv_def told_def view_def a)
qed

lemma accept_deadline_finalizes: "smp_finalized (ag_session (accept (middleware b) SessionDeadline a))"
proof -
  have "smp_finalized (fst (finalize_session lc deps reason p w))" for lc deps reason p w
    by (auto simp: finalize_session_def Let_def split: prod.splits option.splits)
  then have "smp_finalized (ag_session (snd (session_manager_pre b SessionDeadline a)))"
    by (auto simp: session_manager_pre_def smp_pre_def split: prod.splits) (metis fst_conv)
  then show ?thesis
    by (auto simp: accept_def middleware_def observer_def default_post_def tracker_pre_def event_reporter_pre_def screenshot_pre_def
      target_launcher_pre_def supervisor_pre_def statistics_plugin_pre_def simp del: utf_Cons split: prod.splits)
qed

subsection \<open>The study\<close>

text \<open>The in-memory repository: what was saved last, or what was there.\<close>

definition memory_save :: "ScopeState \<Rightarrow> ScopeState \<Rightarrow> ScopeState" where
  "memory_save state repo = state"

definition memory_load :: "ScopeState \<Rightarrow> 'e + ScopeState" where
  "memory_load repo = Inr repo"

definition persisted :: "mark list \<Rightarrow> ScopeState \<Rightarrow> ScopeState" where
  "persisted ms repo = fold (\<lambda>m repo. case m of Saved st \<Rightarrow> memory_save st repo | Requested _ \<Rightarrow> repo) ms repo"

definition requests :: "mark list \<Rightarrow> EventType list" where
  "requests ms = List.map_filter (\<lambda>m. case m of Requested t \<Rightarrow> Some t | Saved _ \<Rightarrow> None) ms"

text \<open>
  A study: the repository, the requests so far, how many boots finalized and how many lost power. Each boot
  runs on what was persisted, over any clock and any answers of the ports, under any interleaving.
\<close>

inductive study :: "AgentBuild \<Rightarrow> ScopeState \<Rightarrow> EventType list \<Rightarrow> nat \<Rightarrow> nat \<Rightarrow> bool" for b where
  begins: "study b ScopeState_default [] 0 0"
| boots: "study b repo rs n m \<Longrightarrow> load_scope_state (memory_load repo :: unit + ScopeState) fresh = Inr (w_scope w)
    \<Longrightarrow> w_log w = [] \<Longrightarrow> boot (plugins b) (assemble b received try_send w) = (result, a) \<Longrightarrow> (agent_step b)\<^sup>*\<^sup>* a a'
    \<Longrightarrow> repo' = persisted (trail (ag_world a')) repo \<Longrightarrow> rs' = rs @ requests (trail (ag_world a'))
    \<Longrightarrow> n' = (if smp_finalized (ag_session a') then Suc n else n)
    \<Longrightarrow> m' = (if smp_finalized (ag_session a') then m else Suc m)
    \<Longrightarrow> study b repo' rs' n' m'"

lemma persisted_saves: "persisted (map Saved sts) repo = (if sts = [] then repo else last sts)"
  by (induction sts arbitrary: repo) (simp_all add: persisted_def memory_save_def)

lemma requests_saves: "requests (map Saved sts @ ms) = requests ms"
  by (induction sts) (simp_all add: requests_def map_filter_simps)

text \<open>The effect of one boot on the repository and the requests.\<close>

lemma boot_result:
  assumes "load_scope_state (memory_load repo :: unit + ScopeState) fresh = Inr (w_scope w)" "w_log w = []"
    and "boot (plugins b) (assemble b received try_send w) = (result, a)" "(agent_step b)\<^sup>*\<^sup>* a a'"
    and "\<not> smd_skip_reboot_and_shutdown (session_manager_deps b)"
  defines "repo' \<equiv> persisted (trail (ag_world a')) repo"
  shows "requests (trail (ag_world a')) = (if smp_finalized (ag_session a')
           then [request_of (session_manager_deps b) (Suc (length (sst_sessions repo)))] else [])"
    and "(repo' = repo \<and> \<not> smp_finalized (ag_session a')) \<or> (\<exists>session. sst_sessions repo' = earlier w @ [session] \<and> \<not> ses_abandoned session
           \<and> (smp_finalized (ag_session a') \<longrightarrow> ses_ended_at_ms session \<noteq> None))"
    and "length (earlier w) = length (sst_sessions repo)" "sst_sessions (w_scope w) = sst_sessions repo"
proof -
  show loaded: "sst_sessions (w_scope w) = sst_sessions repo"
    using assms(1) by (auto simp: load_scope_state_def bind_r_def memory_load_def split: if_splits dest!: sym [of _ "w_scope w"])
  then show len: "length (earlier w) = length (sst_sessions repo)" by (simp add: earlier_def)
  let ?d = "session_manager_deps b" and ?f = "smp_finalized (ag_session a')"
  have "told ?d (sst_study_id (w_scope w), earlier w) ?f (view (ag_world a'))"
    using boot_inv_run [OF assms(4) boot_inv_boot [OF assms(2,3)]] by (simp add: boot_inv_def)
  then obtain sts where sts: "\<forall>st \<in> set sts. base_of st = (sst_study_id (w_scope w), earlier w, Some False)"
    and t: "trail (ag_world a') = map Saved sts @ (if ?f then [Requested (request_of ?d (Suc (length (sst_sessions repo))))] else [])"
    and c: "?f \<Longrightarrow> sts \<noteq> [] \<and> map_option ses_ended_at_ms (current_session (last sts)) \<noteq> Some None"
    using assms(5) by (auto simp: told_def view_def len split: if_splits)
  show "requests (trail (ag_world a')) = (if ?f then [request_of ?d (Suc (length (sst_sessions repo)))] else [])"
    unfolding t requests_saves by (simp add: requests_def map_filter_simps)
  have r: "repo' = (if sts = [] then repo else last sts)"
    unfolding repo'_def t using persisted_saves [of sts repo] by (simp add: persisted_def)
  show "(repo' = repo \<and> \<not> ?f) \<or> (\<exists>session. sst_sessions repo' = earlier w @ [session] \<and> \<not> ses_abandoned session
           \<and> (?f \<longrightarrow> ses_ended_at_ms session \<noteq> None))"
  proof (cases "sts = []")
    case False
    then have "base_of (last sts) = (sst_study_id (w_scope w), earlier w, Some False)" using sts by simp
    then show ?thesis using c False unfolding r by (elim base_of_SomeD) auto
  qed (use c r in auto)
qed

lemma study_plan:
  assumes "study b repo rs n m" "\<not> smd_skip_reboot_and_shutdown (session_manager_deps b)"
  shows "\<exists>ks. rs = map (request_of (session_manager_deps b)) ks \<and> length ks = n \<and> sorted_wrt (<) ks
     \<and> list_all (\<lambda>k. k \<le> length (sst_sessions repo)) ks \<and> n \<le> length (sst_sessions repo) \<and> length (sst_sessions repo) \<le> n + m
     \<and> (m = 0 \<longrightarrow> ks = [1..<Suc n] \<and> list_all (\<lambda>s. ses_ended_at_ms s \<noteq> None \<and> \<not> ses_abandoned s) (sst_sessions repo))"
  using assms(1)
proof (induction rule: study.induct)
  case begins
  show ?case by (simp add: ScopeState_default_def)
next
  case (boots repo rs n m fresh w received try_send result a a' repo' rs' n' m')
  note res = boot_result [OF boots.hyps(2,3,4,5) assms(2), folded boots.hyps(6)]
  obtain ks where ks: "rs = map (request_of (session_manager_deps b)) ks" "length ks = n" "sorted_wrt (<) ks"
    "list_all (\<lambda>k. k \<le> length (sst_sessions repo)) ks" "n \<le> length (sst_sessions repo)" "length (sst_sessions repo) \<le> n + m"
    "m = 0 \<Longrightarrow> ks = [1..<Suc n] \<and> list_all (\<lambda>s. ses_ended_at_ms s \<noteq> None \<and> \<not> ses_abandoned s) (sst_sessions repo)"
    using boots.IH by auto
  show ?case
  proof (cases "smp_finalized (ag_session a')")
    case True
    then obtain session where s: "sst_sessions repo' = earlier w @ [session]" "\<not> ses_abandoned session" "ses_ended_at_ms session \<noteq> None"
      using res(2) by auto
    let ?k = "Suc (length (sst_sessions repo))"
    have "earlier w = sst_sessions repo" if "m = 0" using ks(7) [OF that] earlier_ended [of w] by (simp add: res(4))
    then show ?thesis
      using True ks res(1,3) s boots.hyps(7,8,9)
      by (intro exI [of _ "ks @ [?k]"]) (auto simp: sorted_wrt_append list_all_iff)
  next
    case False
    then show ?thesis
      using ks res(1,2,3) boots.hyps(7,8,9) by (intro exI [of _ ks]) (auto simp: list_all_iff)
  qed
qed


text \<open>A first boot that finalizes at its deadline, of a plan of one session.\<close>

definition build1 :: AgentBuild where
  "build1 = build0\<lparr>ab_config := AgentConfig_default\<lparr>ac_study := StudyConfig_default\<lparr>sy_uptimes := [600]\<rparr>\<rparr>\<rparr>"


subsection \<open>The simulation\<close>

definition sim_config :: "nat \<Rightarrow> AgentConfig" where
  "sim_config sessions = AgentConfig_default\<lparr>ac_target := TargetConfig_default\<lparr>tg_path := win ''C:/Targets/evil.exe'', tg_every_session := True\<rparr>,
     ac_study := StudyConfig_default\<lparr>sy_uptimes := replicate sessions 6000\<rparr>,
     ac_drops := DropsConfig_default\<lparr>drp_extensions := [utf ''.txt'']\<rparr>\<rparr>"

definition sim_process :: "nat \<Rightarrow> ProcessStartedData" where
  "sim_process n = \<lparr>ps_pid = 1000 + of_nat n, ps_parent_pid = None, ps_name = utf ''evil.exe'', ps_image_path = None,
     ps_command_line = None, ps_os_session_id = Some 1\<rparr>"

text \<open>One boot: the target starts, the deadline passes, the kernel shuts down; the tasks run at any of the
  points where the simulation waits.\<close>

inductive simulation :: "AgentBuild \<Rightarrow> ScopeState \<Rightarrow> EventType list \<Rightarrow> nat \<Rightarrow> bool" for b where
  start: "simulation b ScopeState_default [] 0"
| turn: "simulation b repo control_requests n \<Longrightarrow> load_scope_state (memory_load repo :: unit + ScopeState) fresh = Inr (w_scope w)
    \<Longrightarrow> w_log w = [] \<Longrightarrow> w_clock w = (\<lambda>_. 1465182366000 + of_nat n * 6000000)
    \<Longrightarrow> boot (plugins b) (assemble b received try_send w) = (Inr (), a)
    \<Longrightarrow> (agent_step b)\<^sup>*\<^sup>* (accept (middleware b) (Source (SourceEvent.ProcessStarted (sim_process n))) a) a'
    \<Longrightarrow> (agent_step b)\<^sup>*\<^sup>* (accept (middleware b) SessionDeadline a') a''
    \<Longrightarrow> simulation b (persisted (trail (ag_world (shutdown (plugins b) a''))) repo)
          (control_requests @ requests (trail (ag_world (shutdown (plugins b) a'')))) (Suc n)"

lemma shutdown_world: "ag_world (shutdown (plugins b) a) = ag_world a"
  by (simp add: shutdown_def plugins_def plugin_defs default_hook_def del: utf_Cons)

lemma finalized_session:
  assumes "smp_finalized p"
  shows "smp_finalized (fst (smp_pre lc deps ev p w))" "smp_finalized (fst (smp_consume lc deps bev p w))"
  using assms by (cases ev; simp add: smp_pre_def finalized_stays) (cases bev; simp add: smp_consume_def finalized_stays assms)

lemma finalized_middleware:
  assumes "m \<in> set (middleware b)" "smp_finalized (ag_session a)"
  shows "smp_finalized (ag_session (snd (snd (mw_pre m ev a))))" "smp_finalized (ag_session (snd (mw_post m ev a)))"
proof -
  have "smp_finalized (ag_session (snd (session_manager_pre b ev a)))"
    using finalized_session(1) [OF assms(2), of "ab_lc b" "session_manager_deps b" ev "ag_world a"]
    by (auto simp: session_manager_pre_def split: prod.splits)
  then show "smp_finalized (ag_session (snd (snd (mw_pre m ev a))))" "smp_finalized (ag_session (snd (mw_post m ev a)))"
    using assms by (auto simp: middleware_def tracker_pre_def event_reporter_pre_def screenshot_pre_def target_launcher_pre_def
        supervisor_pre_def statistics_plugin_pre_def simp del: utf_Cons split: prod.splits)
qed

interpretation finalized_pipeline: pipeline_invariant "middleware b" "\<lambda>a. smp_finalized (ag_session a)" for b
  by unfold_locales (metis finalized_middleware snd_conv)+

lemma finalized_step: "agent_step b a a' \<Longrightarrow> smp_finalized (ag_session a) \<Longrightarrow> smp_finalized (ag_session a')"
proof (induction rule: agent_step.induct)
  case (session_bus ev a)
  then show ?case
    using finalized_session(2) [of "ag_session a" "ab_lc b" "session_manager_deps b" ev "ag_world a"]
    by (auto simp: session_consumes_def split: prod.splits)
qed (simp_all add: finalized_pipeline.accept_keeps reporter_consumes_def statistics_consumes_def scoring_consumes_def collector_consumes_def
      collector_works_def intake_works_def launcher_works_def supervisor_works_def split: AgentBusEvent.splits prod.splits)

lemma finalized_run: "(agent_step b)\<^sup>*\<^sup>* a a' \<Longrightarrow> smp_finalized (ag_session a) \<Longrightarrow> smp_finalized (ag_session a')"
  by (induction rule: rtranclp_induct) (simp_all add: finalized_step)

text \<open>The simulation drives a study none of whose boots loses power.\<close>

lemma simulation_study: "simulation b repo rs n \<Longrightarrow> study b repo rs n 0"
proof (induction rule: simulation.induct)
  case (turn repo rs n fresh w received try_send a a' a'')
  have steps: "(agent_step b)\<^sup>*\<^sup>* a a''"
    using turn.hyps(6,7) by (meson agent_step.accepts converse_rtranclp_into_rtranclp rtranclp_trans)
  have "smp_finalized (ag_session a'')" using finalized_run [OF turn.hyps(7) accept_deadline_finalizes] .
  then show ?case
    using study.boots [OF turn.IH turn.hyps(2,3,5) steps refl refl refl refl] by (simp add: shutdown_world)
qed (rule study.begins)

lemma simulation_exists: "\<exists>repo rs. simulation b repo rs n"
proof (induction n)
  case (Suc n)
  then obtain repo rs where sim: "simulation b repo rs n" by blast
  define w where "w = \<lparr>w_scope = (if sst_study_id repo = 0 then repo\<lparr>sst_study_id := 1\<rparr> else repo), w_seq = 0,
    w_clock = (\<lambda>_. 1465182366000 + of_nat n * 6000000), w_reads = 0, w_answer = (\<lambda>_. True), w_calls = 0, w_log = []\<rparr>"
  let ?d = "session_manager_deps b"
  have "smp_start ?d SessionManagerPlugin_new (open_session_if_needed ?d w)
      = (fst (smp_start ?d SessionManagerPlugin_new (open_session_if_needed ?d w)), snd (smp_start ?d SessionManagerPlugin_new (open_session_if_needed ?d w)))"
    by simp
  from agent_boots [OF this, of "\<lambda>_. []" "\<lambda>_. SendOk"] obtain a where
    "boot (plugins b) (assemble b (\<lambda>_. []) (\<lambda>_. SendOk) w) = (Inr (), a)" by blast
  note boot = this
  have "load_scope_state (memory_load repo :: unit + ScopeState) 1 = Inr (w_scope w)" "w_log w = []"
    "w_clock w = (\<lambda>_. 1465182366000 + of_nat n * 6000000)"
    by (simp_all add: w_def load_scope_state_def bind_r_def memory_load_def)
  from simulation.turn [OF sim this boot rtranclp.rtrancl_refl rtranclp.rtrancl_refl] show ?case by blast
qed (blast intro: simulation.start)

lemma sim_config_deps [simp]:
  "ab_config b = sim_config n \<Longrightarrow> smd_uptimes (session_manager_deps b) = replicate n 6000"
  "ab_config b = sim_config n \<Longrightarrow> \<not> smd_skip_reboot_and_shutdown (session_manager_deps b)"
  by (simp_all add: session_manager_deps_def sim_config_def AgentConfig_default_def DebugConfig_default_def Let_def)

text \<open>
  C7. The multi-session simulation passes for every number of sessions. With the configuration the
  simulation builds for \<open>n + 1\<close> planned sessions, it can be driven through all of them, and however the
  tasks of the agent run in between, its three assertions hold at the end: \<open>n\<close> reboot requests, one
  shutdown request, and \<open>n + 1\<close> persisted sessions.
\<close>

theorem simulation_passes:
  assumes "ab_config b = sim_config (Suc n)"
  shows "(\<exists>repo rs. simulation b repo rs (Suc n))
    \<and> (\<forall>repo rs. simulation b repo rs (Suc n) \<longrightarrow>
         count_list rs EventType.StudyRebootRequested = n \<and> count_list rs EventType.StudyShutdownRequested = 1
         \<and> length (sst_sessions repo) = Suc n)"
proof (intro conjI allI impI simulation_exists)
  fix repo rs
  assume sim: "simulation b repo rs (Suc n)"
  note plan = study_plan [OF simulation_study [OF sim] sim_config_deps(2) [OF assms]]
  then have rs: "rs = map (request_of (session_manager_deps b)) ([1..<Suc n] @ [Suc n])" by auto
  have "map (request_of (session_manager_deps b)) [1..<Suc n] = map (\<lambda>_. EventType.StudyRebootRequested) [1..<Suc n]"
    by (rule map_cong) (auto simp: request_of_def sim_config_deps [OF assms])
  then have r: "map (request_of (session_manager_deps b)) [1..<Suc n] = replicate n EventType.StudyRebootRequested"
    "request_of (session_manager_deps b) (Suc n) = EventType.StudyShutdownRequested"
    by (simp_all add: map_replicate_const request_of_def sim_config_deps [OF assms] del: upt_Suc)
  have "count_list (replicate n x) y = (if x = y then n else 0)" for x y :: EventType by (induction n) auto
  then show "count_list rs EventType.StudyRebootRequested = n" "count_list rs EventType.StudyShutdownRequested = 1"
    unfolding rs map_append list.map r by simp_all
  show "length (sst_sessions repo) = Suc n" using plan by auto
qed

theorem simulation_passes_witness:
  "\<exists>repo rs. simulation (build0\<lparr>ab_config := sim_config 24\<rparr>) repo rs 24
     \<and> count_list rs EventType.StudyRebootRequested = 23 \<and> length (sst_sessions repo) = 24"
  using simulation_passes [of "build0\<lparr>ab_config := sim_config 24\<rparr>" 23] by auto

end
