(* ===== verification/Desktop_Input.thy ===== *)
theory Desktop_Input
  imports User_Actor Command_Line Driver_Wire Driver_Control
begin

text \<open>
  Acting on the desktop (\<^verbatim>\<open>crates/user-actor/src/adapters/driven/input/synthesis.rs\<close>, \<^verbatim>\<open>launcher/app.rs\<close>): keyboard
  events handed to the system in batches, of which it may take only a prefix, and the command line of
  a launched program. How many events the system takes of each batch is an input; sleeping is left
  out.
\<close>

subsection \<open>Keyboard events\<close>

record KEYBDINPUT =
  ki_vk :: u16
  ki_scan :: u16
  ki_flags :: u32

definition KEYEVENTF_KEYUP :: u32 where "KEYEVENTF_KEYUP = 2"
definition KEYEVENTF_UNICODE :: u32 where "KEYEVENTF_UNICODE = 4"
definition VK_RETURN :: u16 where "VK_RETURN = 0x0D"

definition key_event :: "u16 option \<Rightarrow> u16 \<Rightarrow> u32 \<Rightarrow> KEYBDINPUT" where
  "key_event vk ch flags = \<lparr>ki_vk = (case vk of Some v \<Rightarrow> v | None \<Rightarrow> 0), ki_scan = ch, ki_flags = flags\<rparr>"

datatype InputError = InputFailed nat nat | InputJoin

text \<open>The desktop: what it received, and how many batches it was handed; \<open>accepts n\<close> is how many events it takes of batch \<open>n\<close>.\<close>

record Desktop =
  dt_events :: "KEYBDINPUT list"
  dt_calls :: nat

definition send_all :: "(nat \<Rightarrow> nat) \<Rightarrow> KEYBDINPUT list \<Rightarrow> Desktop \<Rightarrow> (InputError + unit) \<times> Desktop" where
  "send_all accepts inputs d =
     (let sent = min (accepts (dt_calls d)) (length inputs);
          d = \<lparr>dt_events = dt_events d @ take sent inputs, dt_calls = Suc (dt_calls d)\<rparr>;
          expected = min (length inputs) (2 ^ 32 - 1) in
      if sent \<noteq> expected then (Inl (InputFailed sent expected), d) else (Inr (), d))"

definition and_then :: "(Desktop \<Rightarrow> (InputError + unit) \<times> Desktop) \<Rightarrow> (Desktop \<Rightarrow> (InputError + unit) \<times> Desktop)
    \<Rightarrow> Desktop \<Rightarrow> (InputError + unit) \<times> Desktop" where
  "and_then f g d = (case f d of (Inl e, d) \<Rightarrow> (Inl e, d) | (Inr _, d) \<Rightarrow> g d)"

definition press_enter_blocking :: "(nat \<Rightarrow> nat) \<Rightarrow> Desktop \<Rightarrow> (InputError + unit) \<times> Desktop" where
  "press_enter_blocking accepts =
     and_then (send_all accepts [key_event (Some VK_RETURN) 0 0]) (send_all accepts [key_event (Some VK_RETURN) 0 KEYEVENTF_KEYUP])"

definition press_key_blocking :: "(nat \<Rightarrow> nat) \<Rightarrow> Key \<Rightarrow> Desktop \<Rightarrow> (InputError + unit) \<times> Desktop" where
  "press_key_blocking accepts key =
     (let vk = virtual_key key in
      and_then (send_all accepts [key_event (Some vk) 0 0]) (send_all accepts [key_event (Some vk) 0 KEYEVENTF_KEYUP]))"

definition type_unit :: "(nat \<Rightarrow> nat) \<Rightarrow> u16 \<Rightarrow> Desktop \<Rightarrow> (InputError + unit) \<times> Desktop" where
  "type_unit accepts u =
     and_then (send_all accepts [key_event None u KEYEVENTF_UNICODE])
       (send_all accepts [key_event None u (or KEYEVENTF_UNICODE KEYEVENTF_KEYUP)])"

fun type_units :: "(nat \<Rightarrow> nat) \<Rightarrow> u16 list \<Rightarrow> Desktop \<Rightarrow> (InputError + unit) \<times> Desktop" where
  "type_units accepts [] d = (Inr (), d)"
| "type_units accepts (u # us) d = and_then (type_unit accepts u) (type_units accepts us) d"

definition type_char :: "(nat \<Rightarrow> nat) \<Rightarrow> nat \<Rightarrow> Desktop \<Rightarrow> (InputError + unit) \<times> Desktop" where
  "type_char accepts ch =
     (if ch = 13 then Pair (Inr ())
      else if ch = 10 then press_key_blocking accepts KEnter
      else if ch < 0x20 \<or> ch = 0x7F then Pair (Inr ())
      else type_units accepts (encode_utf16 [ch]))"

fun type_text_blocking :: "(nat \<Rightarrow> nat) \<Rightarrow> rstr \<Rightarrow> Desktop \<Rightarrow> (InputError + unit) \<times> Desktop" where
  "type_text_blocking accepts [] d = (Inr (), d)"
| "type_text_blocking accepts (ch # text) d = and_then (type_char accepts ch) (type_text_blocking accepts text) d"

definition press_hotkey_blocking :: "(nat \<Rightarrow> nat) \<Rightarrow> Key list \<Rightarrow> Desktop \<Rightarrow> (InputError + unit) \<times> Desktop" where
  "press_hotkey_blocking accepts keys =
     (if keys = [] then Pair (Inr ())
      else let final = last keys; modifiers = butlast keys;
               down_events = map (\<lambda>key. key_event (Some (virtual_key key)) 0 0) modifiers @ [key_event (Some (virtual_key final)) 0 0];
               up_events = key_event (Some (virtual_key final)) 0 KEYEVENTF_KEYUP
                 # map (\<lambda>key. key_event (Some (virtual_key key)) 0 KEYEVENTF_KEYUP) (rev modifiers) in
        and_then (send_all accepts down_events) (send_all accepts up_events))"

subsection \<open>What the desktop makes of it\<close>

text \<open>The keys held down after a stream of events.\<close>

definition held_after :: "KEYBDINPUT \<Rightarrow> (u16 \<times> u16) set \<Rightarrow> (u16 \<times> u16) set" where
  "held_after e held = (if and (ki_flags e) KEYEVENTF_KEYUP \<noteq> 0 then held - {(ki_vk e, ki_scan e)} else insert (ki_vk e, ki_scan e) held)"

definition held :: "KEYBDINPUT list \<Rightarrow> (u16 \<times> u16) set" where
  "held es = fold held_after es {}"

text \<open>The text an application gets: units typed as Unicode and Enter as a line feed.\<close>

definition unit_of :: "KEYBDINPUT \<Rightarrow> nat option" where
  "unit_of e = (if and (ki_flags e) KEYEVENTF_KEYUP \<noteq> 0 then None
     else if and (ki_flags e) KEYEVENTF_UNICODE \<noteq> 0 then Some (unat (ki_scan e))
     else if ki_vk e = VK_RETURN then Some 10 else None)"

definition text_received :: "KEYBDINPUT list \<Rightarrow> rstr" where
  "text_received es = from_utf16_lossy (List.map_filter unit_of es)"

text \<open>What is typed of a text: its characters but for control characters, of which only the line feed counts.\<close>

definition typeable :: "nat \<Rightarrow> bool" where
  "typeable ch \<longleftrightarrow> ch = 10 \<or> (0x20 \<le> ch \<and> ch \<noteq> 0x7F)"

subsection \<open>Operations that succeed\<close>

text \<open>An operation that, when it succeeds, has delivered exactly the given events, and that succeeds when the system
  takes at least \<open>m\<close> events of every batch.\<close>

definition delivers :: "nat \<Rightarrow> ((nat \<Rightarrow> nat) \<Rightarrow> Desktop \<Rightarrow> (InputError + unit) \<times> Desktop) \<Rightarrow> KEYBDINPUT list \<Rightarrow> bool" where
  "delivers m f es \<longleftrightarrow> (\<forall>accepts d d'. f accepts d = (Inr (), d') \<longrightarrow> dt_events d' = dt_events d @ es)
     \<and> (\<forall>accepts d. (\<forall>n. m \<le> accepts n) \<longrightarrow> fst (f accepts d) = Inr ())"

lemma deliversD: "delivers m f es \<Longrightarrow> f accepts d = (Inr (), d') \<Longrightarrow> dt_events d' = dt_events d @ es"
  by (simp add: delivers_def)

lemma delivers_send: "length es < 2 ^ 32 \<Longrightarrow> delivers (length es) (\<lambda>accepts. send_all accepts es) es"
  by (auto simp: delivers_def send_all_def Let_def split: if_splits)

lemma delivers_none: "delivers m (\<lambda>accepts d. (Inr (), d)) []"
  by (simp add: delivers_def)

lemma delivers_then:
  assumes "delivers m f es" "delivers m g es'"
  shows "delivers m (\<lambda>accepts. and_then (f accepts) (g accepts)) (es @ es')"
proof -
  have "dt_events d' = dt_events d @ es @ es'" if ok: "and_then (f accepts) (g accepts) d = (Inr (), d')" for accepts d d'
  proof -
    obtain d1 where d1: "f accepts d = (Inr (), d1)" "g accepts d1 = (Inr (), d')"
      using ok by (cases "f accepts d"; cases "fst (f accepts d)") (auto simp: and_then_def)
    show ?thesis using deliversD [OF assms(1) d1(1)] deliversD [OF assms(2) d1(2)] by simp
  qed
  moreover have "fst (and_then (f accepts) (g accepts) d) = Inr ()" if "\<forall>n. m \<le> accepts n" for accepts d
  proof -
    have "fst (f accepts d) = Inr ()" using assms(1) that by (simp add: delivers_def)
    then obtain d1 where "f accepts d = (Inr (), d1)" by (cases "f accepts d") simp
    then show ?thesis using assms(2) that by (simp add: and_then_def delivers_def)
  qed
  ultimately show ?thesis by (simp add: delivers_def)
qed

definition tap :: "u16 \<Rightarrow> KEYBDINPUT list" where
  "tap vk = [key_event (Some vk) 0 0, key_event (Some vk) 0 KEYEVENTF_KEYUP]"

definition unit_tap :: "u16 \<Rightarrow> KEYBDINPUT list" where
  "unit_tap u = [key_event None u KEYEVENTF_UNICODE, key_event None u (or KEYEVENTF_UNICODE KEYEVENTF_KEYUP)]"

definition char_events :: "nat \<Rightarrow> KEYBDINPUT list" where
  "char_events ch = (if ch = 10 then tap VK_RETURN else if typeable ch then concat (map unit_tap (encode_utf16 [ch])) else [])"

lemma delivers_taps:
  "delivers 1 (\<lambda>accepts. press_key_blocking accepts key) (tap (virtual_key key))"
  "delivers 1 (\<lambda>accepts. press_enter_blocking accepts) (tap VK_RETURN)" "delivers 1 (\<lambda>accepts. type_unit accepts u) (unit_tap u)"
proof -
  have two: "delivers 1 (\<lambda>accepts. and_then (send_all accepts [x]) (send_all accepts [y])) [x, y]" for x y
    using delivers_then [of 1] delivers_send [of "[x]"] delivers_send [of "[y]"] by fastforce
  show "delivers 1 (\<lambda>accepts. press_key_blocking accepts key) (tap (virtual_key key))"
    "delivers 1 (\<lambda>accepts. press_enter_blocking accepts) (tap VK_RETURN)" "delivers 1 (\<lambda>accepts. type_unit accepts u) (unit_tap u)"
    unfolding press_key_blocking_def press_enter_blocking_def type_unit_def tap_def unit_tap_def Let_def by (rule two)+
qed

lemma delivers_units: "delivers 1 (\<lambda>accepts. type_units accepts us) (concat (map unit_tap us))"
proof (induction us)
  case (Cons u us)
  then show ?case using delivers_then [OF delivers_taps(3) Cons] by (simp add: fun_eq_iff)
qed (simp add: delivers_def)

lemma delivers_char: "delivers 1 (\<lambda>accepts. type_char accepts ch) (char_events ch)"
proof -
  consider "ch = 10" | "ch \<noteq> 10" "typeable ch" | "\<not> typeable ch" by blast
  then show ?thesis
  proof cases
    case 1
    then show ?thesis using delivers_taps(1) [of KEnter] by (simp add: type_char_def char_events_def virtual_key_def VK_RETURN_def)
  next
    case 2
    then have "(\<lambda>accepts. type_char accepts ch) = (\<lambda>accepts. type_units accepts (encode_utf16 [ch]))"
      by (auto simp: type_char_def typeable_def fun_eq_iff)
    then show ?thesis using delivers_units [of "encode_utf16 [ch]"] 2 by (simp add: char_events_def)
  next
    case 3
    then have "(\<lambda>accepts. type_char accepts ch) = (\<lambda>accepts d. (Inr (), d))" by (auto simp: type_char_def typeable_def fun_eq_iff)
    then show ?thesis using delivers_none 3 by (simp add: char_events_def) (simp add: typeable_def)
  qed
qed

lemma delivers_text: "delivers 1 (\<lambda>accepts. type_text_blocking accepts str) (concat (map char_events str))"
proof (induction str)
  case (Cons ch str)
  then show ?case using delivers_then [OF delivers_char Cons] by (simp add: fun_eq_iff)
qed (simp add: delivers_def)

subsection \<open>Typed text arrives\<close>

lemma event_simps [simp]:
  "unit_of (key_event (Some vk) 0 0) = (if vk = VK_RETURN then Some 10 else None)" "unit_of (key_event vk' u KEYEVENTF_KEYUP) = None"
  "unit_of (key_event None u KEYEVENTF_UNICODE) = Some (unat u)"
  "unit_of (key_event None u (or KEYEVENTF_UNICODE KEYEVENTF_KEYUP)) = None"
  "held_after (key_event (Some vk) 0 0) h = insert (vk, 0) h" "held_after (key_event (Some vk) 0 KEYEVENTF_KEYUP) h = h - {(vk, 0)}"
  "held_after (key_event None u KEYEVENTF_UNICODE) h = insert (0, u) h"
  "held_after (key_event None u (or KEYEVENTF_UNICODE KEYEVENTF_KEYUP)) h = h - {(0, u)}"
  by (simp_all add: unit_of_def held_after_def key_event_def KEYEVENTF_KEYUP_def KEYEVENTF_UNICODE_def)

lemma fold_held_taps:
  "fold held_after (tap vk) h = h - {(vk, 0)}" "fold held_after (unit_tap u) h = h - {(0, u)}"
  by (auto simp: tap_def unit_tap_def)

lemma fold_held_mono: "(\<And>es h. es \<in> set ess \<Longrightarrow> fold held_after es h \<subseteq> h) \<Longrightarrow> fold held_after (concat ess) h \<subseteq> h"
proof (induction ess arbitrary: h)
  case (Cons es ess)
  then have "fold held_after (concat ess) (fold held_after es h) \<subseteq> fold held_after es h" "fold held_after es h \<subseteq> h" by simp_all
  then show ?case by simp
qed simp

lemma fold_held_text: "fold held_after (concat (map char_events str)) h \<subseteq> h"
proof (rule fold_held_mono)
  have "fold held_after (concat (map unit_tap us)) h \<subseteq> h" for us h by (rule fold_held_mono) (auto simp: fold_held_taps)
  then show "es \<in> set (map char_events str) \<Longrightarrow> fold held_after es h \<subseteq> h" for es h
    by (auto simp: char_events_def fold_held_taps split: if_splits)
qed

definition is_scalar :: "nat \<Rightarrow> bool" where
  "is_scalar c \<longleftrightarrow> c \<le> 0x10FFFF \<and> (c < 0xD800 \<or> 0xE000 \<le> c)"

lemma unat_u16: "n < 2 ^ 16 \<Longrightarrow> unat (of_nat n :: u16) = n"
  by (simp add: unat_of_nat take_bit_nat_eq_self)

text \<open>A scalar value is one unit that is no surrogate, or a high and a low surrogate.\<close>

lemma encode_char_cases:
  assumes "is_scalar c"
  obtains (plain) "map unat (encode_utf16 [c]) = [c]" "c < 0xD800 \<or> 0xE000 \<le> c"
  | (pair) q r where "map unat (encode_utf16 [c]) = [0xD800 + q, 0xDC00 + r]" "q < 0x400" "r < 0x400" "c = 0x10000 + q * 0x400 + r"
proof (cases "c < 0x10000")
  case True
  then show ?thesis using assms by (intro plain) (auto simp: encode_utf16_def unat_u16 is_scalar_def)
next
  case False
  define q where "q = (c - 0x10000) div 0x400"
  define r where "r = (c - 0x10000) mod 0x400"
  have c: "c = 0x10000 + q * 0x400 + r" using False by (simp add: q_def r_def)
  have r: "r < 0x400" by (simp add: r_def)
  moreover have q: "q < 0x400" using assms False by (simp add: q_def is_scalar_def div_less_iff_less_mult)
  ultimately have "map unat (encode_utf16 [c]) = [0xD800 + q, 0xDC00 + r]"
    using False unat_u16 [of "0xD800 + q"] unat_u16 [of "0xDC00 + r"] by (simp add: encode_utf16_def flip: q_def r_def)
  then show ?thesis using q r c by (rule pair)
qed

lemma decode_encode_char:
  assumes "is_scalar c"
  shows "from_utf16_lossy (map unat (encode_utf16 [c]) @ rest) = c # from_utf16_lossy rest"
  using assms by (cases rule: encode_char_cases) simp_all

lemma units_of_taps:
  "List.map_filter unit_of (concat (map unit_tap us) @ es) = map unat us @ List.map_filter unit_of es"
  by (induction us) (simp_all add: unit_tap_def map_filter_simps)

lemma text_of_events:
  assumes "list_all is_scalar str"
  shows "text_received (concat (map char_events str)) = filter typeable str"
  using assms
proof (induction str)
  case (Cons ch str)
  let ?rest = "concat (map char_events str)"
  consider "ch = 10" | "ch \<noteq> 10" "typeable ch" | "\<not> typeable ch" by blast
  then show ?case
  proof cases
    case 1
    then have "List.map_filter unit_of (char_events ch @ ?rest) = 10 # List.map_filter unit_of ?rest"
      by (simp add: char_events_def tap_def map_filter_simps)
    then show ?thesis using Cons 1 by (simp add: text_received_def typeable_def)
  next
    case 2
    then have "text_received (char_events ch @ ?rest) = ch # text_received ?rest"
      using Cons.prems decode_encode_char [of ch] by (simp add: text_received_def char_events_def units_of_taps)
    then show ?thesis using Cons 2 by simp
  next
    case 3
    then show ?thesis using Cons by (simp add: char_events_def) (simp add: typeable_def)
  qed
qed (simp add: text_received_def map_filter_simps)

text \<open>
  Typed text arrives. Whatever the system takes of the batches, when typing a text succeeds the
  application has received its characters in order, supplementary ones reassembled from both
  surrogates and line feeds as Enter, without the other control characters, and no key is held that
  was not held before; typing does succeed when the system takes every event.
\<close>

theorem typed_text_arrives:
  assumes "list_all is_scalar str"
  shows "(\<forall>d'. type_text_blocking accepts str d = (Inr (), d') \<longrightarrow>
      text_received (drop (length (dt_events d)) (dt_events d')) = filter typeable str \<and> held (dt_events d') \<subseteq> held (dt_events d))
    \<and> ((\<forall>n. 0 < accepts n) \<longrightarrow> fst (type_text_blocking accepts str d) = Inr ())"
proof (intro conjI allI impI)
  fix d'
  assume "type_text_blocking accepts str d = (Inr (), d')"
  from deliversD [OF delivers_text this] have es: "dt_events d' = dt_events d @ concat (map char_events str)" .
  then show "text_received (drop (length (dt_events d)) (dt_events d')) = filter typeable str" using text_of_events [OF assms] by simp
  show "held (dt_events d') \<subseteq> held (dt_events d)" using fold_held_text by (simp add: held_def es)
next
  assume "\<forall>n. 0 < accepts n"
  then show "fst (type_text_blocking accepts str d) = Inr ()"
    using delivers_text [of str] by (simp add: delivers_def Suc_le_eq)
qed

theorem typed_text_arrives_witness:
  "text_received (dt_events (snd (type_text_blocking (\<lambda>_. 5) (utf ''hi'' @ [13, 10, 0x1F600]) \<lparr>dt_events = [], dt_calls = 0\<rparr>)))
   = utf ''hi'' @ [10, 0x1F600]"
proof -
  let ?t = "utf ''hi'' @ [13, 10, 0x1F600]" and ?d = "\<lparr>dt_events = [], dt_calls = 0\<rparr>"
  let ?r = "type_text_blocking (\<lambda>_. 5) ?t ?d"
  have s: "list_all is_scalar ?t" "filter typeable ?t = utf ''hi'' @ [10, 0x1F600]" by (simp_all add: is_scalar_def typeable_def utf_def)
  have "fst ?r = Inr ()" using typed_text_arrives [OF s(1), of "\<lambda>_. 5" ?d] by simp
  then have "?r = (Inr (), snd ?r)" by (metis prod.collapse)
  then show ?thesis using typed_text_arrives [OF s(1), of "\<lambda>_. 5" ?d] unfolding s(2) by (metis Desktop.select_convs(1) drop0 list.size(3))
qed

subsection \<open>Chords\<close>

definition down :: "Key \<Rightarrow> KEYBDINPUT" where "down key = key_event (Some (virtual_key key)) 0 0"
definition up :: "Key \<Rightarrow> KEYBDINPUT" where "up key = key_event (Some (virtual_key key)) 0 KEYEVENTF_KEYUP"
definition key_id :: "Key \<Rightarrow> u16 \<times> u16" where "key_id key = (virtual_key key, 0)"

lemma press_hotkey_batches:
  "keys \<noteq> [] \<Longrightarrow> press_hotkey_blocking accepts keys = and_then (send_all accepts (map down keys)) (send_all accepts (map up (rev keys)))"
  by (cases keys rule: rev_cases) (simp_all add: press_hotkey_blocking_def down_def [abs_def] up_def [abs_def] Let_def)

lemma fold_down: "fold held_after (map down keys) h = h \<union> key_id ` set keys"
  by (induction keys arbitrary: h) (auto simp: down_def key_id_def)

lemma fold_up: "fold held_after (map up keys) h = h - key_id ` set keys"
  by (induction keys arbitrary: h) (auto simp: up_def key_id_def)

lemma released_prefix:
  assumes "inj_on key_id (set keys)" "distinct keys" "k \<le> length keys"
  shows "key_id ` set keys - key_id ` set (take k (rev keys)) = key_id ` set (take (length keys - k) keys)"
proof -
  let ?a = "take (length keys - k) keys" and ?b = "drop (length keys - k) keys"
  have t: "take k (rev keys) = rev ?b" using assms(3) by (simp add: take_rev)
  have split: "set keys = set ?a \<union> set ?b" by (metis append_take_drop_id set_append)
  have "set ?a \<inter> set ?b = {}" by (rule set_take_disj_set_drop_if_distinct [OF assms(2)]) simp
  then have disj: "key_id ` set ?a \<inter> key_id ` set ?b = {}" using inj_on_image_Int [OF assms(1), of "set ?a" "set ?b"] split by auto
  have "key_id ` set keys = key_id ` set ?a \<union> key_id ` set ?b" by (simp only: split image_Un)
  then show ?thesis unfolding t set_rev using disj by blast
qed

text \<open>
  A chord that fails leaves keys pressed. When the system takes only some of the key presses, or takes
  them all and then only some of the releases, the chord reports an error and exactly the keys pressed
  and not released stay down, the modifiers first among them; only a chord that succeeds leaves the
  keyboard as it was.
\<close>

theorem failed_chord_holds_keys:
  assumes "keys \<noteq> []" "distinct (map key_id keys)" "length keys < 2 ^ 32" "held (dt_events d) = {}"
    and "press_hotkey_blocking accepts keys d = (r, d')"
    and "a = min (accepts (dt_calls d)) (length keys)" "k = min (accepts (Suc (dt_calls d))) (length keys)"
  shows "held (dt_events d') = key_id ` set (take (if a = length keys then length keys - k else a) keys)
    \<and> (r = Inr () \<longleftrightarrow> a = length keys \<and> k = length keys)"
proof -
  have d: "distinct keys" "inj_on key_id (set keys)" using assms(2) by (simp_all add: distinct_map)
  have first: "send_all accepts (map down keys) d = (if a = length keys then Inr () else Inl (InputFailed a (length keys)),
      \<lparr>dt_events = dt_events d @ map down (take a keys), dt_calls = Suc (dt_calls d)\<rparr>)"
    using assms(3,6) by (simp add: send_all_def Let_def take_map)
  show ?thesis
  proof (cases "a = length keys")
    case True
    let ?d = "\<lparr>dt_events = dt_events d @ map down keys, dt_calls = Suc (dt_calls d)\<rparr>"
    have "send_all accepts (map up (rev keys)) ?d = (if k = length keys then Inr () else Inl (InputFailed k (length keys)),
        \<lparr>dt_events = dt_events d @ map down keys @ map up (take k (rev keys)), dt_calls = Suc (Suc (dt_calls d))\<rparr>)"
      using assms(3,7) by (simp add: send_all_def Let_def take_map)
    then have r: "r = (if k = length keys then Inr () else Inl (InputFailed k (length keys)))"
      "dt_events d' = dt_events d @ map down keys @ map up (take k (rev keys))"
      using assms(5) first True by (auto simp: press_hotkey_batches [OF assms(1)] and_then_def split: if_splits)
    have "held (dt_events d') = key_id ` set keys - key_id ` set (take k (rev keys))"
      using assms(4) by (simp add: held_def r(2) fold_down fold_up)
    moreover have "k \<le> length keys" using assms(7) by simp
    ultimately show ?thesis using released_prefix [OF d(2,1)] True r(1) by simp
  next
    case False
    then have "r = Inl (InputFailed a (length keys))" "dt_events d' = dt_events d @ map down (take a keys)"
      using assms(5) first by (auto simp: press_hotkey_batches [OF assms(1)] and_then_def)
    then show ?thesis using False assms(4) by (simp add: held_def fold_down)
  qed
qed

text \<open>Ctrl and Shift with Escape, whose releases are refused.\<close>

theorem failed_chord_holds_keys_witness:
  "held (dt_events (snd (press_hotkey_blocking (\<lambda>n. if n = 0 then 3 else 0) [KCtrl, KShift, KEscape] \<lparr>dt_events = [], dt_calls = 0\<rparr>)))
   = {(0x11, 0), (0x10, 0), (0x1B, 0)}"
  using failed_chord_holds_keys [of "[KCtrl, KShift, KEscape]" "\<lparr>dt_events = [], dt_calls = 0\<rparr>" "\<lambda>n. if n = 0 then 3 else 0"
      "fst (press_hotkey_blocking (\<lambda>n. if n = 0 then 3 else 0) [KCtrl, KShift, KEscape] \<lparr>dt_events = [], dt_calls = 0\<rparr>)"
      "snd (press_hotkey_blocking (\<lambda>n. if n = 0 then 3 else 0) [KCtrl, KShift, KEscape] \<lparr>dt_events = [], dt_calls = 0\<rparr>)" 3 0]
  by (simp add: key_id_def virtual_key_def held_def)

subsection \<open>Launching a program\<close>

definition app_command_line :: "rstr \<Rightarrow> rstr list \<Rightarrow> rstr" where
  "app_command_line program args = quote program @ concat (map (\<lambda>arg. 32 # quote arg) args)"

definition wide_null :: "rstr \<Rightarrow> u16 list" where
  "wide_null s = encode_utf16 s @ [0]"

text \<open>The buffer handed to \<open>CreateProcessW\<close>, which reads it up to the first zero.\<close>

definition launch_buffer :: "rstr \<Rightarrow> rstr list \<Rightarrow> u16 list" where
  "launch_buffer program args = wide_null (app_command_line program args) @ [0]"

definition line_read :: "u16 list \<Rightarrow> rstr" where
  "line_read buffer = from_utf16_lossy (map unat (takeWhile (\<lambda>u. u \<noteq> 0) buffer))"

text \<open>The child's splitter, as the tests of the launcher state it: \<open>out\<close>, \<open>current\<close>, \<open>in_quotes\<close>, \<open>backslashes\<close>, \<open>started\<close>.\<close>

fun child_split :: "rstr \<Rightarrow> rstr list \<Rightarrow> rstr \<Rightarrow> bool \<Rightarrow> nat \<Rightarrow> bool \<Rightarrow> rstr list" where
  "child_split [] out current in_quotes backslashes started =
     (let current = current @ replicate backslashes backslash in
      if started \<or> current \<noteq> [] then out @ [current] else out)"
| "child_split (ch # line) out current in_quotes backslashes started =
     (if ch = backslash then child_split line out current in_quotes (backslashes + 1) started
      else if ch = quote_mark then
        (let current = current @ replicate (backslashes div 2) backslash in
         if odd backslashes then child_split line out (current @ [quote_mark]) in_quotes 0 True
         else child_split line out current (\<not> in_quotes) 0 True)
      else if (ch = 32 \<or> ch = 9) \<and> \<not> in_quotes then
        (let current = current @ replicate backslashes backslash in
         if started \<or> current \<noteq> [] then child_split line (out @ [current]) [] in_quotes 0 False
         else child_split line out current in_quotes 0 False)
      else child_split line out (current @ replicate backslashes backslash @ [ch]) in_quotes 0 True)"

definition argv :: "rstr \<Rightarrow> rstr list" where
  "argv line = child_split line [] [] False 0 False"

lemma child_backslashes:
  "child_split (replicate n backslash @ rest) out current q b started = child_split rest out current q (b + n) started"
  by (induction n arbitrary: b) simp_all

lemma child_quoted:
  "child_split (quote_go b arg @ rest) out current True 0 True
   = child_split rest out (current @ replicate b backslash @ arg) False 0 True"
proof (induction b arg arbitrary: current rule: quote_go.induct)
  case (1 b)
  then show ?case by (simp add: child_backslashes)
next
  case (2 b ch arg)
  consider "ch = backslash" | "ch = quote_mark" | "ch \<noteq> backslash" "ch \<noteq> quote_mark" by blast
  then show ?case
  proof cases
    case 1
    then show ?thesis using 2 by (simp add: replicate_app_Cons_same)
  next
    case 2
    then show ?thesis using "2.IH"(2) child_backslashes [of "Suc (2 * b)" "quote_mark # quote_go 0 arg @ rest"]
      by (simp add: mult.commute)
  next
    case 3
    then show ?thesis using 2 by (simp add: child_backslashes)
  qed
qed

lemma child_plain:
  assumes "list_all (\<lambda>c. c \<notin> {32, 9, quote_mark}) arg" "started \<or> current @ replicate b backslash @ arg \<noteq> []"
  shows "child_split (arg @ 32 # rest) out current False b started
      = child_split rest (out @ [current @ replicate b backslash @ arg]) [] False 0 False"
    and "child_split arg out current False b started = out @ [current @ replicate b backslash @ arg]"
  using assms
proof (induction arg arbitrary: current b started)
  case (Cons c arg)
  { case 1
    then show ?case using Cons(1) [of True "current @ replicate b backslash @ [c]" 0] Cons(1) [of started current "Suc b"]
      by (simp add: replicate_app_Cons_same) }
  { case 2
    then show ?case using Cons(2) [of True "current @ replicate b backslash @ [c]" 0] Cons(2) [of started current "Suc b"]
      by (simp add: replicate_app_Cons_same) }
qed simp_all

lemma child_quote:
  "child_split (quote arg @ 32 # rest) out [] False 0 False = child_split rest (out @ [arg]) [] False 0 False"
  "child_split (quote arg) out [] False 0 False = out @ [arg]"
proof -
  have "quote arg = (if arg = [] \<or> list_ex (\<lambda>ch. ch \<in> {32, 9, 10, quote_mark}) arg then quote_mark # quote_go 0 arg else arg)"
    by (simp add: quote_def)
  moreover have "list_all (\<lambda>c. c \<notin> {32, 9, quote_mark}) arg" if "\<not> list_ex (\<lambda>ch. ch \<in> {32, 9, 10, quote_mark}) arg"
    using that by (auto simp: list_ex_iff list_all_iff)
  ultimately show "child_split (quote arg @ 32 # rest) out [] False 0 False = child_split rest (out @ [arg]) [] False 0 False"
    "child_split (quote arg) out [] False 0 False = out @ [arg]"
    using child_quoted [of 0 arg "32 # rest" out "[]"] child_quoted [of 0 arg "[]" out "[]"]
      child_plain(1) [of arg False "[]" 0 rest out] child_plain(2) [of arg False "[]" 0 out] by auto
qed

lemma argv_app_command_line: "argv (app_command_line program args) = program # args"
proof -
  have "child_split (app_command_line program args) out [] False 0 False = out @ program # args" for out
    by (induction args arbitrary: program out) (simp_all add: app_command_line_def child_quote)
  then show ?thesis by (simp add: argv_def)
qed

lemma decode_encode:
  "list_all is_scalar s \<Longrightarrow> from_utf16_lossy (map unat (encode_utf16 s)) = s"
proof (induction s)
  case (Cons c s)
  have "encode_utf16 (c # s) = encode_utf16 [c] @ encode_utf16 s" by (simp add: encode_utf16_def)
  then show ?case using Cons decode_encode_char [of c "map unat (encode_utf16 s)"] by simp
qed (simp add: encode_utf16_def)

lemma quote_chars: "set (quote arg) \<subseteq> set arg \<union> {backslash, quote_mark}"
proof -
  have "set (quote_go b arg) \<subseteq> set arg \<union> {backslash, quote_mark}" for b
    by (induction b arg rule: quote_go.induct) (auto split: if_splits)
  then show ?thesis by (auto simp: quote_def Let_def)
qed

lemma takeWhile_nonzero: "0 \<notin> set us \<Longrightarrow> takeWhile (\<lambda>u. u \<noteq> 0) (us @ 0 # rest) = us"
  by (induction us) auto

text \<open>A launched program gets the arguments meant for it: what \<open>CreateProcessW\<close> reads of the buffer, up to its first
  zero, is split by the child's rules into exactly the program and the arguments.\<close>

lemma launched_argv:
  assumes "list_all (\<lambda>c. is_scalar c \<and> c \<noteq> 0) (concat (program # args))"
  shows "argv (line_read (launch_buffer program args)) = program # args"
proof -
  let ?line = "app_command_line program args"
  have "set ?line \<subseteq> set (concat (program # args)) \<union> {32, backslash, quote_mark}"
    using quote_chars by (auto simp: app_command_line_def)
  moreover have "is_scalar c \<and> c \<noteq> 0" if "c \<in> {32, backslash, quote_mark}" for c using that by (auto simp: is_scalar_def)
  ultimately have chars: "list_all (\<lambda>c. is_scalar c \<and> c \<noteq> 0) ?line"
    using assms unfolding list_all_iff by blast
  have "?line \<noteq> []" by (simp add: app_command_line_def quote_def)
  then have "0 \<notin> set (encode_utf16 ?line)"
    using chars encode_utf16_plain(2) [of ?line] by (auto simp: plain_def is_scalar_def list_all_iff)
  then have "line_read (launch_buffer program args) = from_utf16_lossy (map unat (encode_utf16 ?line))"
    by (simp add: line_read_def launch_buffer_def wide_null_def takeWhile_nonzero)
  also have "\<dots> = ?line" using chars by (intro decode_encode) (auto simp: list_all_iff)
  finally show ?thesis by (simp add: argv_app_command_line)
qed

end
