(* ===== verification/Process_Launch.thy ===== *)
theory Process_Launch
  imports Desktop_Input Launchers Ipc_Client
begin

text \<open>
  Launching into the interactive session (\<^verbatim>\<open>crates/agent/src/adapters/driven/launcher\<close>) and the start of what is
  launched (\<^verbatim>\<open>user-actor/src/bin/secoutfall-user-actor.rs\<close>): the token launcher as a sequence of calls and
  handles, the scheduled-task launcher over a task engine, and the way of the boot's nonce from the
  agent through the command line into the handshake. What the system answers is an input.
\<close>

subsection \<open>The token launcher\<close>

datatype LaunchError = NoInteractiveSession | TokenError | SpawnError

datatype Handle = UserToken | PrimaryToken | ThreadHandle | ProcessHandle

datatype Ffi = Opened Handle | CloseHandle Handle
  | CreateProcessAsUser rstr "u16 list" "u16 list"   \<comment> \<open>application, command line, working directory\<close>

datatype TokenQuery = TokenGranted | AccessDenied | QueryFailed

record TokenAnswers =
  tk_query :: TokenQuery
  tk_duplicated :: bool
  tk_created :: "u32 option"

definition token_launch :: "TokenAnswers \<Rightarrow> LaunchSpec \<Rightarrow> (LaunchError + u32 option) \<times> Ffi list" where
  "token_launch ans spec =
     (case tk_query ans of
        AccessDenied \<Rightarrow> (Inl NoInteractiveSession, [])
      | QueryFailed \<Rightarrow> (Inl TokenError, [])
      | TokenGranted \<Rightarrow>
          let calls = [Opened UserToken] @ (if tk_duplicated ans then [Opened PrimaryToken] else []) @ [CloseHandle UserToken] in
          if \<not> tk_duplicated ans then (Inl TokenError, calls)
          else
            let cmdline = launch_buffer (ls_path spec) (ls_args spec);
                working_dir = (case ls_working_dir spec of Some dir \<Rightarrow> wide_null dir | None \<Rightarrow> []);
                calls = calls @ [CreateProcessAsUser (ls_path spec) cmdline working_dir]
                  @ (if tk_created ans \<noteq> None then [Opened ThreadHandle, Opened ProcessHandle] else [])
                  @ [CloseHandle PrimaryToken]
                  @ (if tk_created ans \<noteq> None then [CloseHandle ThreadHandle, CloseHandle ProcessHandle] else []) in
            (case tk_created ans of None \<Rightarrow> (Inl SpawnError, calls) | Some pid \<Rightarrow> (Inr (Some pid), calls)))"

text \<open>The handles open after a sequence of calls; closing one that is not open is an error.\<close>

fun open_handles :: "Ffi list \<Rightarrow> Handle set \<Rightarrow> Handle set option" where
  "open_handles [] hs = Some hs"
| "open_handles (Opened h # calls) hs = open_handles calls (insert h hs)"
| "open_handles (CloseHandle h # calls) hs = (if h \<in> hs then open_handles calls (hs - {h}) else None)"
| "open_handles (CreateProcessAsUser _ _ _ # calls) hs = open_handles calls hs"

lemma token_launch_closes_handles: "open_handles (snd (token_launch ans spec)) {} = Some {}"
  by (auto simp: token_launch_def Let_def split: TokenQuery.splits option.splits)

lemma token_launch_result:
  "fst (token_launch ans spec) = Inr (Some pid) \<longleftrightarrow> tk_query ans = TokenGranted \<and> tk_duplicated ans \<and> tk_created ans = Some pid"
  by (auto simp: token_launch_def Let_def split: TokenQuery.splits option.splits)

subsection \<open>The scheduled-task launcher\<close>

definition TASK_NAME :: rstr where "TASK_NAME = utf ''SecOutfallLaunch''"
definition EVENT_FILTER :: rstr where "EVENT_FILTER = utf ''*[System/EventID=777]''"

datatype SchtasksOutcome = TaskDone | TimedOut bool | SpawnFailed | ExitFailed   \<comment> \<open>a killed call may have taken effect\<close>

record TaskEngine =
  tg_defined :: "rstr option"       \<comment> \<open>the action of the task, when it is defined\<close>
  tg_runs :: "rstr list"

text \<open>What a call does to the engine, by its first argument, when it takes effect.\<close>

definition engine_effect :: "rstr list \<Rightarrow> TaskEngine \<Rightarrow> TaskEngine" where
  "engine_effect arguments e =
     (case arguments of
        [] \<Rightarrow> e
      | stage # _ \<Rightarrow>
          if stage = utf ''/Create'' then e\<lparr>tg_defined := get arguments 14\<rparr>
          else if stage = utf ''/Run'' then e\<lparr>tg_runs := tg_runs e @ (case tg_defined e of Some a \<Rightarrow> [a] | None \<Rightarrow> [])\<rparr>
          else if stage = utf ''/Delete'' then e\<lparr>tg_defined := None\<rparr>
          else e)"

definition run_schtasks :: "SchtasksOutcome \<Rightarrow> rstr list \<Rightarrow> TaskEngine \<Rightarrow> (LaunchError + unit) \<times> TaskEngine" where
  "run_schtasks outcome arguments e =
     (case outcome of
        TaskDone \<Rightarrow> (Inr (), engine_effect arguments e)
      | TimedOut took_effect \<Rightarrow> (Inl SpawnError, if took_effect then engine_effect arguments e else e)
      | SpawnFailed \<Rightarrow> (Inl SpawnError, e)
      | ExitFailed \<Rightarrow> (Inl SpawnError, e))"

definition console_session_user :: "rstr option \<Rightarrow> rstr option \<Rightarrow> rstr option" where
  "console_session_user user domain =
     (case user of
        None \<Rightarrow> None
      | Some user \<Rightarrow>
          if user = [] then None
          else let domain = (case domain of Some d \<Rightarrow> d | None \<Rightarrow> []) in
            if domain = [] then Some user else Some (domain @ backslash # user))"

definition create_arguments :: "rstr \<Rightarrow> rstr \<Rightarrow> rstr list" where
  "create_arguments user action = [utf ''/Create'', utf ''/SC'', utf ''ONEVENT'', utf ''/EC'', utf ''Application'', utf ''/MO'', EVENT_FILTER,
     utf ''/RU'', user, utf ''/RL'', utf ''HIGHEST'', utf ''/TN'', TASK_NAME, utf ''/TR'', action, utf ''/F'']"

definition schedtask_launch :: "rstr option \<Rightarrow> rstr \<Rightarrow> SchtasksOutcome \<Rightarrow> SchtasksOutcome \<Rightarrow> SchtasksOutcome \<Rightarrow> LaunchSpec \<Rightarrow> TaskEngine
    \<Rightarrow> (LaunchError + u32 option) \<times> TaskEngine" where
  "schedtask_launch user helper_path on_create on_run on_delete spec e =
     (case user of
        None \<Rightarrow> (Inl NoInteractiveSession, e)
      | Some user \<Rightarrow>
          let action = action_command_line helper_path spec in
          case run_schtasks on_create (create_arguments user action) e of
            (Inl error, e) \<Rightarrow> (Inl error, e)
          | (Inr _, e) \<Rightarrow>
              case run_schtasks on_run [utf ''/Run'', utf ''/I'', utf ''/TN'', TASK_NAME] e of (run, e) \<Rightarrow>
              case run_schtasks on_delete [utf ''/Delete'', utf ''/TN'', TASK_NAME, utf ''/F''] e of (_, e) \<Rightarrow>
                (case run of Inl error \<Rightarrow> (Inl error, e) | Inr _ \<Rightarrow> (Inr None, e)))"

definition took :: "SchtasksOutcome \<Rightarrow> bool" where
  "took outcome \<longleftrightarrow> outcome = TaskDone \<or> outcome = TimedOut True"

lemma engine_effects [simp]:
  "engine_effect (create_arguments user action) e = e\<lparr>tg_defined := Some action\<rparr>"
  "engine_effect [utf ''/Run'', x1, x2, x3] e = e\<lparr>tg_runs := tg_runs e @ (case tg_defined e of Some a \<Rightarrow> [a] | None \<Rightarrow> [])\<rparr>"
  "engine_effect [utf ''/Delete'', y1, y2, y3] e = e\<lparr>tg_defined := None\<rparr>"
  by (simp_all add: engine_effect_def create_arguments_def get_def utf_def)

text \<open>
  What a launch through the task scheduler leaves behind. The launch succeeds exactly when there is a
  user, the task could be created and run. The action that runs is the helper's line for the target, at
  most once. Afterwards the task is still defined exactly when creating it took effect and it was not
  deleted: because deleting it failed, or because the call that created it was cut off by its time
  budget, in which case no deletion is attempted.
\<close>

theorem schedtask_leftovers:
  assumes "schedtask_launch user helper on_create on_run on_delete spec \<lparr>tg_defined = None, tg_runs = []\<rparr> = (result, e)"
  shows "(result = Inr None \<longleftrightarrow> user \<noteq> None \<and> on_create = TaskDone \<and> on_run = TaskDone)
    \<and> tg_runs e = (if user \<noteq> None \<and> on_create = TaskDone \<and> took on_run then [action_command_line helper spec] else [])
    \<and> (tg_defined e \<noteq> None \<longleftrightarrow> user \<noteq> None \<and> (on_create = TimedOut True \<or> on_create = TaskDone \<and> \<not> took on_delete))"
  using assms
  by (cases user; cases on_create; cases on_run; cases on_delete)
    (auto simp: schedtask_launch_def run_schtasks_def took_def Let_def simp del: utf_Cons split: if_splits)

theorem schedtask_leftovers_witness:
  "tg_defined (snd (schedtask_launch (Some (utf ''lab'')) (utf ''runas.exe'') (TimedOut True) TaskDone TaskDone
     \<lparr>ls_path = utf ''t.exe'', ls_args = [], ls_working_dir = None\<rparr> \<lparr>tg_defined = None, tg_runs = []\<rparr>)) \<noteq> None"
  using schedtask_leftovers [OF prod.collapse [symmetric], of "Some (utf ''lab'')" "utf ''runas.exe''" "TimedOut True" TaskDone TaskDone
      "\<lparr>ls_path = utf ''t.exe'', ls_args = [], ls_working_dir = None\<rparr>"] by blast

subsection \<open>The user-actor starts\<close>

record ActorArgs =
  aa_nonce :: rstr

text \<open>The loop of \<open>Args::parse\<close>; exiting with code 2 is the error.\<close>

fun parse_actor_go :: "rstr list \<Rightarrow> rstr option \<Rightarrow> nat + rstr option" where
  "parse_actor_go [] nonce = Inr nonce"
| "parse_actor_go (arg # args) nonce =
     (if arg = utf ''--nonce'' then (case args of [] \<Rightarrow> Inr None | v # rest \<Rightarrow> parse_actor_go rest (Some v))
      else Inl 2)"

definition parse_actor_args :: "rstr list \<Rightarrow> nat + ActorArgs" where
  "parse_actor_args args =
     bind_r (parse_actor_go (drop 1 args) None)
       (\<lambda>nonce. case nonce of Some nonce \<Rightarrow> if nonce \<noteq> [] then Inr \<lparr>aa_nonce = nonce\<rparr> else Inl 2 | None \<Rightarrow> Inl 2)"

text \<open>The nonce of a boot is a random UUID in 32 hexadecimal digits; strings go over the pipe as UTF-8, which
  for ASCII is one byte per character.\<close>

definition generate_nonce :: "u8 list \<Rightarrow> rstr" where
  "generate_nonce uuid = concat (map hex2 uuid)"

definition as_bytes :: "rstr \<Rightarrow> u8 list" where
  "as_bytes s = map of_nat s"

definition actor_options :: "rstr \<Rightarrow> ActorArgs \<Rightarrow> IpcClientOptions" where
  "actor_options version args = \<lparr>co_nonce = as_bytes (aa_nonce args), co_module_version = version\<rparr>"

definition command_line_of :: "Ffi list \<Rightarrow> u16 list option" where
  "command_line_of calls = (case List.map_filter (\<lambda>c. case c of CreateProcessAsUser _ line _ \<Rightarrow> Some line | _ \<Rightarrow> None) calls of [] \<Rightarrow> None | line # _ \<Rightarrow> Some line)"

lemma token_launch_line:
  assumes "token_launch ans spec = (Inr (Some pid), calls)"
  shows "command_line_of calls = Some (launch_buffer (ls_path spec) (ls_args spec))"
  using assms by (auto simp: token_launch_def command_line_of_def Let_def map_filter_simps split: TokenQuery.splits option.splits if_splits)

lemma hex2_chars: "c \<in> set (hex2 b) \<Longrightarrow> 48 \<le> c \<and> c \<le> 102"
proof -
  have "unat b div 16 < 16" using unat_u8_less [of b] by simp
  moreover have "unat b mod 16 < 16" by simp
  ultimately show "c \<in> set (hex2 b) \<Longrightarrow> ?thesis" by (auto simp: hex2_def hex_digit_def)
qed

lemma nonce_chars: "list_all (\<lambda>c. is_scalar c \<and> c \<noteq> 0) (generate_nonce uuid)" "uuid \<noteq> [] \<Longrightarrow> generate_nonce uuid \<noteq> []"
  using hex2_chars by (fastforce simp: generate_nonce_def list_all_iff is_scalar_def, cases uuid) (simp_all add: generate_nonce_def hex2_def)

text \<open>
  C13. The user-actor the agent launches is admitted by the agent. When the token launcher starts the
  process of the supervisor's launch spec, every handle it opened has been closed; the child finds the
  boot's nonce in its arguments, and the handshake it then sends, from the process the launcher
  reported, passes the checks of the pipe server: version, nonce and process id. A handshake from any
  other process that is not privileged fails.
\<close>

theorem launched_actor_is_admitted:
  assumes "spec = launch_spec config exe_dir (generate_nonce uuid)" "uuid \<noteq> []"
    and "list_all (\<lambda>c. is_scalar c \<and> c \<noteq> 0) (ls_path spec)"
    and "token_launch ans spec = (Inr (Some pid), calls)" "pid \<noteq> 0"
    and "cl_nonce s = as_bytes (generate_nonce uuid)" "tn_gate t = fst (launch_job (Some (Some pid)) spec gate w)"
  shows "open_handles calls {} = Some {}
    \<and> (\<exists>line args. command_line_of calls = Some line \<and> parse_actor_args (argv (line_read line)) = Inr args
         \<and> (hello_ok s t (hello_of (actor_options version args)) \<longleftrightarrow> tn_pid t = pid \<or> tn_system t))"
proof -
  let ?nonce = "generate_nonce uuid"
  have spec: "ls_args spec = [utf ''--nonce'', ?nonce]" by (simp only: assms(1) launch_spec_def NONCE_ARGUMENT_def LaunchSpec.select_convs)
  have "list_all (\<lambda>c. is_scalar c \<and> c \<noteq> 0) (utf ''--nonce'')" by (simp add: utf_def is_scalar_def)
  then have "list_all (\<lambda>c. is_scalar c \<and> c \<noteq> 0) (concat (ls_path spec # ls_args spec))"
    using assms(3) nonce_chars(1) [of uuid] unfolding spec by (simp del: utf_Cons)
  then have "argv (line_read (launch_buffer (ls_path spec) (ls_args spec))) = ls_path spec # [utf ''--nonce'', ?nonce]"
    unfolding spec [symmetric] by (rule launched_argv)
  moreover have "parse_actor_args (ls_path spec # [utf ''--nonce'', ?nonce]) = Inr \<lparr>aa_nonce = ?nonce\<rparr>"
    using nonce_chars(2) [OF assms(2)] by (simp add: parse_actor_args_def bind_r_def del: utf_Cons)
  moreover have gate: "tn_gate t = pid"
  proof -
    have "unat pid \<noteq> 0" using assms(5) by (simp add: word_unat_eq_iff)
    then have "1 \<le> pid" by (simp add: word_le_nat_alt)
    then show ?thesis using assms(7) by (simp add: launch_job_def max_absorb1)
  qed
  moreover have "hello_ok s t (hello_of (actor_options version \<lparr>aa_nonce = ?nonce\<rparr>)) \<longleftrightarrow> tn_pid t = pid \<or> tn_system t"
    using assms(5,6) gate by (simp add: hello_ok_def hello_of_def actor_options_def)
  ultimately show ?thesis
    using token_launch_line [OF assms(4)] token_launch_closes_handles [of ans spec] assms(4) by simp
qed

definition actor_answers :: TokenAnswers where
  "actor_answers = \<lparr>tk_query = TokenGranted, tk_duplicated = True, tk_created = Some 4711\<rparr>"

definition actor_turn :: Turn where
  "actor_turn = \<lparr>tn_elapsed = False, tn_cancelled = False, tn_read_fails = False, tn_refusal_elapsed = False, tn_write_ok = True,
     tn_pid = 4711, tn_gate = 4711, tn_system = False\<rparr>"

theorem launched_actor_is_admitted_witness:
  "\<exists>line args. command_line_of (snd (token_launch actor_answers (launch_spec AgentConfig_default None (generate_nonce [1, 2])))) = Some line
     \<and> parse_actor_args (argv (line_read line)) = Inr args
     \<and> hello_ok (sample_client\<lparr>cl_nonce := as_bytes (generate_nonce [1, 2])\<rparr>) actor_turn (hello_of (actor_options (utf ''0.1.0'') args))"
proof -
  let ?spec = "launch_spec AgentConfig_default None (generate_nonce [1, 2])"
  have "list_all (\<lambda>c. is_scalar c \<and> c \<noteq> 0) (ls_path ?spec)"
    by (simp add: launch_spec_def resolve_relative_to_agent_exe_def AgentConfig_default_def UserActorSection_default_def is_scalar_def utf_def win_def)
  moreover have "token_launch actor_answers ?spec = (Inr (Some 4711), snd (token_launch actor_answers ?spec))"
    using token_launch_result [of actor_answers ?spec 4711] by (metis actor_answers_def TokenAnswers.select_convs prod.collapse)
  moreover have "tn_gate actor_turn = fst (launch_job (Some (Some 4711)) ?spec 0 world0)"
    by (simp add: actor_turn_def launch_job_def max_def word_le_nat_alt)
  ultimately show ?thesis
    using launched_actor_is_admitted [of ?spec AgentConfig_default None "[1, 2]" actor_answers 4711 "snd (token_launch actor_answers ?spec)" "sample_client\<lparr>cl_nonce := as_bytes (generate_nonce [1, 2])\<rparr>"
        actor_turn 0 world0 "utf ''0.1.0''"]
    by (simp add: actor_turn_def del: utf_Cons)
qed

end
