(* ===== verification/Sensor_Hooks.thy ===== *)
theory Sensor_Hooks
  imports Sensor_Ring Driver_Event_Source Scope_Tracker_Plugin
begin

text \<open>
  The hooks of the sensor (\<^verbatim>\<open>crates/injectee/src/hooks\<close>, \<^verbatim>\<open>hooking.rs\<close>): the four detours over an arbitrary original
  function, their installation, and the way of a hooked call through the ring, the driver's record and
  the agent's mapping to the scope tracker. Pointers and handles are 64-bit words; patching code is the
  detour library's, its answers are inputs.
\<close>

subsection \<open>Detours\<close>

type_synonym i32 = "32 word"

text \<open>A detour reports the call and passes it on; \<open>thread\<close> is the calling thread, the state the ring and the rest of the process.\<close>

definition pass_on :: "u32 \<Rightarrow> u32 \<Rightarrow> u64 \<times> u64 \<times> u64 \<times> u64 \<Rightarrow> ('a \<Rightarrow> 's \<Rightarrow> i32 \<times> 's) \<Rightarrow> 'a \<Rightarrow> Ring option \<times> 's
    \<Rightarrow> i32 \<times> Ring option \<times> 's" where
  "pass_on thread api args original a st = (case st of (ring, s) \<Rightarrow> case args of (a0, a1, a2, a3) \<Rightarrow>
     let ring = emit \<lparr>em_api = api, em_thread = thread, em_arg0 = a0, em_arg1 = a1, em_arg2 = a2, em_arg3 = a3\<rparr> ring in
     case original a s of (status, s) \<Rightarrow> (status, ring, s))"

record NtCreateFile =
  cf_file_handle :: u64
  cf_desired_access :: u32
  cf_object_attributes :: u64
  cf_io_status_block :: u64
  cf_allocation_size :: u64
  cf_file_attributes :: u32
  cf_share_access :: u32
  cf_create_disposition :: u32
  cf_create_options :: u32
  cf_ea_buffer :: u64
  cf_ea_length :: u32

definition ntcreatefile_detour :: "u32 \<Rightarrow> (NtCreateFile \<Rightarrow> 's \<Rightarrow> i32 \<times> 's) \<Rightarrow> NtCreateFile \<Rightarrow> Ring option \<times> 's \<Rightarrow> i32 \<times> Ring option \<times> 's" where
  "ntcreatefile_detour thread original a = pass_on thread NT_CREATE_FILE
     (ucast (cf_desired_access a), ucast (cf_create_disposition a), ucast (cf_create_options a), cf_file_handle a) original a"

record NtWriteFile =
  wf_file_handle :: u64
  wf_event :: u64
  wf_apc_routine :: u64
  wf_apc_context :: u64
  wf_io_status_block :: u64
  wf_buffer :: u64
  wf_length :: u32
  wf_byte_offset :: u64
  wf_key :: u64

definition ntwritefile_detour :: "u32 \<Rightarrow> (NtWriteFile \<Rightarrow> 's \<Rightarrow> i32 \<times> 's) \<Rightarrow> NtWriteFile \<Rightarrow> Ring option \<times> 's \<Rightarrow> i32 \<times> Ring option \<times> 's" where
  "ntwritefile_detour thread original a = pass_on thread NT_WRITE_FILE (wf_file_handle a, ucast (wf_length a), wf_byte_offset a, 0) original a"

record NtCreateThreadEx =
  ct_thread_handle :: u64
  ct_desired_access :: u32
  ct_object_attributes :: u64
  ct_process_handle :: u64
  ct_start_routine :: u64
  ct_argument :: u64
  ct_create_flags :: u32
  ct_zero_bits :: u64
  ct_stack_size :: u64
  ct_maximum_stack_size :: u64
  ct_attribute_list :: u64

definition ntcreatethreadex_detour :: "u32 \<Rightarrow> (NtCreateThreadEx \<Rightarrow> 's \<Rightarrow> i32 \<times> 's) \<Rightarrow> NtCreateThreadEx \<Rightarrow> Ring option \<times> 's
    \<Rightarrow> i32 \<times> Ring option \<times> 's" where
  "ntcreatethreadex_detour thread original a = pass_on thread NT_CREATE_THREAD_EX
     (ct_process_handle a, ct_start_routine a, ucast (ct_create_flags a), ucast (ct_desired_access a)) original a"

record NtDelayExecution =
  de_alertable :: u8
  de_delay_interval :: u64

definition ntdelayexecution_detour :: "u32 \<Rightarrow> (NtDelayExecution \<Rightarrow> 's \<Rightarrow> i32 \<times> 's) \<Rightarrow> NtDelayExecution \<Rightarrow> Ring option \<times> 's
    \<Rightarrow> i32 \<times> Ring option \<times> 's" where
  "ntdelayexecution_detour thread original a = pass_on thread NT_DELAY_EXECUTION (ucast (de_alertable a), de_delay_interval a, 0, 0) original a"

text \<open>The sample sees the same result and the same effects, whatever the state of the ring.\<close>

lemma pass_on_transparent:
  "(let r = pass_on thread api args original a (ring, s) in (fst r, snd (snd r))) = original a s"
  by (cases args; cases "original a s") (simp add: pass_on_def Let_def)

subsection \<open>Installation\<close>

datatype Hook = HookNtCreateFile | HookNtWriteFile | HookNtCreateThreadEx | HookNtDelayExecution

text \<open>What the loader and the detour library answer: the symbol resolves, the detour initializes, it is enabled.\<close>

record HookAnswers =
  ha_resolves :: bool
  ha_initializes :: bool
  ha_enables :: bool

definition hook_install :: "(Hook \<Rightarrow> HookAnswers) \<Rightarrow> Hook \<Rightarrow> Hook set \<Rightarrow> bool \<times> Hook set" where
  "hook_install answers hook enabled =
     (if hook \<in> enabled then (True, enabled)
      else if \<not> ha_resolves (answers hook) then (False, enabled)
      else if \<not> ha_initializes (answers hook) then (False, enabled)
      else if \<not> ha_enables (answers hook) then (False, enabled)
      else (True, insert hook enabled))"

fun hook_install_all :: "(Hook \<Rightarrow> HookAnswers) \<Rightarrow> Hook list \<Rightarrow> nat \<Rightarrow> Hook set \<Rightarrow> nat \<times> Hook set" where
  "hook_install_all answers [] failures enabled = (failures, enabled)"
| "hook_install_all answers (hook # hooks) failures enabled =
     (case hook_install answers hook enabled of (ok, enabled) \<Rightarrow>
        hook_install_all answers hooks (if ok then failures else failures + 1) enabled)"

definition sensor_hooks :: "Hook list" where
  "sensor_hooks = [HookNtCreateFile, HookNtWriteFile, HookNtCreateThreadEx, HookNtDelayExecution]"

definition install_all :: "(Hook \<Rightarrow> HookAnswers) \<Rightarrow> Hook set \<Rightarrow> (nat \<times> nat) option \<times> Hook set" where
  "install_all answers enabled =
     (case hook_install_all answers sensor_hooks 0 enabled of (failures, enabled) \<Rightarrow>
        (if failures = 0 then None else Some (failures, length sensor_hooks), enabled))"

definition installs :: "HookAnswers \<Rightarrow> bool" where
  "installs ans \<longleftrightarrow> ha_resolves ans \<and> ha_initializes ans \<and> ha_enables ans"

text \<open>One failing hook does not keep the others from being installed, and installing again does nothing to them.\<close>

lemma hook_install_all_effect:
  "snd (hook_install_all answers hooks f enabled) = enabled \<union> {h \<in> set hooks. installs (answers h)}"
  by (induction hooks arbitrary: f enabled) (auto simp: hook_install_def installs_def split: prod.splits)

lemma install_all_effect:
  "snd (install_all answers enabled) = enabled \<union> {h. installs (answers h)}"
  "fst (install_all answers enabled) = None \<longleftrightarrow> (\<forall>h. h \<in> enabled \<or> installs (answers h))"
proof -
  have all: "h \<in> set sensor_hooks" for h by (cases h) (simp_all add: sensor_hooks_def)
  show "snd (install_all answers enabled) = enabled \<union> {h. installs (answers h)}"
    using all hook_install_all_effect [of answers sensor_hooks 0 enabled] by (auto simp: install_all_def split: prod.splits)
  have "fst (hook_install_all answers hooks f enabled) = 0 \<longleftrightarrow> f = 0 \<and> (\<forall>h \<in> set hooks. h \<in> enabled \<or> installs (answers h))" for hooks f
    by (induction hooks arbitrary: f enabled) (auto simp: hook_install_def installs_def split: prod.splits)
  from this [of sensor_hooks 0] show "fst (install_all answers enabled) = None \<longleftrightarrow> (\<forall>h. h \<in> enabled \<or> installs (answers h))"
    using all by (cases "hook_install_all answers sensor_hooks 0 enabled") (auto simp: install_all_def)
qed

subsection \<open>A hooked call on its way to scoring\<close>

lemma tracker_ignores_call:
  "\<not> is_scoring_relevant (bc_api data) \<Longrightarrow>
   bus_events (w_log (snd (stp_pre lc (received, SourceDated (SourceEvent.BehaviorCall data) at) p w))) = bus_events (w_log w)"
  by (simp add: stp_pre_def handle_source_def on_behavior_call_def source_event_def Let_def)

text \<open>
  C24. Calls the sensor hooks never reach scoring. Take any call the sensor reports from a thread whose
  number is none of the five scoring ids (as all numbers from 13 on), delivered by a ring that never
  overflows, under any interleaving. The agent does decode the driver's record and accepts one event for
  it, but with the thread's number as its API id, so the scope tracker publishes no behaviour for it,
  not even for the creation of a thread in a process in scope, which is one of the scoring ids.
\<close>

theorem hooked_calls_miss_scoring:
  assumes "0 < n" "ring_reach within_ring n s" "i < sy_drained s" "\<not> is_scoring_relevant (em_thread (sy_claims s ! i))"
    and "decode (EmitBehaviorCallInternal pid create_time sequence time (sy_calls s ! i)) = Inr record"
    and "deliver now record ctx = (evs, ctx')"
  shows "\<exists>data at. evs = [SourceDated (SourceEvent.BehaviorCall data) at] \<and> bc_pid data = pid
    \<and> bc_api data = em_thread (sy_claims s ! i) \<and> bc_tid data = em_api (sy_claims s ! i)
    \<and> bus_events (w_log (snd (stp_pre lc (received, SourceDated (SourceEvent.BehaviorCall data) at) p w))) = bus_events (w_log w)"
proof -
  let ?e = "sy_claims s ! i"
  have "record = \<lparr>r_kind = KBehaviorCall, r_pid = pid, r_sequence = sequence, r_time = time, r_process_create_time = create_time,
      r_trunc_flags = 0, r_payload = WirePayload.BehaviorCall (em_api ?e) (em_thread ?e) (em_arg0 ?e) (em_arg1 ?e) (em_arg2 ?e) (em_arg3 ?e)\<rparr>"
    using drained_record [OF assms(1,2,3), of pid create_time sequence time] assms(5) by (simp add: Let_def)
  then obtain at where "evs = [SourceDated (SourceEvent.BehaviorCall \<lparr>bc_pid = pid, bc_tid = em_api ?e, bc_api = em_thread ?e,
      bc_arg0 = em_arg0 ?e, bc_arg1 = em_arg1 ?e, bc_arg2 = em_arg2 ?e, bc_arg3 = em_arg3 ?e\<rparr>) at]"
    using assms(6) by (auto simp: deliver_def map_record_def Let_def)
  then show ?thesis using tracker_ignores_call assms(4) by simp
qed

theorem hooked_calls_miss_scoring_witness:
  "\<exists>data at. fst (deliver 0 (projr (decode (EmitBehaviorCallInternal 4 5 6 7 (sy_calls one_call ! 0)))) DrainContext_new)
     = [SourceDated (SourceEvent.BehaviorCall data) at] \<and> bc_api data = 1234
     \<and> bus_events (w_log (snd (stp_pre id ([], SourceDated (SourceEvent.BehaviorCall data) at) (ScopeTrackerPlugin_new (utf ''evil.exe'') False (DropFilter_new id [])) world0))) = []"
proof -
  let ?b = "EmitBehaviorCallInternal 4 5 6 7 (sy_calls one_call ! 0)"
  have "\<exists>r. decode ?b = Inr r"
    using drained_record [OF _ one_call_reached [OF disjI1 [OF refl]], of 0 4 5 6 7] by (simp add: one_call_def sys_new_def)
  then have d: "decode ?b = Inr (projr (decode ?b))" by auto
  have "\<not> is_scoring_relevant (em_thread (sy_claims one_call ! 0))"
    by (simp add: one_call_def call0_def is_scoring_relevant_def NT_CREATE_THREAD_EX_def NT_SET_VALUE_KEY_RUN_KEY_def
        NT_WRITE_VM_CROSS_PROCESS_def NT_DELETE_FILE_SHADOW_COPY_def CRYPT_ENCRYPT_def)
  from hooked_calls_miss_scoring [OF _ one_call_reached [OF disjI1 [OF refl]] _ this d surjective_pairing, of 0 DrainContext_new id "[]"
      "ScopeTrackerPlugin_new (utf ''evil.exe'') False (DropFilter_new id [])" world0]
  show ?thesis by (auto simp: one_call_def call0_def world0_def)
qed

end
