(* ===== verification/Service_Host.thy ===== *)
theory Service_Host
  imports Agent_Host Broker_Adapters "HOL-Library.Sublist"
begin

text \<open>
  The hosts that run the agent (\<^verbatim>\<open>crates/agent/src/bin/secoutfall-agent.rs\<close>) and the service entry
  (\<^verbatim>\<open>adapters/driving/service_control.rs\<close>): installation and removal over an arbitrary service control manager,
  the adapters a build selects, and the bodies of the console and of the service as the sequence of
  steps they take. Files, the broker, the device and the service control manager are inputs; starting a
  session is loading the scope and booting the assembled agent.
\<close>

subsection \<open>Service control manager\<close>

datatype ScmError = Winapi "int option" | OtherScm

definition raw_is :: "ScmError \<Rightarrow> int \<Rightarrow> bool" where
  "raw_is error code = (case error of Winapi raw \<Rightarrow> raw = Some code | OtherScm \<Rightarrow> False)"

definition ERROR_SERVICE_DOES_NOT_EXIST :: int where "ERROR_SERVICE_DOES_NOT_EXIST = 1060"
definition ERROR_SERVICE_NOT_ACTIVE :: int where "ERROR_SERVICE_NOT_ACTIVE = 1062"
definition ERROR_SERVICE_MARKED_FOR_DELETE :: int where "ERROR_SERVICE_MARKED_FOR_DELETE = 1072"
definition STOP_WAIT :: nat where "STOP_WAIT = 10000"
definition SERVICE_NAME :: rstr where "SERVICE_NAME = utf ''SecOutfallAgent''"
definition SERVICE_DISPLAY_NAME :: rstr where "SERVICE_DISPLAY_NAME = utf ''SecOutfall Agent''"

datatype ServiceState = SvcStopped | SvcStartPending | SvcStopPending | SvcRunning | SvcContinuePending | SvcPausePending | SvcPaused

record ServiceInfo =
  si_name :: rstr
  si_display_name :: rstr
  si_auto_start :: bool
  si_executable_path :: rstr
  si_launch_arguments :: "rstr list"
  si_account_name :: "rstr option"

text \<open>The calls of the service library over the state \<open>'s\<close> of the machine; a query lets time pass.\<close>

record 's ServiceManager =
  sm_connect :: "'s \<Rightarrow> ScmError + unit"
  sm_open :: "'s \<Rightarrow> ScmError + unit"
  sm_create :: "ServiceInfo \<Rightarrow> bool \<Rightarrow> 's \<Rightarrow> (ScmError + unit) \<times> 's"
  sm_set_description :: "'s \<Rightarrow> 's"
  sm_start :: "rstr list \<Rightarrow> 's \<Rightarrow> (ScmError + unit) \<times> 's"
  sm_query :: "'s \<Rightarrow> (ScmError + ServiceState) \<times> 's"
  sm_stop :: "'s \<Rightarrow> (ScmError + unit) \<times> 's"
  sm_delete :: "'s \<Rightarrow> (ScmError + unit) \<times> 's"

datatype ServiceOpError = AlreadyInstalled | NotInstalled | OpConfig ConfigLoadError | OpIo | OpScm ScmError

definition service_info :: "rstr \<Rightarrow> rstr \<Rightarrow> ServiceInfo" where
  "service_info executable_path config_path =
     \<lparr>si_name = SERVICE_NAME, si_display_name = SERVICE_DISPLAY_NAME, si_auto_start = True, si_executable_path = executable_path,
      si_launch_arguments = service_launch_arguments config_path, si_account_name = None\<rparr>"

definition install :: "'s ServiceManager \<Rightarrow> ConfigLoadError + AgentConfig \<Rightarrow> rstr option \<Rightarrow> rstr \<Rightarrow> bool \<Rightarrow> 's \<Rightarrow> (ServiceOpError + unit) \<times> 's" where
  "install scm loaded current_exe config_path start_after_install s =
     (case loaded of Inl e \<Rightarrow> (Inl (OpConfig e), s)
      | Inr _ \<Rightarrow>
     (case current_exe of None \<Rightarrow> (Inl OpIo, s)
      | Some executable_path \<Rightarrow>
     (case sm_connect scm s of Inl e \<Rightarrow> (Inl (OpScm e), s)
      | Inr _ \<Rightarrow>
     if sm_open scm s = Inr () then (Inl AlreadyInstalled, s)
     else (case sm_create scm (service_info executable_path config_path) start_after_install s of
        (Inl e, s) \<Rightarrow> (Inl (OpScm e), s)
      | (Inr _, s) \<Rightarrow>
          let s = sm_set_description scm s in
          if start_after_install
          then (case sm_start scm [] s of (Inl e, s) \<Rightarrow> (Inl (OpScm e), s) | (Inr _, s) \<Rightarrow> (Inr (), s))
          else (Inr (), s)))))"

text \<open>The wait: \<open>elapsed k\<close> are the milliseconds passed at the check \<open>k\<close>; the fuel bounds the checks.\<close>

fun wait_until_stopped :: "'s ServiceManager \<Rightarrow> (nat \<Rightarrow> nat) \<Rightarrow> nat \<Rightarrow> nat \<Rightarrow> nat \<Rightarrow> 's \<Rightarrow> 's option" where
  "wait_until_stopped scm elapsed deadline k 0 s = None"
| "wait_until_stopped scm elapsed deadline k (Suc fuel) s =
     (if elapsed k < deadline then
        (case sm_query scm s of
           (Inr state, s) \<Rightarrow> if state = SvcStopped then Some s else wait_until_stopped scm elapsed deadline (Suc k) fuel s
         | (Inl _, s) \<Rightarrow> Some s)
      else Some s)"

lemma wait_returns:
  assumes "\<And>k. elapsed k + 100 \<le> elapsed (Suc k)" "deadline \<le> elapsed k + 100 * fuel"
  shows "\<exists>s'. wait_until_stopped scm elapsed deadline k (Suc fuel) s = Some s'"
  using assms(2)
proof (induction fuel arbitrary: k s)
  case (Suc fuel)
  have "deadline \<le> elapsed (Suc k) + 100 * fuel" using Suc.prems assms(1) [of k] by simp
  from Suc.IH [OF this] show ?case by (auto split: prod.splits sum.splits)
qed (auto split: prod.splits sum.splits)

text \<open>\<open>STOP_WAIT\<close> is reached after at most 101 checks, 100 ms apart.\<close>

definition delete_service :: "'s ServiceManager \<Rightarrow> 's \<Rightarrow> ((ServiceOpError + unit) \<times> 's) option" where
  "delete_service scm s = (case sm_delete scm s of (Inl e, s) \<Rightarrow> Some (Inl (OpScm e), s) | (Inr _, s) \<Rightarrow> Some (Inr (), s))"

definition uninstall :: "'s ServiceManager \<Rightarrow> (nat \<Rightarrow> nat) \<Rightarrow> 's \<Rightarrow> ((ServiceOpError + unit) \<times> 's) option" where
  "uninstall scm elapsed s =
     (case sm_connect scm s of Inl e \<Rightarrow> Some (Inl (OpScm e), s)
      | Inr _ \<Rightarrow>
     (case sm_open scm s of
        Inl e \<Rightarrow> Some (Inl (if raw_is e ERROR_SERVICE_DOES_NOT_EXIST then NotInstalled else OpScm e), s)
      | Inr _ \<Rightarrow>
     (case sm_query scm s of
        (Inr state, s) \<Rightarrow>
          if state = SvcStopped then delete_service scm s
          else (case sm_stop scm s of (stopped, s) \<Rightarrow>
            case stopped of
              Inl e \<Rightarrow> if \<not> raw_is e ERROR_SERVICE_NOT_ACTIVE then Some (Inl (OpScm e), s)
                else Option.bind (wait_until_stopped scm elapsed STOP_WAIT 0 101 s) (delete_service scm)
            | Inr _ \<Rightarrow> Option.bind (wait_until_stopped scm elapsed STOP_WAIT 0 101 s) (delete_service scm))
      | (Inl e, s) \<Rightarrow> if raw_is e ERROR_SERVICE_MARKED_FOR_DELETE then delete_service scm s else Some (Inl (OpScm e), s))))"

lemma uninstall_returns:
  assumes "\<And>k. elapsed k + 100 \<le> elapsed (Suc k)"
  shows "uninstall scm elapsed s \<noteq> None"
proof -
  have deletes: "delete_service scm t \<noteq> None" for t
    by (auto simp: delete_service_def split: prod.splits sum.splits)
  have "Option.bind (wait_until_stopped scm elapsed STOP_WAIT 0 101 t) (delete_service scm) \<noteq> None" for t
    using wait_returns [of elapsed STOP_WAIT 0 100 scm t] assms deletes by (auto simp: STOP_WAIT_def)
  with deletes show ?thesis by (simp add: uninstall_def split: sum.splits prod.splits)
qed

text \<open>An installation that changes anything had a valid configuration and found no service of the name.\<close>

lemma install_guarded:
  assumes "snd (install scm loaded exe path start s) \<noteq> s"
  shows "(\<exists>config. loaded = Inr config) \<and> (\<exists>e. sm_open scm s = Inl e)"
  using assms by (cases "sm_open scm s") (auto simp: install_def split: sum.splits option.splits if_splits)

lemma install_registers:
  assumes "install scm loaded exe path start s = (Inr (), s')"
  shows "\<exists>executable t. exe = Some executable \<and> sm_create scm (service_info executable path) start s = (Inr (), t)
    \<and> (if start then sm_start scm [] (sm_set_description scm t) = (Inr (), s') else s' = sm_set_description scm t)"
  using assms by (auto simp: install_def Let_def split: sum.splits option.splits if_splits prod.splits)

subsection \<open>The adapters of a build\<close>

record Features =
  ft_launcher :: bool
  ft_schedtask :: bool
  ft_associations :: bool
  ft_killer :: bool
  ft_time_shift :: bool
  ft_driver :: bool
  ft_etw :: bool
  ft_ipc :: bool

datatype ScopeRepo = JsonScope rstr | InMemoryScope | LocalScope rstr

datatype BrokerAdapter = NatsAdapter NatsBroker | ConsoleBroker | TeeBroker "BrokerAdapter list" | JsonlBroker rstr

datatype UploadAdapter = HttpUploader | FakeUploader

datatype LauncherAdapter = TokenProcessLauncher | SchedTaskLauncher rstr | UnavailableLauncher | FakeLauncher

datatype ShellAdapter = RegistryShell | UnavailableShell | FakeShell

datatype KillerAdapter = WindowsKiller | UnavailableKiller | FakeKiller

datatype ShifterAdapter = WindowsShifter | UnavailableShifter | FakeClock

record SessionDeps =
  sd_config :: AgentConfig
  sd_scope_repo :: ScopeRepo
  sd_broker :: BrokerAdapter
  sd_uploader :: UploadAdapter
  sd_launcher :: LauncherAdapter
  sd_shell :: ShellAdapter
  sd_killer :: KillerAdapter
  sd_shifter :: ShifterAdapter
  sd_driver_control :: bool
  sd_user_actor_nonce :: rstr

definition production_launcher :: "Features \<Rightarrow> AgentConfig \<Rightarrow> LauncherAdapter" where
  "production_launcher ft config =
     (case pf_launch_mechanism (ac_platform config) of
        LaunchMechanism.SchedTask \<Rightarrow> if ft_schedtask ft then SchedTaskLauncher (pf_runas_utility_path (ac_platform config)) else UnavailableLauncher
      | LaunchMechanism.Token \<Rightarrow> if ft_launcher ft then TokenProcessLauncher else UnavailableLauncher)"

definition production_shell :: "Features \<Rightarrow> ShellAdapter" where
  "production_shell ft = (if ft_associations ft then RegistryShell else UnavailableShell)"

definition production_killer :: "Features \<Rightarrow> KillerAdapter" where
  "production_killer ft = (if ft_killer ft then WindowsKiller else UnavailableKiller)"

definition production_shifter :: "Features \<Rightarrow> ShifterAdapter" where
  "production_shifter ft = (if ft_time_shift ft then WindowsShifter else UnavailableShifter)"

definition driver_stats_handle :: "Features \<Rightarrow> bool \<Rightarrow> AgentConfig \<Rightarrow> bool" where
  "driver_stats_handle ft device_opens config = (ft_driver ft \<and> dv_enabled (ac_driver config) \<and> device_opens)"

text \<open>
  What the host meets: files by path, the parser, the broker's answers, whether the uploader, the device
  and the event log are there, what the service control manager makes of the handler and of a status, the directories that
  can be created, whether a DSN parses; and for the session, the stored scope and the environment of the agent.
\<close>

datatype StatusReport = StatusReport (sr_state: ServiceState) (sr_stop_accepted: bool) (sr_wait_hint: nat)

record 'f HostEnv =
  he_features :: Features
  he_file :: "rstr \<Rightarrow> 'f option"
  he_exists :: "rstr \<Rightarrow> bool"
  he_from_toml_str :: "'f \<Rightarrow> ConfigError + AgentConfig"
  he_temp_dir :: "rstr \<Rightarrow> rstr"
  he_broker :: "nat \<Rightarrow> rstr option"
  he_uploader :: bool
  he_device_opens :: bool
  he_opens_log :: "rstr \<Rightarrow> bool"
  he_register :: "ScmError + unit"
  he_status :: "StatusReport \<Rightarrow> ScmError + unit"
  he_create_dir :: "rstr \<Rightarrow> bool"
  he_dsn_parses :: "rstr \<Rightarrow> bool"
  he_nonce :: rstr
  he_scope :: "ScopeRepo \<Rightarrow> unit + ScopeState"
  he_fresh_id :: Uuid
  he_build :: AgentBuild
  he_received :: "nat \<Rightarrow> Received list"
  he_try_send :: "nat \<Rightarrow> TrySend"
  he_world :: World

datatype HostError = ScmFailed ScmError | ConfigFailed ConfigLoadError | BrokerFailed ConnectError | UploaderFailed
  | EventLogFailed | ScopeFailed | BootFailed

text \<open>Where the log goes, with the degradation that is then logged: the directory wanted, the fallback if it works.\<close>

definition tracing_dir :: "'f HostEnv \<Rightarrow> rstr option \<Rightarrow> rstr option \<times> (rstr \<times> rstr option) option" where
  "tracing_dir env log_dir =
     (case log_dir of None \<Rightarrow> (None, None)
      | Some dir \<Rightarrow>
          let fallback = he_temp_dir env (utf ''secoutfall-logs'') in
          if he_create_dir env dir then (Some dir, None)
          else if he_create_dir env fallback then (Some fallback, Some (dir, Some fallback))
          else (None, Some (dir, None)))"

definition init_sentry :: "'f HostEnv \<Rightarrow> AgentConfig \<Rightarrow> bool" where
  "init_sentry env config = (te_sentry_enabled (ac_telemetry config) \<and> he_dsn_parses env (te_dsn (ac_telemetry config)))"

definition production_session_deps :: "'f HostEnv \<Rightarrow> AgentConfig \<Rightarrow> HostError + SessionDeps" where
  "production_session_deps env config =
     (case fst (connect (ac_broker config) (he_broker env)) of
        Inl e \<Rightarrow> Inl (BrokerFailed e)
      | Inr broker \<Rightarrow>
          if \<not> he_uploader env then Inl UploaderFailed
          else Inr \<lparr>sd_config = config, sd_scope_repo = JsonScope (sy_scope_path (ac_study config)), sd_broker = NatsAdapter broker,
            sd_uploader = HttpUploader, sd_launcher = production_launcher (he_features env) config,
            sd_shell = production_shell (he_features env), sd_killer = production_killer (he_features env),
            sd_shifter = production_shifter (he_features env),
            sd_driver_control = driver_stats_handle (he_features env) (he_device_opens env) config,
            sd_user_actor_nonce = he_nonce env\<rparr>)"

definition demo_session_deps :: "'f HostEnv \<Rightarrow> HostError + SessionDeps" where
  "demo_session_deps env =
     (case demo_config (he_temp_dir env) of
        Inl e \<Rightarrow> Inl (ConfigFailed (Schema e))
      | Inr config \<Rightarrow> Inr \<lparr>sd_config = config, sd_scope_repo = InMemoryScope, sd_broker = ConsoleBroker, sd_uploader = FakeUploader,
          sd_launcher = FakeLauncher, sd_shell = FakeShell, sd_killer = FakeKiller, sd_shifter = FakeClock,
          sd_driver_control = False, sd_user_actor_nonce = he_nonce env\<rparr>)"

text \<open>\<open>RunningSession::start\<close>: the booted agent.\<close>

definition session_start :: "'f HostEnv \<Rightarrow> SessionDeps \<Rightarrow> HostError + Agent" where
  "session_start env deps =
     (case load_scope_state (he_scope env (sd_scope_repo deps)) (he_fresh_id env) of
        Inl _ \<Rightarrow> Inl ScopeFailed
      | Inr state \<Rightarrow>
          let b = (he_build env)\<lparr>ab_config := sd_config deps, ab_nonce := sd_user_actor_nonce deps\<rparr>;
              w = (he_world env)\<lparr>w_scope := state\<rparr> in
          (case boot (plugins b) (assemble b (he_received env) (he_try_send env) w) of
             (Inl _, _) \<Rightarrow> Inl BootFailed
           | (Inr _, agent) \<Rightarrow> Inr agent))"

definition local_session_deps :: "'f HostEnv \<Rightarrow> AgentConfig \<Rightarrow> HostError + SessionDeps" where
  "local_session_deps env config =
     (let events_path = utf ''events.jsonl''; scope_path = utf ''local-scope.json'' in
      if \<not> he_opens_log env events_path then Inl EventLogFailed
      else Inr \<lparr>sd_config = config, sd_scope_repo = LocalScope scope_path, sd_broker = TeeBroker [ConsoleBroker, JsonlBroker events_path],
        sd_uploader = FakeUploader, sd_launcher = production_launcher (he_features env) config,
        sd_shell = production_shell (he_features env), sd_killer = production_killer (he_features env),
        sd_shifter = production_shifter (he_features env),
        sd_driver_control = driver_stats_handle (he_features env) (he_device_opens env) config,
        sd_user_actor_nonce = he_nonce env\<rparr>)"

subsection \<open>The bodies of the hosts\<close>

datatype HostAction = Tracing "rstr option" | RegisterHandler | Report StatusReport | Sentry bool | Session SessionDeps Agent
  | AttachIpc AgentConfig rstr | CtrlC | AttachSource bool SourceHandle | ForwardScm | RunUntilStop | StopSource SourceHandle

text \<open>A body as its result and the steps it took; \<open>bind_s\<close> is the \<open>?\<close> operator with the steps kept.\<close>

type_synonym 'a steps = "(HostError + 'a) \<times> HostAction list"

definition bind_s :: "'a steps \<Rightarrow> ('a \<Rightarrow> 'b steps) \<Rightarrow> 'b steps" where
  "bind_s m f = (case m of (Inl e, taken) \<Rightarrow> (Inl e, taken)
     | (Inr a, taken) \<Rightarrow> (case f a of (r, then_taken) \<Rightarrow> (r, taken @ then_taken)))"

definition act :: "HostAction \<Rightarrow> unit steps" where
  "act a = (Inr (), [a])"

definition try_s :: "HostError + 'a \<Rightarrow> 'a steps" where
  "try_s r = (r, [])"

definition start_pending :: "nat \<Rightarrow> StatusReport" where
  "start_pending wait_hint = StatusReport SvcStartPending False wait_hint"

definition status_set :: "ServiceState \<Rightarrow> bool \<Rightarrow> StatusReport" where
  "status_set current_state controls_accepted = StatusReport current_state controls_accepted 10"

definition status_running :: StatusReport where "status_running = status_set SvcRunning True"

definition status_stopped :: StatusReport where "status_stopped = status_set SvcStopped False"

definition report :: "'f HostEnv \<Rightarrow> StatusReport \<Rightarrow> unit steps" where
  "report env st = (case he_status env st of Inl e \<Rightarrow> Inl (ScmFailed e) | Inr _ \<Rightarrow> Inr (), [Report st])"

definition load_config :: "'f HostEnv \<Rightarrow> rstr \<Rightarrow> HostError + AgentConfig" where
  "load_config env path =
     (case config_load (he_from_toml_str env) (he_file env path) of Inl e \<Rightarrow> Inl (ConfigFailed e) | Inr config \<Rightarrow> Inr config)"

definition init_tracing :: "'f HostEnv \<Rightarrow> rstr option \<Rightarrow> unit steps" where
  "init_tracing env log_dir = act (Tracing (fst (tracing_dir env log_dir)))"

definition start_s :: "'f HostEnv \<Rightarrow> SessionDeps \<Rightarrow> unit steps" where
  "start_s env deps = (case session_start env deps of Inl e \<Rightarrow> (Inl e, []) | Inr agent \<Rightarrow> (Inr (), [Session deps agent]))"

definition attach_ipc :: "'f HostEnv \<Rightarrow> AgentConfig \<Rightarrow> rstr \<Rightarrow> unit steps" where
  "attach_ipc env config nonce = (Inr (), if ft_ipc (he_features env) then [AttachIpc config nonce] else [])"

definition attach_source :: "'f HostEnv \<Rightarrow> AgentConfig \<Rightarrow> SourceHandle steps" where
  "attach_source env config =
     (case attach_event_source (ft_driver (he_features env)) (ft_etw (he_features env)) config of
        (pushed, source) \<Rightarrow> (Inr source, [AttachSource pushed source]))"

definition run_service_body :: "'f HostEnv \<Rightarrow> rstr list \<Rightarrow> unit steps" where
  "run_service_body env argv =
     (let args = parse_from argv; nonce = he_nonce env in
      bind_s (case he_register env of Inl e \<Rightarrow> Inl (ScmFailed e) | Inr _ \<Rightarrow> Inr (), [RegisterHandler]) (\<lambda>_.
      bind_s (report env (start_pending 100)) (\<lambda>_.
      bind_s (try_s (load_config env (ar_config_path args))) (\<lambda>config.
      bind_s (init_tracing env (Some (te_log_dir (ac_telemetry config)))) (\<lambda>_.
      bind_s (try_s (production_session_deps env config)) (\<lambda>deps.
      bind_s (act (Sentry (init_sentry env (sd_config deps)))) (\<lambda>_.
      bind_s (start_s env deps) (\<lambda>_.
      bind_s (attach_ipc env (sd_config deps) nonce) (\<lambda>_.
      bind_s (attach_source env (sd_config deps)) (\<lambda>source.
      bind_s (report env status_running) (\<lambda>_.
      bind_s (act ForwardScm) (\<lambda>_.
      bind_s (act RunUntilStop) (\<lambda>_.
      bind_s (act (StopSource source)) (\<lambda>_.
      report env status_stopped))))))))))))))"

definition console :: "'f HostEnv \<Rightarrow> Args \<Rightarrow> unit steps" where
  "console env args =
     (let nonce = he_nonce env in
      bind_s (if ar_demo args
              then bind_s (init_tracing env None) (\<lambda>_. try_s (demo_session_deps env))
              else bind_s (try_s (load_config env (ar_config_path args))) (\<lambda>config.
                   bind_s (init_tracing env (Some (te_log_dir (ac_telemetry config)))) (\<lambda>_.
                   try_s (production_session_deps env config)))) (\<lambda>deps.
      bind_s (act (Sentry (init_sentry env (sd_config deps)))) (\<lambda>_.
      bind_s (start_s env deps) (\<lambda>_.
      bind_s (if \<not> ar_demo args then attach_ipc env (sd_config deps) nonce else (Inr (), [])) (\<lambda>_.
      bind_s (act CtrlC) (\<lambda>_.
      bind_s (attach_source env (sd_config deps)) (\<lambda>source.
      bind_s (act RunUntilStop) (\<lambda>_.
      act (StopSource source)))))))))"

definition local :: "'f HostEnv \<Rightarrow> Args \<Rightarrow> unit steps" where
  "local env args =
     bind_s (try_s (case local_config (he_from_toml_str env) (he_temp_dir env) (he_exists env (ar_config_path args))
         (he_file env (ar_config_path args)) args of Inl e \<Rightarrow> Inl (ConfigFailed e) | Inr config \<Rightarrow> Inr config)) (\<lambda>config.
      bind_s (init_tracing env (Some (te_log_dir (ac_telemetry config)))) (\<lambda>_.
      bind_s (try_s (local_session_deps env config)) (\<lambda>deps.
      bind_s (start_s env deps) (\<lambda>_.
      bind_s (act CtrlC) (\<lambda>_.
      bind_s (attach_source env config) (\<lambda>source.
      bind_s (act RunUntilStop) (\<lambda>_.
      act (StopSource source))))))))"

text \<open>The failure boundary of the service: the sinks a failure is reported to.\<close>

datatype FailureSink = WindowsEventLog | FallbackFile | TracingSink | Stderr

definition service_report_failure :: "bool \<Rightarrow> FailureSink list" where
  "service_report_failure tracing_active =
     [WindowsEventLog, FallbackFile] @ (if tracing_active then [TracingSink] else []) @ [Stderr]"

definition service_main :: "'f HostEnv \<Rightarrow> bool \<Rightarrow> rstr list \<Rightarrow> HostAction list \<times> FailureSink list" where
  "service_main env runtime_builds argv =
     (if \<not> runtime_builds then ([], service_report_failure False)
      else (case run_service_body env argv of
        (Inl _, taken) \<Rightarrow> (taken, service_report_failure (\<exists>a \<in> set taken. case a of Tracing _ \<Rightarrow> True | _ \<Rightarrow> False))
      | (Inr _, taken) \<Rightarrow> (taken, [])))"

subsection \<open>What the service reports\<close>

definition reports :: "HostAction list \<Rightarrow> StatusReport list" where
  "reports taken = List.map_filter (\<lambda>a. case a of Report st \<Rightarrow> Some st | _ \<Rightarrow> None) taken"

lemma reports_simps [simp]:
  "reports [] = []" "reports (xs @ ys) = reports xs @ reports ys" "reports (Report st # xs) = st # reports xs"
  "reports (RegisterHandler # xs) = reports xs" "reports (Tracing d # xs) = reports xs" "reports (Sentry on # xs) = reports xs"
  "reports (Session deps agent # xs) = reports xs" "reports (AttachIpc config nonce # xs) = reports xs"
  "reports (AttachSource pushed source # xs) = reports xs" "reports (ForwardScm # xs) = reports xs"
  "reports (RunUntilStop # xs) = reports xs" "reports (StopSource source # xs) = reports xs"
  by (simp_all add: reports_def map_filter_def)

lemma bind_s_simps [simp]:
  "bind_s (Inl e, taken) f = (Inl e, taken)" "bind_s (Inr a, taken) f = (fst (f a), taken @ snd (f a))"
  by (simp_all add: bind_s_def split: prod.splits)

lemma bind_steps:
  "bind_s (try_s r) f = (case r of Inl e \<Rightarrow> (Inl e, []) | Inr a \<Rightarrow> f a)"
  "bind_s (act a) g = (fst (g ()), a # snd (g ()))"
  "bind_s (init_tracing env d) g = (fst (g ()), Tracing (fst (tracing_dir env d)) # snd (g ()))"
  "bind_s (report env st) g = (case he_status env st of Inl e \<Rightarrow> (Inl (ScmFailed e), [Report st])
     | Inr _ \<Rightarrow> (fst (g ()), Report st # snd (g ())))"
  "bind_s (start_s env deps) g = (case session_start env deps of Inl e \<Rightarrow> (Inl e, [])
     | Inr agent \<Rightarrow> (fst (g ()), Session deps agent # snd (g ())))"
  "bind_s (attach_ipc env config nonce) g = (fst (g ()), (if ft_ipc (he_features env) then [AttachIpc config nonce] else []) @ snd (g ()))"
  "bind_s (attach_source env config) h =
     (let (pushed, source) = attach_event_source (ft_driver (he_features env)) (ft_etw (he_features env)) config in
      (fst (h source), AttachSource pushed source # snd (h source)))"
  by (simp_all add: try_s_def act_def init_tracing_def report_def start_s_def attach_ipc_def attach_source_def Let_def
      split: sum.splits prod.splits)

text \<open>The service body in its stages: how far it got decides the result and what was reported.\<close>

lemma service_stages:
  assumes "run_service_body env argv = (r, taken)"
  shows "reports taken = [] \<and> r \<noteq> Inr ()
    \<or> reports taken = [start_pending 100] \<and> r \<noteq> Inr ()
    \<or> reports taken = [start_pending 100, status_running] \<and> r \<noteq> Inr () \<and> he_status env (start_pending 100) = Inr ()
    \<or> reports taken = [start_pending 100, status_running, status_stopped] \<and> he_status env (start_pending 100) = Inr ()
        \<and> he_status env status_running = Inr () \<and> (r = Inr () \<longleftrightarrow> he_status env status_stopped = Inr ())"
  using assms
  by (auto simp: run_service_body_def bind_steps Let_def report_def [of env status_stopped] split: sum.splits prod.splits if_splits)

definition accepted :: "'f HostEnv \<Rightarrow> HostAction list \<Rightarrow> ServiceState list" where
  "accepted env taken = map sr_state (filter (\<lambda>st. he_status env st = Inr ()) (reports taken))"

lemma connect_within_hint: "snd (connect config answer) \<le> 90"
proof -
  have "snd (attempts_loop config answer 18 5 1 18 err) \<le> 18 * 5" for err
    using attempts_loop_result [of config answer 18 5 1 18 err] by (metis prod.collapse)
  then show ?thesis
    by (simp add: connect_def connect_with_def CONNECT_ATTEMPTS_def CONNECT_RETRY_DELAY_def del: utf_Cons split: sum.splits)
qed

lemmas status_defs = start_pending_def status_running_def status_stopped_def status_set_def

text \<open>
  C32. What the service tells the service control manager. Whatever goes wrong and wherever, the service
  reports at most a pending start, then that it runs, then that it stopped, in this order; the hint of
  the pending start covers all the time connecting to the broker may sleep. The manager
  has accepted a stop exactly when the body succeeded: any failure after the handler is registered, of
  the configuration, of the broker or of the boot, leaves the service pending or running for the manager.
\<close>

theorem service_reports_stop_only_on_success:
  "case run_service_body env argv of (r, taken) \<Rightarrow>
     prefix (map sr_state (reports taken)) [SvcStartPending, SvcRunning, SvcStopped]
     \<and> list_all (\<lambda>st. sr_state st = SvcRunning \<or> sr_state st = SvcStopped \<or> snd (connect config (he_broker env)) < sr_wait_hint st) (reports taken)
     \<and> (r = Inr () \<longleftrightarrow> SvcStopped \<in> set (accepted env taken))"
proof -
  obtain r taken where run: "run_service_body env argv = (r, taken)" by fastforce
  have "snd (connect config (he_broker env)) < 100" using connect_within_hint [of config "he_broker env"] by simp
  with service_stages [OF run] show ?thesis by (auto simp: run status_defs accepted_def image_iff)
qed

subsection \<open>The configuration of the service\<close>

definition common :: "HostAction \<Rightarrow> bool" where
  "common a = (case a of RegisterHandler \<Rightarrow> False | Report _ \<Rightarrow> False | CtrlC \<Rightarrow> False | ForwardScm \<Rightarrow> False | _ \<Rightarrow> True)"

lemma parse_service_name: "ar_config_path (parse_from [SERVICE_NAME]) = ar_config_path Args_default"
  by (simp add: parse_from_def SERVICE_NAME_def Args_default_def)

lemma bind_s_assoc: "bind_s (bind_s m f) g = bind_s m (\<lambda>a. bind_s (f a) g)"
  by (simp add: bind_s_def split: prod.splits sum.splits)

lemma service_like_console:
  assumes "he_register env = Inr ()" "\<And>st. he_status env st = Inr ()" "ar_config_path (parse_from argv) = ar_config_path args" "\<not> ar_demo args"
  shows "fst (run_service_body env argv) = fst (console env args)"
    and "filter common (snd (run_service_body env argv)) = filter common (snd (console env args))"
  unfolding run_service_body_def console_def Let_def
  by (simp_all only: assms(3,4) if_False if_True not_False_eq_True bind_s_assoc)
    (use assms(1,2) in \<open>auto simp: bind_steps Let_def report_def [of env status_stopped] act_def common_def
      split: sum.splits prod.splits if_splits\<close>)

text \<open>
  What the service control manager hands over, as documented: the arguments of the service's image path
  to \<open>main\<close>, and the name of the service with the arguments of the start request to \<open>ServiceMain\<close>.
\<close>

definition scm_passes :: "ServiceInfo \<Rightarrow> rstr list \<Rightarrow> rstr list \<Rightarrow> rstr list \<Rightarrow> bool" where
  "scm_passes info start_arguments main_argv service_argv \<longleftrightarrow>
     main_argv = si_launch_arguments info \<and> service_argv = si_name info # start_arguments"

lemma load_other_file:
  "path \<noteq> path' \<Longrightarrow> load_config (env\<lparr>he_file := (he_file env)(path := x)\<rparr>) path' = load_config env path'"
  by (simp add: load_config_def)

lemma env_file_irrelevant:
  "production_session_deps (env\<lparr>he_file := f\<rparr>) = production_session_deps env" "session_start (env\<lparr>he_file := f\<rparr>) = session_start env"
  "tracing_dir (env\<lparr>he_file := f\<rparr>) = tracing_dir env" "init_sentry (env\<lparr>he_file := f\<rparr>) = init_sentry env"
  by (simp_all add: fun_eq_iff production_session_deps_def session_start_def tracing_dir_def init_sentry_def
      cong: sum.case_cong option.case_cong if_cong)

lemma service_ignores_other_files:
  assumes "path \<noteq> ar_config_path (parse_from argv)"
  shows "run_service_body (env\<lparr>he_file := (he_file env)(path := x)\<rparr>) argv = run_service_body env argv"
  using load_other_file [OF assms, of env x]
  by (simp add: run_service_body_def Let_def report_def init_tracing_def start_s_def attach_ipc_def attach_source_def env_file_irrelevant)

text \<open>
  C31. The configuration a service is installed with is not the one it runs with. Installing registers the
  given path in the arguments of the image, and they do make the process run as the service. With the
  arguments as the service control manager is documented to pass them, and it accepting what the
  service reports, the service then runs exactly as a console started without arguments does, step for
  step and with the same result: it reads the default path. Whatever the file it was installed
  with holds, even none at all, makes no difference.
\<close>

theorem installed_service_runs_default_config:
  assumes "install scm loaded (Some executable) path False s = (Inr (), s')"
    and "scm_passes (service_info executable path) [] main_argv service_argv"
    and "he_register env = Inr ()" "\<And>st. he_status env st = Inr ()" "path \<noteq> win ''C:/Agent.toml''"
  shows "fst (sm_create scm (service_info executable path) False s) = Inr ()
    \<and> host_mode (parse_from main_argv) = Service \<and> ar_config_path (parse_from main_argv) = path
    \<and> fst (run_service_body env service_argv) = fst (console env Args_default)
    \<and> filter common (snd (run_service_body env service_argv)) = filter common (snd (console env Args_default))
    \<and> run_service_body (env\<lparr>he_file := (he_file env)(path := content)\<rparr>) service_argv = run_service_body env service_argv"
proof -
  have argv: "main_argv = service_launch_arguments path" "service_argv = [SERVICE_NAME]"
    using assms(2) by (simp_all add: scm_passes_def service_info_def)
  have default: "ar_config_path (parse_from service_argv) = ar_config_path Args_default" by (simp add: argv parse_service_name)
  have "path \<noteq> ar_config_path (parse_from service_argv)" using assms(5) default by (simp add: Args_default_def)
  note ignored = service_ignores_other_files [OF this, of env content]
  have "\<not> ar_demo Args_default" by (simp add: Args_default_def)
  note like = service_like_console [OF assms(3,4) default this]
  have "fst (sm_create scm (service_info executable path) False s) = Inr ()" using install_registers [OF assms(1)] by auto
  with like ignored show ?thesis by (simp add: argv(1) service_arguments_roundtrip)
qed

text \<open>A manager that registers what it is asked to, and a machine whose only configuration is the one installed with.\<close>

definition scm0 :: "ServiceInfo option ServiceManager" where
  "scm0 = \<lparr>sm_connect = \<lambda>_. Inr (), sm_open = \<lambda>s. if s = None then Inl (Winapi (Some 1060)) else Inr (),
     sm_create = \<lambda>info _ _. (Inr (), Some info), sm_set_description = id, sm_start = \<lambda>_ s. (Inr (), s),
     sm_query = \<lambda>s. (Inr SvcStopped, s), sm_stop = \<lambda>s. (Inr (), s), sm_delete = \<lambda>_. (Inr (), None)\<rparr>"

definition env0 :: "unit HostEnv" where
  "env0 = \<lparr>he_features = \<lparr>ft_launcher = True, ft_schedtask = True, ft_associations = True, ft_killer = True, ft_time_shift = True,
       ft_driver = True, ft_etw = True, ft_ipc = True\<rparr>,
     he_file = \<lambda>p. if p = win ''D:/study.toml'' then Some () else None, he_exists = \<lambda>p. p = win ''D:/study.toml'',
     he_from_toml_str = \<lambda>_. Inr (demo_settings (\<lambda>name. 47 # name)), he_temp_dir = \<lambda>name. 47 # name, he_broker = \<lambda>_. None, he_uploader = True, he_device_opens = True,
     he_opens_log = \<lambda>_. True, he_register = Inr (), he_status = \<lambda>_. Inr (), he_create_dir = \<lambda>_. True, he_dsn_parses = \<lambda>_. True,
     he_nonce = [], he_scope = \<lambda>_. Inr (w_scope world0), he_fresh_id = 1, he_build = build0, he_received = \<lambda>_. [],
     he_try_send = \<lambda>_. SendOk, he_world = world0\<rparr>"

lemma installable0: "config_load (he_from_toml_str env0) (he_file env0 (win ''D:/study.toml'')) = Inr (demo_settings (\<lambda>name. 47 # name))"
  using demo_config_valid [of "\<lambda>name. 47 # name"] by (auto simp: config_load_def env0_def demo_config_def bind_r_def split: sum.splits)

theorem installed_service_runs_default_config_witness:
  "fst (install scm0 (config_load (he_from_toml_str env0) (he_file env0 (win ''D:/study.toml''))) (Some (utf ''agent.exe'')) (win ''D:/study.toml'') False None) = Inr ()
    \<and> fst (run_service_body env0 [SERVICE_NAME]) = Inl (ConfigFailed Read)"
proof -
  let ?path = "win ''D:/study.toml''" and ?info = "service_info (utf ''agent.exe'') (win ''D:/study.toml'')"
  have inst: "install scm0 (Inr (demo_settings (\<lambda>name. 47 # name))) (Some (utf ''agent.exe'')) ?path False None = (Inr (), Some ?info)"
    by (simp add: install_def scm0_def)
  have passes: "scm_passes ?info [] (service_launch_arguments ?path) [SERVICE_NAME]" by (simp add: scm_passes_def service_info_def)
  have "he_register env0 = Inr ()" "\<And>st. he_status env0 st = Inr ()" "?path \<noteq> win ''C:/Agent.toml''"
    by (simp_all add: env0_def win_def)
  from installed_service_runs_default_config [OF inst passes this]
  have "fst (run_service_body env0 [SERVICE_NAME]) = fst (console env0 Args_default)" by blast
  also have "\<dots> = Inl (ConfigFailed Read)"
    by (simp add: console_def Args_default_def Let_def load_config_def env0_def config_load_def win_def try_s_def)
  finally show ?thesis unfolding installable0 inst by simp
qed

end
