(* ===== verification/Envelope_Wire.thy ===== *)
theory Envelope_Wire
  imports Effect_Log
begin

text \<open>
  The receiving side of the wire (\<^verbatim>\<open>crates/protocol/src/nats.rs\<close>, \<^verbatim>\<open>payload.rs\<close>): the strict validation of an
  envelope in its three layers and the dispatch of the payload to the schema its type names, and with it
  that whatever the agent sends is accepted. JSON values are an arbitrary type; how one struct is
  written and read is generated by a library and enters as one codec per struct.
\<close>

subsection \<open>Schemas\<close>

text \<open>A codec of one struct: how it is written, and how it is read or refused.\<close>

datatype (plugins only: code) ('v, 'e, 'a) codec = Codec (to_value: "'a \<Rightarrow> 'v") (of_value: "'v \<Rightarrow> 'e + 'a")

definition reads_back :: "('v, 'e, 'a) codec \<Rightarrow> bool" where
  "reads_back c \<longleftrightarrow> (\<forall>a. of_value c (to_value c a) = Inr a)"

datatype (plugins only: code) ('v, 'e) Schemas = Schemas
  (c_ProcessStarted: "('v, 'e, ProcessStartedData) codec")
  (c_ProcessStopped: "('v, 'e, ProcessStoppedData) codec")
  (c_ThreadStarted: "('v, 'e, ThreadStartedData) codec")
  (c_ThreadStopped: "('v, 'e, ThreadStoppedData) codec")
  (c_ImageLoaded: "('v, 'e, ImageLoadedData) codec")
  (c_ImageUnloaded: "('v, 'e, ImageUnloadedData) codec")
  (c_RegistryKey: "('v, 'e, RegistryKeyData) codec")
  (c_RegistryValueQueried: "('v, 'e, RegistryValueQueriedData) codec")
  (c_RegistryValueSet: "('v, 'e, RegistryValueSetData) codec")
  (c_FileCreated: "('v, 'e, FileCreatedData) codec")
  (c_FileWritten: "('v, 'e, FileWrittenData) codec")
  (c_FileReleased: "('v, 'e, FileReleasedData) codec")
  (c_FileDeleted: "('v, 'e, FileDeletedData) codec")
  (c_FileRenamed: "('v, 'e, FileRenamedData) codec")
  (c_FileFsctl: "('v, 'e, FileFsctlData) codec")
  (c_TcpConnection: "('v, 'e, TcpConnectionData) codec")
  (c_BehaviorCall: "('v, 'e, BehaviorCallData) codec")
  (c_ProtectionStripped: "('v, 'e, ProtectionStrippedData) codec")
  (c_SessionStarted: "('v, 'e, SessionStartedData) codec")
  (c_SessionFinalizing: "('v, 'e, SessionFinalizingData) codec")
  (c_SessionEnded: "('v, 'e, SessionEndedData) codec")
  (c_ScopeDied: "('v, 'e, ScopeDiedData) codec")
  (c_TargetLaunched: "('v, 'e, TargetLaunchedData) codec")
  (c_AgentState: "('v, 'e, AgentStateData) codec")
  (c_StudyScore: "('v, 'e, StudyScoreData) codec")
  (c_StudyDropsSummary: "('v, 'e, StudyDropsSummaryData) codec")
  (c_StudyRebootRequested: "('v, 'e, StudyRebootRequestedData) codec")
  (c_StudyShutdownRequested: "('v, 'e, StudyShutdownRequestedData) codec")
  (c_DropObserved: "('v, 'e, DropObservedData) codec")
  (c_DropClosed: "('v, 'e, DropClosedData) codec")
  (c_DropCopied: "('v, 'e, DropCopiedData) codec")
  (c_DropUploaded: "('v, 'e, DropUploadedData) codec")
  (c_ScreenshotReceived: "('v, 'e, ScreenshotReceivedData) codec")
  (c_ScreenshotUploaded: "('v, 'e, ScreenshotUploadedData) codec")
  (c_UserActorStarted: "('v, 'e, UserActorStartedData) codec")
  (c_UserActorStopped: "('v, 'e, UserActorStoppedData) codec")
  (c_ClockAdjusted: "('v, 'e, ClockAdjustedData) codec")
  (c_ControlKeepalive: "('v, 'e, ControlKeepaliveData) codec")
  (c_ControlReboot: "('v, 'e, ControlRebootData) codec")
  (c_ControlShutdown: "('v, 'e, ControlShutdownData) codec")

text \<open>Serialized untagged: the value of the struct alone.\<close>

primrec payload_to_value :: "('v, 'e) Schemas \<Rightarrow> Payload \<Rightarrow> 'v" where
    "payload_to_value sc (Payload.ProcessStarted d) = to_value (c_ProcessStarted sc) d"
  | "payload_to_value sc (Payload.ProcessStopped d) = to_value (c_ProcessStopped sc) d"
  | "payload_to_value sc (Payload.ThreadStarted d) = to_value (c_ThreadStarted sc) d"
  | "payload_to_value sc (Payload.ThreadStopped d) = to_value (c_ThreadStopped sc) d"
  | "payload_to_value sc (Payload.ImageLoaded d) = to_value (c_ImageLoaded sc) d"
  | "payload_to_value sc (Payload.ImageUnloaded d) = to_value (c_ImageUnloaded sc) d"
  | "payload_to_value sc (Payload.RegistryKeyCreated d) = to_value (c_RegistryKey sc) d"
  | "payload_to_value sc (Payload.RegistryKeyDeleted d) = to_value (c_RegistryKey sc) d"
  | "payload_to_value sc (Payload.RegistryKeyOpened d) = to_value (c_RegistryKey sc) d"
  | "payload_to_value sc (Payload.RegistryKeyClosed d) = to_value (c_RegistryKey sc) d"
  | "payload_to_value sc (Payload.RegistryKeyQueried d) = to_value (c_RegistryKey sc) d"
  | "payload_to_value sc (Payload.RegistryValueQueried d) = to_value (c_RegistryValueQueried sc) d"
  | "payload_to_value sc (Payload.RegistryValueSet d) = to_value (c_RegistryValueSet sc) d"
  | "payload_to_value sc (Payload.FileCreated d) = to_value (c_FileCreated sc) d"
  | "payload_to_value sc (Payload.FileWritten d) = to_value (c_FileWritten sc) d"
  | "payload_to_value sc (Payload.FileClosed d) = to_value (c_FileReleased sc) d"
  | "payload_to_value sc (Payload.FileCleanedUp d) = to_value (c_FileReleased sc) d"
  | "payload_to_value sc (Payload.FileDeleted d) = to_value (c_FileDeleted sc) d"
  | "payload_to_value sc (Payload.FileRenamed d) = to_value (c_FileRenamed sc) d"
  | "payload_to_value sc (Payload.FileFsctl d) = to_value (c_FileFsctl sc) d"
  | "payload_to_value sc (Payload.NetTcpConnected d) = to_value (c_TcpConnection sc) d"
  | "payload_to_value sc (Payload.NetTcpAccepted d) = to_value (c_TcpConnection sc) d"
  | "payload_to_value sc (Payload.NetTcpDisconnected d) = to_value (c_TcpConnection sc) d"
  | "payload_to_value sc (Payload.BehaviorCall d) = to_value (c_BehaviorCall sc) d"
  | "payload_to_value sc (Payload.ProtectionStripped d) = to_value (c_ProtectionStripped sc) d"
  | "payload_to_value sc (Payload.SessionStarted d) = to_value (c_SessionStarted sc) d"
  | "payload_to_value sc (Payload.SessionFinalizing d) = to_value (c_SessionFinalizing sc) d"
  | "payload_to_value sc (Payload.SessionEnded d) = to_value (c_SessionEnded sc) d"
  | "payload_to_value sc (Payload.ScopeDied d) = to_value (c_ScopeDied sc) d"
  | "payload_to_value sc (Payload.TargetLaunched d) = to_value (c_TargetLaunched sc) d"
  | "payload_to_value sc (Payload.AgentState d) = to_value (c_AgentState sc) d"
  | "payload_to_value sc (Payload.StudyScore d) = to_value (c_StudyScore sc) d"
  | "payload_to_value sc (Payload.StudyDropsSummary d) = to_value (c_StudyDropsSummary sc) d"
  | "payload_to_value sc (Payload.StudyRebootRequested d) = to_value (c_StudyRebootRequested sc) d"
  | "payload_to_value sc (Payload.StudyShutdownRequested d) = to_value (c_StudyShutdownRequested sc) d"
  | "payload_to_value sc (Payload.DropObserved d) = to_value (c_DropObserved sc) d"
  | "payload_to_value sc (Payload.DropClosed d) = to_value (c_DropClosed sc) d"
  | "payload_to_value sc (Payload.DropCopied d) = to_value (c_DropCopied sc) d"
  | "payload_to_value sc (Payload.DropUploaded d) = to_value (c_DropUploaded sc) d"
  | "payload_to_value sc (Payload.ScreenshotReceived d) = to_value (c_ScreenshotReceived sc) d"
  | "payload_to_value sc (Payload.ScreenshotUploaded d) = to_value (c_ScreenshotUploaded sc) d"
  | "payload_to_value sc (Payload.UserActorStarted d) = to_value (c_UserActorStarted sc) d"
  | "payload_to_value sc (Payload.UserActorStopped d) = to_value (c_UserActorStopped sc) d"
  | "payload_to_value sc (Payload.ClockAdjusted d) = to_value (c_ClockAdjusted sc) d"
  | "payload_to_value sc (Payload.ControlKeepalive d) = to_value (c_ControlKeepalive sc) d"
  | "payload_to_value sc (Payload.ControlReboot d) = to_value (c_ControlReboot sc) d"
  | "payload_to_value sc (Payload.ControlShutdown d) = to_value (c_ControlShutdown sc) d"

definition parsed :: "('v, 'e, 'a) codec \<Rightarrow> ('a \<Rightarrow> Payload) \<Rightarrow> 'v \<Rightarrow> 'e + Payload" where
  "parsed c variant data = bind_r (of_value c data) (\<lambda>d. Inr (variant d))"

fun from_raw :: "('v, 'e) Schemas \<Rightarrow> EventType \<Rightarrow> 'v \<Rightarrow> 'e + Payload" where
    "from_raw sc EventType.ProcessStarted data = parsed (c_ProcessStarted sc) Payload.ProcessStarted data"
  | "from_raw sc EventType.ProcessStopped data = parsed (c_ProcessStopped sc) Payload.ProcessStopped data"
  | "from_raw sc EventType.ThreadStarted data = parsed (c_ThreadStarted sc) Payload.ThreadStarted data"
  | "from_raw sc EventType.ThreadStopped data = parsed (c_ThreadStopped sc) Payload.ThreadStopped data"
  | "from_raw sc EventType.ImageLoaded data = parsed (c_ImageLoaded sc) Payload.ImageLoaded data"
  | "from_raw sc EventType.ImageUnloaded data = parsed (c_ImageUnloaded sc) Payload.ImageUnloaded data"
  | "from_raw sc EventType.RegistryKeyCreated data = parsed (c_RegistryKey sc) Payload.RegistryKeyCreated data"
  | "from_raw sc EventType.RegistryKeyDeleted data = parsed (c_RegistryKey sc) Payload.RegistryKeyDeleted data"
  | "from_raw sc EventType.RegistryKeyOpened data = parsed (c_RegistryKey sc) Payload.RegistryKeyOpened data"
  | "from_raw sc EventType.RegistryKeyClosed data = parsed (c_RegistryKey sc) Payload.RegistryKeyClosed data"
  | "from_raw sc EventType.RegistryKeyQueried data = parsed (c_RegistryKey sc) Payload.RegistryKeyQueried data"
  | "from_raw sc EventType.RegistryValueQueried data = parsed (c_RegistryValueQueried sc) Payload.RegistryValueQueried data"
  | "from_raw sc EventType.RegistryValueSet data = parsed (c_RegistryValueSet sc) Payload.RegistryValueSet data"
  | "from_raw sc EventType.FileCreated data = parsed (c_FileCreated sc) Payload.FileCreated data"
  | "from_raw sc EventType.FileWritten data = parsed (c_FileWritten sc) Payload.FileWritten data"
  | "from_raw sc EventType.FileClosed data = parsed (c_FileReleased sc) Payload.FileClosed data"
  | "from_raw sc EventType.FileCleanedUp data = parsed (c_FileReleased sc) Payload.FileCleanedUp data"
  | "from_raw sc EventType.FileDeleted data = parsed (c_FileDeleted sc) Payload.FileDeleted data"
  | "from_raw sc EventType.FileRenamed data = parsed (c_FileRenamed sc) Payload.FileRenamed data"
  | "from_raw sc EventType.FileFsctl data = parsed (c_FileFsctl sc) Payload.FileFsctl data"
  | "from_raw sc EventType.NetTcpConnected data = parsed (c_TcpConnection sc) Payload.NetTcpConnected data"
  | "from_raw sc EventType.NetTcpAccepted data = parsed (c_TcpConnection sc) Payload.NetTcpAccepted data"
  | "from_raw sc EventType.NetTcpDisconnected data = parsed (c_TcpConnection sc) Payload.NetTcpDisconnected data"
  | "from_raw sc EventType.BehaviorCall data = parsed (c_BehaviorCall sc) Payload.BehaviorCall data"
  | "from_raw sc EventType.ProtectionStripped data = parsed (c_ProtectionStripped sc) Payload.ProtectionStripped data"
  | "from_raw sc EventType.SessionStarted data = parsed (c_SessionStarted sc) Payload.SessionStarted data"
  | "from_raw sc EventType.SessionFinalizing data = parsed (c_SessionFinalizing sc) Payload.SessionFinalizing data"
  | "from_raw sc EventType.SessionEnded data = parsed (c_SessionEnded sc) Payload.SessionEnded data"
  | "from_raw sc EventType.ScopeDied data = parsed (c_ScopeDied sc) Payload.ScopeDied data"
  | "from_raw sc EventType.TargetLaunched data = parsed (c_TargetLaunched sc) Payload.TargetLaunched data"
  | "from_raw sc EventType.AgentState data = parsed (c_AgentState sc) Payload.AgentState data"
  | "from_raw sc EventType.StudyScore data = parsed (c_StudyScore sc) Payload.StudyScore data"
  | "from_raw sc EventType.StudyDropsSummary data = parsed (c_StudyDropsSummary sc) Payload.StudyDropsSummary data"
  | "from_raw sc EventType.StudyRebootRequested data = parsed (c_StudyRebootRequested sc) Payload.StudyRebootRequested data"
  | "from_raw sc EventType.StudyShutdownRequested data = parsed (c_StudyShutdownRequested sc) Payload.StudyShutdownRequested data"
  | "from_raw sc EventType.DropObserved data = parsed (c_DropObserved sc) Payload.DropObserved data"
  | "from_raw sc EventType.DropClosed data = parsed (c_DropClosed sc) Payload.DropClosed data"
  | "from_raw sc EventType.DropCopied data = parsed (c_DropCopied sc) Payload.DropCopied data"
  | "from_raw sc EventType.DropUploaded data = parsed (c_DropUploaded sc) Payload.DropUploaded data"
  | "from_raw sc EventType.ScreenshotReceived data = parsed (c_ScreenshotReceived sc) Payload.ScreenshotReceived data"
  | "from_raw sc EventType.ScreenshotUploaded data = parsed (c_ScreenshotUploaded sc) Payload.ScreenshotUploaded data"
  | "from_raw sc EventType.UserActorStarted data = parsed (c_UserActorStarted sc) Payload.UserActorStarted data"
  | "from_raw sc EventType.UserActorStopped data = parsed (c_UserActorStopped sc) Payload.UserActorStopped data"
  | "from_raw sc EventType.ClockAdjusted data = parsed (c_ClockAdjusted sc) Payload.ClockAdjusted data"
  | "from_raw sc EventType.ControlKeepalive data = parsed (c_ControlKeepalive sc) Payload.ControlKeepalive data"
  | "from_raw sc EventType.ControlReboot data = parsed (c_ControlReboot sc) Payload.ControlReboot data"
  | "from_raw sc EventType.ControlShutdown data = parsed (c_ControlShutdown sc) Payload.ControlShutdown data"

definition schemas_read_back :: "('v, 'e) Schemas \<Rightarrow> bool" where
  "schemas_read_back sc \<longleftrightarrow> reads_back (c_ProcessStarted sc) \<and> reads_back (c_ProcessStopped sc) \<and> reads_back (c_ThreadStarted sc) \<and> reads_back (c_ThreadStopped sc)
     \<and> reads_back (c_ImageLoaded sc) \<and> reads_back (c_ImageUnloaded sc) \<and> reads_back (c_RegistryKey sc) \<and> reads_back (c_RegistryValueQueried sc)
     \<and> reads_back (c_RegistryValueSet sc) \<and> reads_back (c_FileCreated sc) \<and> reads_back (c_FileWritten sc) \<and> reads_back (c_FileReleased sc)
     \<and> reads_back (c_FileDeleted sc) \<and> reads_back (c_FileRenamed sc) \<and> reads_back (c_FileFsctl sc) \<and> reads_back (c_TcpConnection sc)
     \<and> reads_back (c_BehaviorCall sc) \<and> reads_back (c_ProtectionStripped sc) \<and> reads_back (c_SessionStarted sc) \<and> reads_back (c_SessionFinalizing sc)
     \<and> reads_back (c_SessionEnded sc) \<and> reads_back (c_ScopeDied sc) \<and> reads_back (c_TargetLaunched sc) \<and> reads_back (c_AgentState sc)
     \<and> reads_back (c_StudyScore sc) \<and> reads_back (c_StudyDropsSummary sc) \<and> reads_back (c_StudyRebootRequested sc) \<and> reads_back (c_StudyShutdownRequested sc)
     \<and> reads_back (c_DropObserved sc) \<and> reads_back (c_DropClosed sc) \<and> reads_back (c_DropCopied sc) \<and> reads_back (c_DropUploaded sc)
     \<and> reads_back (c_ScreenshotReceived sc) \<and> reads_back (c_ScreenshotUploaded sc) \<and> reads_back (c_UserActorStarted sc) \<and> reads_back (c_UserActorStopped sc)
     \<and> reads_back (c_ClockAdjusted sc) \<and> reads_back (c_ControlKeepalive sc) \<and> reads_back (c_ControlReboot sc) \<and> reads_back (c_ControlShutdown sc)"

lemma from_raw_typed: "from_raw sc t data = Inr p \<Longrightarrow> payload_event_type p = t"
  by (cases t) (auto simp: parsed_def bind_r_eq_Inr)

lemma from_raw_reads_back:
  assumes "schemas_read_back sc"
  shows "from_raw sc (payload_event_type p) (payload_to_value sc p) = Inr p"
  using assms by (cases p) (simp_all add: schemas_read_back_def reads_back_def parsed_def)

subsection \<open>Envelopes\<close>

datatype 'e ProtocolError = UnsupportedVersion u32 | InvalidEnvelope 'e | InvalidPayload EventType 'e

record 'v RawEnvelope =
  raw_v :: u32
  raw_event_type :: EventType
  raw_ts :: i64
  raw_study :: Uuid
  raw_session :: u32
  raw_seq :: u64
  raw_data :: 'v

definition from_value :: "('v, 'e, 'v RawEnvelope) codec \<Rightarrow> ('v, 'e) Schemas \<Rightarrow> 'v \<Rightarrow> 'e ProtocolError + Envelope" where
  "from_value rc sc value =
     (case of_value rc value of Inl e \<Rightarrow> Inl (InvalidEnvelope e)
      | Inr raw \<Rightarrow>
          if raw_v raw \<noteq> PROTOCOL_VERSION then Inl (UnsupportedVersion (raw_v raw))
          else (case from_raw sc (raw_event_type raw) (raw_data raw) of
             Inl source \<Rightarrow> Inl (InvalidPayload (raw_event_type raw) source)
           | Inr data \<Rightarrow> Inr \<lparr>env_v = raw_v raw, env_event_type = raw_event_type raw, env_ts = raw_ts raw, env_study = raw_study raw,
                env_session = raw_session raw, env_seq = raw_seq raw, env_data = data\<rparr>))"

text \<open>The envelope as the publisher writes it: the same fields, the payload untagged.\<close>

definition envelope_to_value :: "('v, 'e, 'v RawEnvelope) codec \<Rightarrow> ('v, 'e) Schemas \<Rightarrow> Envelope \<Rightarrow> 'v" where
  "envelope_to_value rc sc env = to_value rc
     \<lparr>raw_v = env_v env, raw_event_type = env_event_type env, raw_ts = env_ts env, raw_study = env_study env,
      raw_session = env_session env, raw_seq = env_seq env, raw_data = payload_to_value sc (env_data env)\<rparr>"

text \<open>Nothing ill-typed gets through, whatever the library's readers accept.\<close>

lemma from_value_well_typed: "from_value rc sc value = Inr env \<Longrightarrow> well_typed env"
  by (auto simp: from_value_def well_typed_def from_raw_typed split: sum.splits if_splits)

lemma from_value_of_well_typed:
  assumes "reads_back rc" "schemas_read_back sc" "well_typed env"
  shows "from_value rc sc (envelope_to_value rc sc env) = Inr env"
  using assms from_raw_reads_back [OF assms(2), of "env_data env"]
  by (simp add: from_value_def envelope_to_value_def reads_back_def well_typed_def)

text \<open>
  What is written is accepted exactly when it is well typed: a wrong version is refused as such, before
  the payload is looked at, and a payload of another type than the envelope names is accepted only if it
  happens to read as that type, and then as that type.
\<close>

lemma from_value_iff_well_typed:
  assumes "reads_back rc" "schemas_read_back sc"
  shows "from_value rc sc (envelope_to_value rc sc env) = Inr env \<longleftrightarrow> well_typed env"
  by (rule iffI) (rule from_value_well_typed, assumption, rule from_value_of_well_typed [OF assms])

lemma wrong_version_refused:
  assumes "reads_back rc" "env_v env \<noteq> PROTOCOL_VERSION"
  shows "from_value rc sc (envelope_to_value rc sc env) = Inl (UnsupportedVersion (env_v env))"
  using assms by (simp add: from_value_def envelope_to_value_def reads_back_def)

text \<open>
  C4. The receiver accepts everything the agent sends, as it was sent. When the library reads back each
  struct it has written, every envelope on either channel in any run of the agent, whatever its
  configuration and however its parts interleave, passes all three layers of the receiver's validation
  and is received as the envelope that was sent.
\<close>

theorem agent_speaks_protocol:
  assumes "reads_back rc" "schemas_read_back sc"
    and "sessions_wf (sst_sessions (w_scope w))" "w_log w = []"
    and "boot (plugins b) (assemble b received try_send w) = (result, a)" "(agent_step b)\<^sup>*\<^sup>* a a'"
    and "Publish ch env \<in> set (w_log (ag_world a'))"
  shows "from_value rc sc (envelope_to_value rc sc env) = Inr env"
  using from_value_of_well_typed [OF assms(1,2) run_publishes_well_typed [OF assms(3-7)]] .

subsection \<open>A concrete codec\<close>

text \<open>Values that are the structs themselves.\<close>

datatype (plugins only: code) wire_value = PayloadValue Payload | EnvelopeValue u32 EventType i64 Uuid u32 u64 wire_value

definition codec0 :: "('a \<Rightarrow> Payload) \<Rightarrow> (Payload \<Rightarrow> 'a option) \<Rightarrow> (wire_value, unit, 'a) codec" where
  "codec0 variant sel = Codec (\<lambda>d. PayloadValue (variant d))
     (\<lambda>v. case v of PayloadValue p \<Rightarrow> (case sel p of Some d \<Rightarrow> Inr d | None \<Rightarrow> Inl ()) | _ \<Rightarrow> Inl ())"

lemma codec0_reads_back: "(\<And>d. sel (variant d) = Some d) \<Longrightarrow> reads_back (codec0 variant sel)"
  by (simp add: reads_back_def codec0_def)

definition schemas0 :: "(wire_value, unit) Schemas" where
  "schemas0 = Schemas
     (codec0 Payload.ProcessStarted (\<lambda>p. case p of Payload.ProcessStarted d \<Rightarrow> Some d | _ \<Rightarrow> None))
     (codec0 Payload.ProcessStopped (\<lambda>p. case p of Payload.ProcessStopped d \<Rightarrow> Some d | _ \<Rightarrow> None))
     (codec0 Payload.ThreadStarted (\<lambda>p. case p of Payload.ThreadStarted d \<Rightarrow> Some d | _ \<Rightarrow> None))
     (codec0 Payload.ThreadStopped (\<lambda>p. case p of Payload.ThreadStopped d \<Rightarrow> Some d | _ \<Rightarrow> None))
     (codec0 Payload.ImageLoaded (\<lambda>p. case p of Payload.ImageLoaded d \<Rightarrow> Some d | _ \<Rightarrow> None))
     (codec0 Payload.ImageUnloaded (\<lambda>p. case p of Payload.ImageUnloaded d \<Rightarrow> Some d | _ \<Rightarrow> None))
     (codec0 Payload.RegistryKeyCreated (\<lambda>p. case p of Payload.RegistryKeyCreated d \<Rightarrow> Some d | _ \<Rightarrow> None))
     (codec0 Payload.RegistryValueQueried (\<lambda>p. case p of Payload.RegistryValueQueried d \<Rightarrow> Some d | _ \<Rightarrow> None))
     (codec0 Payload.RegistryValueSet (\<lambda>p. case p of Payload.RegistryValueSet d \<Rightarrow> Some d | _ \<Rightarrow> None))
     (codec0 Payload.FileCreated (\<lambda>p. case p of Payload.FileCreated d \<Rightarrow> Some d | _ \<Rightarrow> None))
     (codec0 Payload.FileWritten (\<lambda>p. case p of Payload.FileWritten d \<Rightarrow> Some d | _ \<Rightarrow> None))
     (codec0 Payload.FileClosed (\<lambda>p. case p of Payload.FileClosed d \<Rightarrow> Some d | _ \<Rightarrow> None))
     (codec0 Payload.FileDeleted (\<lambda>p. case p of Payload.FileDeleted d \<Rightarrow> Some d | _ \<Rightarrow> None))
     (codec0 Payload.FileRenamed (\<lambda>p. case p of Payload.FileRenamed d \<Rightarrow> Some d | _ \<Rightarrow> None))
     (codec0 Payload.FileFsctl (\<lambda>p. case p of Payload.FileFsctl d \<Rightarrow> Some d | _ \<Rightarrow> None))
     (codec0 Payload.NetTcpConnected (\<lambda>p. case p of Payload.NetTcpConnected d \<Rightarrow> Some d | _ \<Rightarrow> None))
     (codec0 Payload.BehaviorCall (\<lambda>p. case p of Payload.BehaviorCall d \<Rightarrow> Some d | _ \<Rightarrow> None))
     (codec0 Payload.ProtectionStripped (\<lambda>p. case p of Payload.ProtectionStripped d \<Rightarrow> Some d | _ \<Rightarrow> None))
     (codec0 Payload.SessionStarted (\<lambda>p. case p of Payload.SessionStarted d \<Rightarrow> Some d | _ \<Rightarrow> None))
     (codec0 Payload.SessionFinalizing (\<lambda>p. case p of Payload.SessionFinalizing d \<Rightarrow> Some d | _ \<Rightarrow> None))
     (codec0 Payload.SessionEnded (\<lambda>p. case p of Payload.SessionEnded d \<Rightarrow> Some d | _ \<Rightarrow> None))
     (codec0 Payload.ScopeDied (\<lambda>p. case p of Payload.ScopeDied d \<Rightarrow> Some d | _ \<Rightarrow> None))
     (codec0 Payload.TargetLaunched (\<lambda>p. case p of Payload.TargetLaunched d \<Rightarrow> Some d | _ \<Rightarrow> None))
     (codec0 Payload.AgentState (\<lambda>p. case p of Payload.AgentState d \<Rightarrow> Some d | _ \<Rightarrow> None))
     (codec0 Payload.StudyScore (\<lambda>p. case p of Payload.StudyScore d \<Rightarrow> Some d | _ \<Rightarrow> None))
     (codec0 Payload.StudyDropsSummary (\<lambda>p. case p of Payload.StudyDropsSummary d \<Rightarrow> Some d | _ \<Rightarrow> None))
     (codec0 Payload.StudyRebootRequested (\<lambda>p. case p of Payload.StudyRebootRequested d \<Rightarrow> Some d | _ \<Rightarrow> None))
     (codec0 Payload.StudyShutdownRequested (\<lambda>p. case p of Payload.StudyShutdownRequested d \<Rightarrow> Some d | _ \<Rightarrow> None))
     (codec0 Payload.DropObserved (\<lambda>p. case p of Payload.DropObserved d \<Rightarrow> Some d | _ \<Rightarrow> None))
     (codec0 Payload.DropClosed (\<lambda>p. case p of Payload.DropClosed d \<Rightarrow> Some d | _ \<Rightarrow> None))
     (codec0 Payload.DropCopied (\<lambda>p. case p of Payload.DropCopied d \<Rightarrow> Some d | _ \<Rightarrow> None))
     (codec0 Payload.DropUploaded (\<lambda>p. case p of Payload.DropUploaded d \<Rightarrow> Some d | _ \<Rightarrow> None))
     (codec0 Payload.ScreenshotReceived (\<lambda>p. case p of Payload.ScreenshotReceived d \<Rightarrow> Some d | _ \<Rightarrow> None))
     (codec0 Payload.ScreenshotUploaded (\<lambda>p. case p of Payload.ScreenshotUploaded d \<Rightarrow> Some d | _ \<Rightarrow> None))
     (codec0 Payload.UserActorStarted (\<lambda>p. case p of Payload.UserActorStarted d \<Rightarrow> Some d | _ \<Rightarrow> None))
     (codec0 Payload.UserActorStopped (\<lambda>p. case p of Payload.UserActorStopped d \<Rightarrow> Some d | _ \<Rightarrow> None))
     (codec0 Payload.ClockAdjusted (\<lambda>p. case p of Payload.ClockAdjusted d \<Rightarrow> Some d | _ \<Rightarrow> None))
     (codec0 Payload.ControlKeepalive (\<lambda>p. case p of Payload.ControlKeepalive d \<Rightarrow> Some d | _ \<Rightarrow> None))
     (codec0 Payload.ControlReboot (\<lambda>p. case p of Payload.ControlReboot d \<Rightarrow> Some d | _ \<Rightarrow> None))
     (codec0 Payload.ControlShutdown (\<lambda>p. case p of Payload.ControlShutdown d \<Rightarrow> Some d | _ \<Rightarrow> None))"

definition raw_codec0 :: "(wire_value, unit, wire_value RawEnvelope) codec" where
  "raw_codec0 = Codec (\<lambda>r. EnvelopeValue (raw_v r) (raw_event_type r) (raw_ts r) (raw_study r) (raw_session r) (raw_seq r) (raw_data r))
     (\<lambda>v. case v of EnvelopeValue a t ts s i q d \<Rightarrow>
        Inr \<lparr>raw_v = a, raw_event_type = t, raw_ts = ts, raw_study = s, raw_session = i, raw_seq = q, raw_data = d\<rparr> | _ \<Rightarrow> Inl ())"

lemma codecs0: "reads_back raw_codec0" "schemas_read_back schemas0"
  by (simp_all add: reads_back_def raw_codec0_def schemas_read_back_def schemas0_def codec0_def)

theorem agent_speaks_protocol_witness:
  "\<exists>env. Publish Control env \<in> set (w_log (keepalive_tick (ag_world (snd (boot (plugins build0) (assemble build0 (\<lambda>_. []) (\<lambda>_. SendOk) world0))))))
     \<and> from_value raw_codec0 schemas0 (envelope_to_value raw_codec0 schemas0 env) = Inr env"
proof -
  obtain env where env: "Publish Control env \<in> set (w_log (ag_world beating))" using beating_publishes by blast
  from agent_speaks_protocol [OF codecs0 beating_reached env] env show ?thesis by (auto simp: beating_def Let_def)
qed

end
