(* ===== verification/Focus_Pump.thy ===== *)
theory Focus_Pump
  imports User_Actor Driver_Wire Path_Text
begin

text \<open>
  The event-driven focus source of the user-actor (\<^verbatim>\<open>user-actor/src/adapters/driving/focus_winevents.rs\<close>) and how windows
  are resolved (\<^verbatim>\<open>focus_shared.rs\<close>). The source is three tasks: a message pump on a blocking thread, a bridge on
  another that moves what the pump's callback sends into a bounded channel, and the asynchronous \<open>run\<close>, which
  forwards what changed and stops the pump. They are a step relation here, together with the end
  of the process: leaving \<open>main\<close> drops the asynchronous tasks and then waits for the blocking threads.
\<close>

subsection \<open>Windows\<close>

definition MAX_TITLE_CHARS :: nat where "MAX_TITLE_CHARS = 512"
definition MAX_IMAGE_CHARS :: nat where "MAX_IMAGE_CHARS = 1024"

text \<open>
  What the system answers about a window and a process: the announced length of the title, the count and the
  buffer a copy of the title leaves for a capacity, whether the process opens, and its path and length.
\<close>

record WindowAnswers =
  wn_pid :: u32
  wn_text_length :: int
  wn_text :: "nat \<Rightarrow> int \<times> u16 list"
  wn_opens :: bool
  wn_image :: "nat \<Rightarrow> (nat \<times> u16 list) option"

definition window_text :: "WindowAnswers \<Rightarrow> rstr" where
  "window_text wn =
     (if wn_text_length wn \<le> 0 then []
      else let capacity = min (nat (wn_text_length wn) + 1) MAX_TITLE_CHARS in
        case wn_text wn capacity of (copied, written) \<Rightarrow>
          let buffer = take capacity (written @ replicate capacity 0) in
          if copied \<le> 0 then [] else from_utf16_lossy (map unat (take (min (nat copied) (length buffer)) buffer)))"

definition process_image_name :: "WindowAnswers \<Rightarrow> u32 \<Rightarrow> rstr option" where
  "process_image_name wn pid =
     (if pid = 0 then None
      else if \<not> wn_opens wn then None
      else (case wn_image wn MAX_IMAGE_CHARS of
        None \<Rightarrow> None
      | Some (end, written) \<Rightarrow>
          let buffer = take MAX_IMAGE_CHARS (written @ replicate MAX_IMAGE_CHARS 0);
              slice = take (min end (length buffer)) buffer in
          if slice = [] then None else Some (image_name (from_utf16_lossy (map unat slice)))))"

definition resolve_window :: "WindowAnswers \<Rightarrow> FocusInfo" where
  "resolve_window wn = \<lparr>fi_pid = wn_pid wn, fi_title = window_text wn, fi_process = process_image_name wn (wn_pid wn)\<rparr>"

definition resolve_foreground :: "WindowAnswers option \<Rightarrow> FocusInfo option" where
  "resolve_foreground foreground = map_option resolve_window foreground"

text \<open>The polling source: one look per interval until it is cancelled.\<close>

definition poll_run :: "WindowAnswers option list \<Rightarrow> FocusInfo list" where
  "poll_run looks = focus_source (List.map_filter resolve_foreground looks) None"

lemma length_from_utf16_lossy: "length (from_utf16_lossy us) \<le> length us"
  by (induction us rule: from_utf16_lossy.induct) (auto split: list.splits)

lemma window_text_bounded: "length (window_text wn) \<le> MAX_TITLE_CHARS"
proof -
  have cap: "length (from_utf16_lossy (map unat (take k (take (min n MAX_TITLE_CHARS) us)))) \<le> MAX_TITLE_CHARS" for k n and us :: "u16 list"
    by (rule order_trans [OF length_from_utf16_lossy]) simp
  show ?thesis
    unfolding window_text_def Let_def using cap by (auto simp del: take_append take_take split: prod.splits)
qed

lemma process_image_name_plain: "process_image_name wn pid = Some name \<Longrightarrow> c \<in> set name \<Longrightarrow> \<not> is_sep c"
  by (auto simp: process_image_name_def Let_def split: if_splits option.splits dest: image_name_no_sep)

text \<open>Polling reports each change once, with a bounded title whoever chose it.\<close>

lemma poll_run_changes:
  "poll_run looks = remdups_adj (List.map_filter resolve_foreground looks)" "f \<in> set (poll_run looks) \<Longrightarrow> length (fi_title f) \<le> MAX_TITLE_CHARS"
proof -
  show changes: "poll_run looks = remdups_adj (List.map_filter resolve_foreground looks)" by (simp add: poll_run_def focus_source_dedups)
  show "f \<in> set (poll_run looks) \<Longrightarrow> length (fi_title f) \<le> MAX_TITLE_CHARS"
    by (auto simp: changes map_filter_def resolve_foreground_def resolve_window_def window_text_bounded)
qed

subsection \<open>The tasks\<close>

text \<open>The pump: before its hooks are installed, in the message loop, returned, or returned because a hook was refused.\<close>

datatype PumpPhase = Installing | Pumping | Quit | HookFailed

datatype BridgePhase = Receiving | Sending | BridgeDone

text \<open>\<open>LoopTop\<close>: the test of the loop; \<open>Selecting\<close>: waiting; \<open>Leaving\<close>: before the last \<open>stop\<close>; then the two joins.\<close>

datatype RunPhase = LoopTop | Selecting | Leaving | JoiningPump | JoiningBridge | RunReturned | RunDropped

record FocusSource =
  fs_pump :: PumpPhase
  fs_thread_id :: bool          \<comment> \<open>published by the pump\<close>
  fs_quit_posted :: bool
  fs_wire :: nat                \<comment> \<open>changes in the unbounded channel\<close>
  fs_sink_dropped :: bool       \<comment> \<open>the sending end of it\<close>
  fs_bridge :: BridgePhase
  fs_channel :: nat             \<comment> \<open>changes in the bounded channel\<close>
  fs_run :: RunPhase
  fs_cancelled :: bool
  fs_main_returned :: bool
  fs_exited :: bool

definition CHANNEL_CAPACITY :: nat where "CHANNEL_CAPACITY = 64"

definition FocusSource_new :: FocusSource where
  "FocusSource_new = \<lparr>fs_pump = Installing, fs_thread_id = False, fs_quit_posted = False, fs_wire = 0, fs_sink_dropped = False,
     fs_bridge = Receiving, fs_channel = 0, fs_run = LoopTop, fs_cancelled = False, fs_main_returned = False, fs_exited = False\<rparr>"

text \<open>\<open>stop\<close>: a quit message, if the thread is known.\<close>

definition focus_stop :: "FocusSource \<Rightarrow> FocusSource" where
  "focus_stop s = (let s = s\<lparr>fs_cancelled := True\<rparr> in if fs_thread_id s then s\<lparr>fs_quit_posted := True\<rparr> else s)"

definition pump_finished :: "FocusSource \<Rightarrow> bool" where
  "pump_finished s \<longleftrightarrow> fs_pump s = Quit \<or> fs_pump s = HookFailed"

definition receiver_gone :: "FocusSource \<Rightarrow> bool" where
  "receiver_gone s \<longleftrightarrow> fs_run s = RunReturned \<or> fs_run s = RunDropped"

text \<open>
  A refused hook leaves the sink in the storage of its thread, so it is dropped only when the thread
  itself ends (\<open>thread_ends\<close>). The join of the pump gives up after a while (\<open>gives_up\<close>), that of the bridge does not.
\<close>

inductive focus_step :: "FocusSource \<Rightarrow> FocusSource \<Rightarrow> bool" where
  hook_refused: "fs_pump s = Installing \<Longrightarrow> focus_step s (s\<lparr>fs_pump := HookFailed\<rparr>)"
| hooks_installed: "fs_pump s = Installing \<Longrightarrow> focus_step s (s\<lparr>fs_pump := Pumping, fs_thread_id := True\<rparr>)"
| callback: "fs_pump s = Pumping \<Longrightarrow> focus_step s (s\<lparr>fs_wire := Suc (fs_wire s)\<rparr>)"
| pump_quits: "fs_pump s = Pumping \<Longrightarrow> fs_quit_posted s \<Longrightarrow> focus_step s (s\<lparr>fs_pump := Quit, fs_sink_dropped := True\<rparr>)"
| thread_ends: "fs_pump s = HookFailed \<Longrightarrow> focus_step s (s\<lparr>fs_sink_dropped := True\<rparr>)"
| bridge_receives: "fs_bridge s = Receiving \<Longrightarrow> fs_wire s = Suc n \<Longrightarrow> focus_step s (s\<lparr>fs_wire := n, fs_bridge := Sending\<rparr>)"
| bridge_closed: "fs_bridge s = Receiving \<Longrightarrow> fs_wire s = 0 \<Longrightarrow> fs_sink_dropped s \<Longrightarrow> focus_step s (s\<lparr>fs_bridge := BridgeDone\<rparr>)"
| bridge_sends: "fs_bridge s = Sending \<Longrightarrow> \<not> receiver_gone s \<Longrightarrow> fs_channel s < CHANNEL_CAPACITY \<Longrightarrow>
     focus_step s (s\<lparr>fs_channel := Suc (fs_channel s), fs_bridge := Receiving\<rparr>)"
| bridge_breaks: "fs_bridge s = Sending \<Longrightarrow> receiver_gone s \<Longrightarrow> focus_step s (s\<lparr>fs_bridge := BridgeDone\<rparr>)"
| cancelled: "focus_step s (s\<lparr>fs_cancelled := True\<rparr>)"
| loops: "fs_run s = LoopTop \<Longrightarrow> \<not> pump_finished s \<Longrightarrow> focus_step s (s\<lparr>fs_run := Selecting\<rparr>)"
| loop_ends: "fs_run s = LoopTop \<Longrightarrow> pump_finished s \<Longrightarrow> focus_step s (s\<lparr>fs_run := Leaving\<rparr>)"
| sees_cancel: "fs_run s = Selecting \<Longrightarrow> fs_cancelled s \<Longrightarrow> focus_step s ((focus_stop s)\<lparr>fs_run := Leaving\<rparr>)"
| forwards: "fs_run s = Selecting \<Longrightarrow> \<not> fs_cancelled s \<Longrightarrow> fs_channel s = Suc n \<Longrightarrow> focus_step s (s\<lparr>fs_channel := n, fs_run := LoopTop\<rparr>)"
| sees_end: "fs_run s = Selecting \<Longrightarrow> \<not> fs_cancelled s \<Longrightarrow> fs_channel s = 0 \<Longrightarrow> fs_bridge s = BridgeDone \<Longrightarrow> focus_step s (s\<lparr>fs_run := Leaving\<rparr>)"
| stops: "fs_run s = Leaving \<Longrightarrow> focus_step s ((focus_stop s)\<lparr>fs_run := JoiningPump\<rparr>)"
| joins_pump: "fs_run s = JoiningPump \<Longrightarrow> fs_pump s = Quit \<Longrightarrow> focus_step s (s\<lparr>fs_run := JoiningBridge\<rparr>)"
| reports_hook: "fs_run s = JoiningPump \<Longrightarrow> fs_pump s = HookFailed \<Longrightarrow> focus_step s (s\<lparr>fs_run := RunReturned\<rparr>)"
| gives_up: "fs_run s = JoiningPump \<Longrightarrow> \<not> pump_finished s \<Longrightarrow> focus_step s (s\<lparr>fs_run := JoiningBridge\<rparr>)"
| joins_bridge: "fs_run s = JoiningBridge \<Longrightarrow> fs_bridge s = BridgeDone \<Longrightarrow> focus_step s (s\<lparr>fs_run := RunReturned\<rparr>)"
| main_returns: "fs_cancelled s \<Longrightarrow> focus_step s (s\<lparr>fs_main_returned := True, fs_run := if fs_run s = RunReturned then RunReturned else RunDropped\<rparr>)"
| exits: "fs_main_returned s \<Longrightarrow> pump_finished s \<Longrightarrow> fs_bridge s = BridgeDone \<Longrightarrow> focus_step s (s\<lparr>fs_exited := True\<rparr>)"

inductive_cases focus_stepE: "focus_step s s'"

definition focus_reachable :: "FocusSource \<Rightarrow> bool" where
  "focus_reachable s \<longleftrightarrow> focus_step\<^sup>*\<^sup>* FocusSource_new s"

definition may_exit :: "FocusSource \<Rightarrow> bool" where
  "may_exit s \<longleftrightarrow> (\<exists>s'. focus_step\<^sup>*\<^sup>* s s' \<and> fs_exited s')"

subsection \<open>Which states the process can leave\<close>

text \<open>What every reachable state keeps, and the states from which nothing posts the quit message any more.\<close>

definition focus_inv :: "FocusSource \<Rightarrow> bool" where
  "focus_inv s \<longleftrightarrow> (fs_pump s = Pumping \<longrightarrow> fs_thread_id s) \<and> (fs_pump s = Quit \<longrightarrow> fs_sink_dropped s)
     \<and> (fs_quit_posted s \<longrightarrow> fs_thread_id s) \<and> (fs_exited s \<longrightarrow> pump_finished s) \<and> fs_channel s \<le> CHANNEL_CAPACITY"

definition stuck :: "FocusSource \<Rightarrow> bool" where
  "stuck s \<longleftrightarrow> fs_pump s = Pumping \<and> \<not> fs_quit_posted s \<and> fs_run s \<notin> {LoopTop, Selecting, Leaving}"

lemmas focus_defs = focus_stop_def pump_finished_def receiver_gone_def Let_def

lemma focus_step_inv: "focus_step s s' \<Longrightarrow> focus_inv s \<Longrightarrow> focus_inv s'"
  by (induction rule: focus_step.induct) (auto simp: focus_inv_def focus_defs)

lemma focus_reachable_inv: "focus_reachable s \<Longrightarrow> focus_inv s"
  unfolding focus_reachable_def
proof (induction rule: rtranclp_induct)
  case base
  then show ?case by (simp add: focus_inv_def FocusSource_new_def)
qed (rule focus_step_inv)

lemma stuck_step: "focus_step s s' \<Longrightarrow> stuck s \<Longrightarrow> stuck s'"
  by (induction rule: focus_step.induct) (auto simp: stuck_def focus_defs split: if_splits)

lemma stuck_forever: "focus_step\<^sup>*\<^sup>* s s' \<Longrightarrow> stuck s \<Longrightarrow> stuck s'"
  by (induction rule: rtranclp_induct) (auto intro: stuck_step)

lemma may_exit_step: "focus_step s s' \<Longrightarrow> may_exit s' \<Longrightarrow> may_exit s"
  unfolding may_exit_def by (blast intro: converse_rtranclp_into_rtranclp)

text \<open>With the pump finished and \<open>main\<close> returned the bridge comes to its end, and the process with it.\<close>

lemma drained_may_exit:
  assumes "fs_main_returned s" "pump_finished s" "fs_sink_dropped s" "receiver_gone s"
  shows "may_exit s"
proof -
  have ended: "may_exit t" if "fs_main_returned t" "pump_finished t" "fs_bridge t = BridgeDone" for t
    unfolding may_exit_def by (rule exI [of _ "t\<lparr>fs_exited := True\<rparr>"]) (use exits [OF that] in auto)
  have sending: "may_exit t" if "fs_main_returned t" "pump_finished t" "fs_bridge t = Sending" "receiver_gone t" for t
    by (rule may_exit_step [OF bridge_breaks [OF that(3,4)]], rule ended) (use that in \<open>simp_all add: pump_finished_def\<close>)
  show ?thesis
  proof (cases "fs_bridge s")
    case Receiving
    show ?thesis
    proof (cases "fs_wire s")
      case 0
      from bridge_closed [OF Receiving 0 assms(3)] show ?thesis
        by (rule may_exit_step) (rule ended, use assms in \<open>simp_all add: pump_finished_def\<close>)
    next
      case (Suc n)
      from bridge_receives [OF Receiving Suc] show ?thesis
        by (rule may_exit_step) (rule sending, use assms in \<open>simp_all add: pump_finished_def receiver_gone_def\<close>)
    qed
  qed (use assms ended sending in auto)
qed

lemma finished_may_exit:
  assumes "pump_finished s" "focus_inv s"
  shows "may_exit s"
proof -
  let ?a = "s\<lparr>fs_sink_dropped := True\<rparr>"
  let ?b = "?a\<lparr>fs_cancelled := True\<rparr>"
  let ?c = "?b\<lparr>fs_main_returned := True, fs_run := if fs_run ?b = RunReturned then RunReturned else RunDropped\<rparr>"
  have "may_exit ?c" by (rule drained_may_exit) (use assms(1) in \<open>simp_all add: pump_finished_def receiver_gone_def\<close>)
  then have "may_exit ?b" by (rule may_exit_step [rotated]) (rule main_returns, simp)
  then have "may_exit ?a" by (rule may_exit_step [rotated]) (rule cancelled)
  moreover have "focus_step s ?a" if "fs_pump s = HookFailed" using that by (rule thread_ends)
  moreover have "?a = s" if "fs_pump s = Quit" using that assms(2) by (simp add: focus_inv_def)
  ultimately show ?thesis using assms(1) may_exit_step by (auto simp: pump_finished_def)
qed

lemma posted_may_exit:
  assumes "fs_pump s = Pumping" "fs_quit_posted s" "focus_inv s"
  shows "may_exit s"
proof -
  note step = pump_quits [OF assms(1,2)]
  show ?thesis by (rule may_exit_step [OF step], rule finished_may_exit, simp add: pump_finished_def, rule focus_step_inv [OF step assms(3)])
qed

lemma leaving_may_exit:
  assumes "fs_pump s = Pumping" "fs_run s = Leaving" "focus_inv s"
  shows "may_exit s"
proof -
  note step = stops [OF assms(2)]
  show ?thesis by (rule may_exit_step [OF step], rule posted_may_exit)
    (use assms focus_step_inv [OF step assms(3)] in \<open>simp_all add: focus_stop_def focus_inv_def Let_def\<close>)
qed

lemma selecting_may_exit:
  assumes "fs_pump s = Pumping" "fs_run s = Selecting" "focus_inv s"
  shows "may_exit s"
proof -
  let ?a = "s\<lparr>fs_cancelled := True\<rparr>"
  note a = cancelled [of s]
  have step: "focus_step ?a ((focus_stop ?a)\<lparr>fs_run := Leaving\<rparr>)" by (rule sees_cancel) (simp_all add: assms)
  show ?thesis by (rule may_exit_step [OF a], rule may_exit_step [OF step], rule leaving_may_exit)
    (use assms focus_step_inv [OF step focus_step_inv [OF a assms(3)]] in \<open>simp_all add: focus_stop_def Let_def\<close>)
qed

lemma looping_may_exit:
  assumes "fs_pump s = Pumping" "fs_run s = LoopTop" "focus_inv s"
  shows "may_exit s"
proof -
  have step: "focus_step s (s\<lparr>fs_run := Selecting\<rparr>)" by (rule loops) (simp_all add: assms pump_finished_def)
  show ?thesis by (rule may_exit_step [OF step], rule selecting_may_exit)
    (use assms focus_step_inv [OF step assms(3)] in simp_all)
qed

lemma installing_may_exit:
  assumes "fs_pump s = Installing" "focus_inv s"
  shows "may_exit s"
proof -
  note step = hook_refused [OF assms(1)]
  show ?thesis by (rule may_exit_step [OF step], rule finished_may_exit, simp add: pump_finished_def, rule focus_step_inv [OF step assms(2)])
qed

lemma may_exit_iff:
  assumes "focus_reachable s"
  shows "may_exit s \<longleftrightarrow> \<not> stuck s"
proof
  assume "may_exit s"
  then obtain s' where s': "focus_step\<^sup>*\<^sup>* s s'" "fs_exited s'" by (auto simp: may_exit_def)
  have "focus_reachable s'" using assms s'(1) by (auto simp: focus_reachable_def)
  then have "pump_finished s'" using s'(2) focus_reachable_inv by (simp add: focus_inv_def)
  then have "\<not> stuck s'" by (auto simp: stuck_def pump_finished_def)
  then show "\<not> stuck s" using stuck_forever [OF s'(1)] by blast
next
  assume "\<not> stuck s"
  note inv = focus_reachable_inv [OF assms]
  show "may_exit s"
  proof (cases "fs_pump s")
    case Pumping
    with \<open>\<not> stuck s\<close> consider "fs_quit_posted s" | "fs_run s = LoopTop" | "fs_run s = Selecting" | "fs_run s = Leaving"
      by (auto simp: stuck_def)
    then show ?thesis
      using posted_may_exit looping_may_exit selecting_may_exit leaving_may_exit Pumping inv by cases blast+
  qed (use inv finished_may_exit installing_may_exit in \<open>auto simp: pump_finished_def\<close>)
qed

text \<open>Runs that end in such a state, as the states they pass.\<close>

definition late_pump :: "FocusSource list" where
  "late_pump = (let s1 = FocusSource_new\<lparr>fs_run := Selecting\<rparr>; s2 = s1\<lparr>fs_cancelled := True\<rparr>; s3 = s2\<lparr>fs_run := Leaving\<rparr>;
     s4 = s3\<lparr>fs_run := JoiningPump\<rparr>; s5 = s4\<lparr>fs_run := JoiningBridge\<rparr>; s6 = s5\<lparr>fs_pump := Pumping, fs_thread_id := True\<rparr> in
     [FocusSource_new, s1, s2, s3, s4, s5, s6])"

definition early_return :: "FocusSource list" where
  "early_return = (let s1 = FocusSource_new\<lparr>fs_pump := Pumping, fs_thread_id := True\<rparr>; s2 = s1\<lparr>fs_cancelled := True\<rparr>;
     s3 = s2\<lparr>fs_main_returned := True, fs_run := RunDropped\<rparr> in [FocusSource_new, s1, s2, s3])"

lemma path_reachable:
  assumes "successively focus_step ss" "ss \<noteq> []" "hd ss = FocusSource_new"
  shows "focus_reachable (List.last ss)"
proof -
  have "successively focus_step (s # rest) \<Longrightarrow> focus_step\<^sup>*\<^sup>* s (List.last (s # rest))" for s rest
    by (induction rest arbitrary: s) (auto intro: converse_rtranclp_into_rtranclp)
  then show ?thesis using assms by (cases ss) (simp_all only: focus_reachable_def list.sel list.simps simp_thms)
qed

lemma late_pump_reached: "focus_reachable (List.last late_pump)" "stuck (List.last late_pump)"
proof -
  have "successively focus_step late_pump"
    by (simp add: late_pump_def Let_def FocusSource_new_def)
      (intro conjI focus_step.intros | simp add: focus_step.simps focus_defs)+
  then show "focus_reachable (List.last late_pump)" by (rule path_reachable) (simp_all add: late_pump_def Let_def)
qed (simp add: late_pump_def stuck_def FocusSource_new_def Let_def)

lemma early_return_reached: "focus_reachable (List.last early_return)" "stuck (List.last early_return)"
proof -
  have "successively focus_step early_return"
    by (simp add: early_return_def Let_def FocusSource_new_def) (simp add: focus_step.simps focus_defs)
  then show "focus_reachable (List.last early_return)" by (rule path_reachable) (simp_all add: early_return_def Let_def)
qed (simp add: early_return_def stuck_def FocusSource_new_def Let_def)



end
