(* ===== verification/Actor_Host.thy ===== *)
theory Actor_Host
  imports Focus_Pump
begin

text \<open>
  The host of the user-actor (\<^verbatim>\<open>user-actor/src/bin/secoutfall-user-actor.rs\<close>) and the event bus it shares with the
  agent (\<^verbatim>\<open>kernel/src/bus.rs\<close>): the adapters a build selects, the activation of telemetry, the watcher that starts
  the focus source when a configuration arrives on the bus, and the end of \<open>main\<close>. The bus is a
  broadcast channel of a library: a receiver gets what is published after it subscribed.
\<close>

subsection \<open>The bus\<close>

text \<open>The channel as the library documents it: no channel without capacity; sending tells the number of receivers, if there are any.\<close>

record ('c, 'e, 'r) Broadcast =
  bc_channel :: "nat \<Rightarrow> 'c option"
  bc_send :: "'e \<Rightarrow> 'c \<Rightarrow> nat option \<times> 'c"
  bc_subscribe :: "'c \<Rightarrow> 'r \<times> 'c"

definition InMemoryEventBus_new :: "('c, 'e, 'r) Broadcast \<Rightarrow> nat \<Rightarrow> 'c option" where
  "InMemoryEventBus_new bc capacity = bc_channel bc (max capacity 1)"

definition event_bus_publish :: "('c, 'e, 'r) Broadcast \<Rightarrow> 'e \<Rightarrow> 'c \<Rightarrow> nat \<times> 'c" where
  "event_bus_publish bc ev bus = (case bc_send bc ev bus of (sent, bus) \<Rightarrow> (case sent of None \<Rightarrow> 0 | Some n \<Rightarrow> n, bus))"

definition event_bus_subscribe :: "('c, 'e, 'r) Broadcast \<Rightarrow> 'c \<Rightarrow> 'r \<times> 'c" where
  "event_bus_subscribe bc bus = bc_subscribe bc bus"

text \<open>A bus can be made for every capacity, also for none.\<close>

lemma bus_never_panics: "(\<And>n. 0 < n \<Longrightarrow> bc_channel bc n \<noteq> None) \<Longrightarrow> InMemoryEventBus_new bc capacity \<noteq> None"
  by (simp add: InMemoryEventBus_new_def)

subsection \<open>Adapters of a build\<close>

record ActorFeatures =
  af_ipc :: bool
  af_capture :: bool
  af_input :: bool
  af_apps :: bool
  af_focus_poll :: bool
  af_focus_winevents :: bool

datatype CaptureAdapter = GdiScreenCapture nat | UnavailableCapture
datatype InputAdapter = SendInputSynthesizer | UnavailableInput
datatype AppAdapter = NativeAppLauncher | UnavailableAppLauncher
datatype SinkAdapter = IpcSink | UnavailableSink

definition DEFAULT_JPEG_QUALITY :: nat where "DEFAULT_JPEG_QUALITY = 70"

definition build_capture :: "ActorFeatures \<Rightarrow> CaptureAdapter" where
  "build_capture af = (if af_capture af then GdiScreenCapture DEFAULT_JPEG_QUALITY else UnavailableCapture)"

definition build_input :: "ActorFeatures \<Rightarrow> InputAdapter" where
  "build_input af = (if af_input af then SendInputSynthesizer else UnavailableInput)"

definition build_app_launcher :: "ActorFeatures \<Rightarrow> AppAdapter" where
  "build_app_launcher af = (if af_apps af then NativeAppLauncher else UnavailableAppLauncher)"

definition transport_parts :: "ActorFeatures \<Rightarrow> SinkAdapter" where
  "transport_parts af = (if af_ipc af then IpcSink else UnavailableSink)"

definition LOG_DIR :: rstr where "LOG_DIR = win ''C:/ProgramData/SecOutfall/logs''"

text \<open>Where the log goes, and whether that is a degradation.\<close>

definition actor_log_dir :: "(rstr \<Rightarrow> bool) \<Rightarrow> rstr \<Rightarrow> rstr option \<times> bool" where
  "actor_log_dir creates temp_logs =
     (if creates LOG_DIR then (Some LOG_DIR, False)
      else if creates temp_logs then (Some temp_logs, True) else (None, True))"

subsection \<open>The watcher\<close>

datatype FocusAdapter = PollingAdapter | WinEventAdapter

definition start_polling :: "ActorFeatures \<Rightarrow> FocusAdapter option" where
  "start_polling af = (if af_focus_poll af then Some PollingAdapter else None)"

definition start_winevents :: "ActorFeatures \<Rightarrow> FocusAdapter option" where
  "start_winevents af = (if af_focus_winevents af then Some WinEventAdapter else None)"

definition start_focus_source :: "ActorFeatures \<Rightarrow> FocusMethod \<Rightarrow> FocusAdapter option" where
  "start_focus_source af method =
     (case method of FocusMethod.Polling \<Rightarrow> start_polling af
      | FocusMethod.WinEvents \<Rightarrow> start_winevents af
      | FocusMethod.WinEventsWithElements \<Rightarrow> start_winevents af)"

text \<open>The DSN egress is active with, if it is; \<open>parses\<close> is the library's parser.\<close>

definition init_sentry_once :: "(rstr \<Rightarrow> bool) \<Rightarrow> rstr option \<Rightarrow> rstr option \<Rightarrow> rstr option" where
  "init_sentry_once parses dsn activated =
     (case activated of Some active \<Rightarrow> Some active
      | None \<Rightarrow>
          (case dsn of None \<Rightarrow> None
           | Some dsn \<Rightarrow> if parses dsn then Some dsn else None))"

datatype BusReceived = BusOk ActorBusEvent | BusLagged u64 | BusClosed

record Watcher =
  wa_started :: bool
  wa_sentry :: "rstr option"
  wa_sources :: "FocusAdapter list"
  wa_returned :: bool

definition Watcher_new :: Watcher where
  "Watcher_new = \<lparr>wa_started = False, wa_sentry = None, wa_sources = [], wa_returned = False\<rparr>"

definition watch_one :: "ActorFeatures \<Rightarrow> (rstr \<Rightarrow> bool) \<Rightarrow> BusReceived \<Rightarrow> Watcher \<Rightarrow> Watcher" where
  "watch_one af parses received w =
     (if wa_returned w then w
      else case received of
        BusOk (ConfigApplied config) \<Rightarrow>
          (let w = w\<lparr>wa_sentry := init_sentry_once parses (uac_telemetry_dsn config) (wa_sentry w)\<rparr> in
           if wa_started w then w
           else w\<lparr>wa_started := True, wa_sources := wa_sources w
                @ (case start_focus_source af (uac_focus_method config) of None \<Rightarrow> [] | Some a \<Rightarrow> [a])\<rparr>)
      | BusOk _ \<Rightarrow> w
      | BusLagged _ \<Rightarrow> w
      | BusClosed \<Rightarrow> w\<lparr>wa_returned := True\<rparr>)"

definition watch :: "ActorFeatures \<Rightarrow> (rstr \<Rightarrow> bool) \<Rightarrow> BusReceived list \<Rightarrow> Watcher \<Rightarrow> Watcher" where
  "watch af parses received w = fold (watch_one af parses) received w"

text \<open>The configurations received before the bus was closed.\<close>

fun configs :: "BusReceived list \<Rightarrow> UserActorConfig list" where
  "configs [] = []"
| "configs (BusClosed # rs) = []"
| "configs (BusOk (ConfigApplied config) # rs) = config # configs rs"
| "configs (_ # rs) = configs rs"

definition first_dsn :: "(rstr \<Rightarrow> bool) \<Rightarrow> UserActorConfig list \<Rightarrow> rstr option" where
  "first_dsn parses cs = List.find parses (List.map_filter uac_telemetry_dsn cs)"

lemma watch_closed: "wa_returned w \<Longrightarrow> watch af parses rs w = w"
  by (induction rs) (simp_all add: watch_def watch_one_def)

lemma first_dsn_Cons:
  "first_dsn parses (c # cs) = (case init_sentry_once parses (uac_telemetry_dsn c) None of None \<Rightarrow> first_dsn parses cs | Some d \<Rightarrow> Some d)"
  by (simp add: first_dsn_def init_sentry_once_def map_filter_simps split: option.splits)

lemma watch_Cons: "watch af parses (r # rs) w = watch af parses rs (watch_one af parses r w)"
  by (simp add: watch_def)

lemma watch_sentry:
  "\<not> wa_returned w \<Longrightarrow> wa_sentry (watch af parses rs w) = (case wa_sentry w of None \<Rightarrow> first_dsn parses (configs rs) | Some d \<Rightarrow> Some d)"
proof (induction rs arbitrary: w rule: configs.induct)
  case (2 rs)
  then show ?case by (cases "wa_sentry w") (simp_all add: watch_Cons watch_closed watch_one_def first_dsn_def map_filter_simps)
next
  case (3 config rs)
  then show ?case
    by (cases "wa_sentry w") (auto simp: watch_Cons watch_one_def first_dsn_Cons init_sentry_once_def Let_def split: option.splits)
qed (auto simp: watch_Cons watch_one_def watch_def first_dsn_def map_filter_simps split: option.splits)

definition source_for :: "ActorFeatures \<Rightarrow> UserActorConfig list \<Rightarrow> FocusAdapter list" where
  "source_for af cs = (case cs of [] \<Rightarrow> [] | c # _ \<Rightarrow> (case start_focus_source af (uac_focus_method c) of None \<Rightarrow> [] | Some a \<Rightarrow> [a]))"

lemma watch_sources:
  "\<not> wa_returned w \<Longrightarrow> wa_sources (watch af parses rs w) = wa_sources w @ (if wa_started w then [] else source_for af (configs rs))"
proof (induction rs arbitrary: w rule: configs.induct)
  case (2 rs)
  then show ?case by (simp add: watch_Cons watch_closed watch_one_def source_for_def)
next
  case (3 config rs)
  then show ?case by (cases "wa_started w") (simp_all add: watch_Cons watch_one_def source_for_def Let_def)
qed (simp_all add: watch_Cons watch_one_def watch_def source_for_def)

subsection \<open>The start of the watcher and the client\<close>

text \<open>
  The transport and the watcher are tasks of their own, and the watcher subscribes when it first runs: a
  start is any order of what the client's configuration pushes publish and the subscription.
\<close>

datatype StartEvent = Publishes ActorBusEvent | Subscribes

fun delivered :: "bool \<Rightarrow> StartEvent list \<Rightarrow> BusReceived list" where
  "delivered subscribed [] = []"
| "delivered subscribed (Subscribes # es) = delivered True es"
| "delivered subscribed (Publishes ev # es) = (if subscribed then [BusOk ev] else []) @ delivered subscribed es"

definition actor_start :: "ActorFeatures \<Rightarrow> (rstr \<Rightarrow> bool) \<Rightarrow> StartEvent list \<Rightarrow> Watcher" where
  "actor_start af parses es = watch af parses (delivered False es) Watcher_new"

lemma delivered_before: "list_all (\<lambda>e. e \<noteq> Subscribes) es \<Longrightarrow> delivered False (es @ es') = delivered False es'"
proof (induction es)
  case (Cons e es)
  then show ?case by (cases e) auto
qed simp

lemma delivered_after: "delivered True (map Publishes evs) = map BusOk evs"
  by (induction evs) simp_all

lemma configs_events: "configs (map BusOk evs) = List.map_filter (\<lambda>ev. case ev of ConfigApplied c \<Rightarrow> Some c | _ \<Rightarrow> None) evs"
proof (induction evs)
  case (Cons ev evs)
  then show ?case by (cases ev) (simp_all add: map_filter_simps)
qed (simp add: map_filter_simps)

text \<open>
  C14. Which configuration starts the focus source and telemetry. Of what is published before the watcher's
  task has first run it sees nothing; of what is published after, the first configuration starts the
  one source its method names, and the first DSN that parses activates telemetry, once and for good,
  whatever else is pushed. So an order in which the agent's only configuration push comes first leaves
  the user-actor without focus source and without telemetry, though configured.
\<close>

theorem watcher_sees_later_configs:
  "let cs = List.map_filter (\<lambda>ev. case ev of ConfigApplied c \<Rightarrow> Some c | _ \<Rightarrow> None) after;
       w = actor_start af parses (map Publishes before @ Subscribes # map Publishes after) in
   wa_sources w = source_for af cs \<and> wa_sentry w = first_dsn parses cs"
proof -
  have "delivered False (map Publishes before @ Subscribes # map Publishes after) = map BusOk after"
    by (subst delivered_before) (simp_all add: list_all_iff delivered_after)
  then show ?thesis
    by (simp add: actor_start_def Let_def watch_sentry watch_sources Watcher_new_def flip: configs_events)
qed

subsection \<open>The end of main\<close>

datatype ActorEnd = ClientFinished | ClientFailed | ClientPanicked | TokenCancelled | ShutdownSignal

definition actor_result :: "ActorEnd \<Rightarrow> bool" where
  "actor_result ended \<longleftrightarrow> ended \<noteq> ClientFailed \<and> ended \<noteq> ClientPanicked"

end
