(* ===== verification/Windows_Adapters.thy ===== *)
theory Windows_Adapters
  imports Desktop_Input Launchers Score
begin

text \<open>
  Adapters over the system that decide more than they call: the lookup of shell associations in the registry
  (\<^verbatim>\<open>agent/src/adapters/driven/shell_association/registry.rs\<close>), the cleanup of processes at the end of a session
  (\<^verbatim>\<open>killer/windows.rs\<close>) and the capture of the screen (\<^verbatim>\<open>user-actor/src/adapters/driven/capture/screen.rs\<close>). What the
  system answers is input.
\<close>

subsection \<open>Registry strings\<close>

text \<open>\<open>String::from_utf16\<close>: an unpaired surrogate is an error.\<close>

fun from_utf16 :: "nat list \<Rightarrow> rstr option" where
  "from_utf16 [] = Some []"
| "from_utf16 (u # us) =
     (if u < 0xD800 \<or> 0xE000 \<le> u then map_option ((#) u) (from_utf16 us)
      else if 0xDC00 \<le> u then None
      else (case us of
              [] \<Rightarrow> None
            | v # vs \<Rightarrow>
                if 0xDC00 \<le> v \<and> v < 0xE000
                then map_option ((#) (0x10000 + (u - 0xD800) * 0x400 + (v - 0xDC00))) (from_utf16 vs)
                else None))"

definition decode_utf16_reg_sz :: "u8 list \<Rightarrow> rstr option" where
  "decode_utf16_reg_sz buffer =
     (case from_utf16 (utf16_units buffer) of
        None \<Rightarrow> None
      | Some s \<Rightarrow>
          let s = (if s \<noteq> [] \<and> List.last s = 0 then butlast s else s) in
          if s = [] then None else Some s)"

text \<open>A registry: the size it reports for a value, and what it writes into a buffer of that size.\<close>

record Registry =
  rg_size :: "rstr \<Rightarrow> rstr \<Rightarrow> nat option"
  rg_data :: "rstr \<Rightarrow> rstr \<Rightarrow> nat \<Rightarrow> u8 list option"

definition read_sz :: "Registry \<Rightarrow> rstr \<Rightarrow> rstr \<Rightarrow> rstr option" where
  "read_sz rg sub_key val =
     (case rg_size rg sub_key val of
        None \<Rightarrow> None
      | Some reported \<Rightarrow>
          if reported = 0 then None
          else (case rg_data rg sub_key val reported of
             None \<Rightarrow> None
           | Some written \<Rightarrow> if length written \<le> reported then decode_utf16_reg_sz written else None))"

definition open_command_for :: "Registry \<Rightarrow> rstr \<Rightarrow> rstr option" where
  "open_command_for rg sub_key = read_sz rg (sub_key @ win ''/shell/open/command'') []"

definition association_key :: "(rstr \<Rightarrow> rstr) \<Rightarrow> rstr \<Rightarrow> rstr option" where
  "association_key lc document =
     (case extension_of document of
        None \<Rightarrow> None
      | Some extension \<Rightarrow> if extension = [] then None else Some (dot # lc extension))"

datatype ShellAssociationError = AssociationNotFound rstr | AssociationUnusable rstr

definition blocking_resolve :: "(rstr \<Rightarrow> rstr) \<Rightarrow> Registry \<Rightarrow> rstr \<Rightarrow> ShellAssociationError + rstr" where
  "blocking_resolve lc rg document =
     (case association_key lc document of
        None \<Rightarrow> Inl (AssociationNotFound document)
      | Some extension \<Rightarrow>
          (case (case open_command_for rg extension of
                   Some command \<Rightarrow> Some command
                 | None \<Rightarrow> (case read_sz rg extension [] of None \<Rightarrow> None | Some prog_id \<Rightarrow> open_command_for rg prog_id)) of
             None \<Rightarrow> Inl (AssociationNotFound document)
           | Some command \<Rightarrow>
               (case substitute_command command document of
                  Inl _ \<Rightarrow> Inl (AssociationUnusable extension)
                | Inr line \<Rightarrow> Inr line)))"

text \<open>The association port over it: an error of any kind is no command.\<close>

definition resolve_open_command :: "(rstr \<Rightarrow> rstr) \<Rightarrow> Registry \<Rightarrow> rstr \<Rightarrow> rstr option" where
  "resolve_open_command lc rg document = (case blocking_resolve lc rg document of Inl _ \<Rightarrow> None | Inr line \<Rightarrow> Some line)"

lemma from_utf16_char:
  assumes "is_scalar c"
  shows "from_utf16 (map unat (encode_utf16 [c]) @ rest) = map_option ((#) c) (from_utf16 rest)"
  using assms by (cases rule: encode_char_cases) simp_all

lemma from_utf16_encode: "list_all is_scalar s \<Longrightarrow> from_utf16 (map unat (encode_utf16 s) @ rest) = map_option ((@) s) (from_utf16 rest)"
proof (induction s)
  case (Cons c s)
  have "encode_utf16 (c # s) = encode_utf16 [c] @ encode_utf16 s" by (simp add: encode_utf16_def)
  then show ?case using Cons from_utf16_char [of c "map unat (encode_utf16 s) @ rest"] by (simp add: option.map_comp comp_def)
qed (cases "from_utf16 rest"; simp add: encode_utf16_def)

lemma utf16_units_le16: "utf16_units (le16 us @ rest) = map unat us @ utf16_units rest"
proof (induction us)
  case (Cons u us)
  have "length (to_le_bytes u) = Suc (Suc 0)" by simp
  then obtain lo hi where bytes: "to_le_bytes u = [lo, hi]" unfolding length_Suc_conv length_0_conv by blast
  have "from_le_bytes [lo, hi] = u" using from_to_le_bytes [where 'a = 16, of u] by (simp add: bytes)
  then show ?case using Cons by (simp add: bytes)
qed simp

text \<open>What a program wrote as a string is read as that string, with its terminator or without one and whatever stray byte follows.\<close>

lemma reg_sz_roundtrip:
  assumes "list_all is_scalar s" "s \<noteq> []" "List.last s \<noteq> 0" "length stray \<le> 1"
  shows "decode_utf16_reg_sz (wide_nul s @ stray) = Some s" "decode_utf16_reg_sz (le16 (encode_utf16 s) @ stray) = Some s"
proof -
  have stray: "utf16_units stray = []" using assms(4) by (cases stray) auto
  show "decode_utf16_reg_sz (wide_nul s @ stray) = Some s"
    using assms(2) from_utf16_encode [OF assms(1), of "[0]"]
    by (simp add: decode_utf16_reg_sz_def wide_nul_le16 utf16_units_le16 stray del: le16_simps)
  show "decode_utf16_reg_sz (le16 (encode_utf16 s) @ stray) = Some s"
    using assms(2,3) from_utf16_encode [OF assms(1), of "[]"] by (simp add: decode_utf16_reg_sz_def utf16_units_le16 stray)
qed

text \<open>The registry holds a string under the default value of a key.\<close>

definition holds :: "Registry \<Rightarrow> rstr \<Rightarrow> rstr \<Rightarrow> bool" where
  "holds rg key s \<longleftrightarrow> rg_size rg key [] = Some (length (wide_nul s)) \<and> rg_data rg key [] (length (wide_nul s)) = Some (wide_nul s)"

lemma read_held:
  assumes "holds rg key s" "list_all is_scalar s" "s \<noteq> []" "List.last s \<noteq> 0"
  shows "read_sz rg key [] = Some s"
  using assms reg_sz_roundtrip(1) [OF assms(2,3,4), of "[]"] by (simp add: holds_def read_sz_def length_wide)

definition open_template :: "rstr \<Rightarrow> rstr" where
  "open_template program = quote_mark # program @ [quote_mark, 32, quote_mark, 37, 49, quote_mark]"


definition registry0 :: Registry where
  "registry0 = (let entries = [(utf ''.js'', utf ''JSFile''), (utf ''JSFile'' @ win ''/shell/open/command'', open_template (utf ''wscript.exe''))] in
     \<lparr>rg_size = \<lambda>key val. map_option (\<lambda>s. length (wide_nul s)) (map_of entries key),
      rg_data = \<lambda>key val n. map_option wide_nul (map_of entries key)\<rparr>)"


subsection \<open>Cleanup of processes\<close>

record KillOutcome =
  ko_killed :: u32
  ko_failed :: u32

definition normalize :: "(rstr \<Rightarrow> rstr) \<Rightarrow> rstr \<Rightarrow> rstr" where
  "normalize lc img = (let lowered = lc img in case strip_suffix (utf ''.exe'') lowered of None \<Rightarrow> lowered | Some bare \<Rightarrow> bare)"

text \<open>An entry of the process snapshot: its name is a fixed buffer of units with trailing NULs.\<close>

definition entry_image :: "u16 list \<Rightarrow> rstr" where
  "entry_image exe_file = rev (dropWhile (\<lambda>c. c = 0) (rev (from_utf16_lossy (map unat exe_file))))"

definition snapshot_processes :: "(u32 \<times> u16 list) list option \<Rightarrow> (u32 \<times> rstr) list option" where
  "snapshot_processes snapshot = map_option (map (\<lambda>(pid, exe_file). (pid, entry_image exe_file))) snapshot"

text \<open>\<open>opens\<close> and \<open>terminates\<close> are the answers for a process; returned are also the processes terminated, in order.\<close>

fun sweep_loop :: "(rstr \<Rightarrow> rstr) \<Rightarrow> (u32 \<Rightarrow> bool) \<Rightarrow> (u32 \<Rightarrow> bool) \<Rightarrow> u32 \<Rightarrow> rstr set \<Rightarrow> (u32 \<times> rstr) list \<Rightarrow> KillOutcome
    \<Rightarrow> KillOutcome \<times> u32 list" where
  "sweep_loop lc opens terminates own_pid wanted [] outcome = (outcome, [])"
| "sweep_loop lc opens terminates own_pid wanted ((pid, img) # processes) outcome =
     (if pid = own_pid \<or> normalize lc img \<notin> wanted
      then sweep_loop lc opens terminates own_pid wanted processes outcome
      else if opens pid \<and> terminates pid
      then (case sweep_loop lc opens terminates own_pid wanted processes (outcome\<lparr>ko_killed := ko_killed outcome + 1\<rparr>) of
        (outcome, killed) \<Rightarrow> (outcome, pid # killed))
      else sweep_loop lc opens terminates own_pid wanted processes (outcome\<lparr>ko_failed := ko_failed outcome + 1\<rparr>))"

definition sweep :: "(rstr \<Rightarrow> rstr) \<Rightarrow> (u32 \<times> u16 list) list option \<Rightarrow> (u32 \<Rightarrow> bool) \<Rightarrow> (u32 \<Rightarrow> bool) \<Rightarrow> u32 \<Rightarrow> rstr list
    \<Rightarrow> (KillOutcome \<times> u32 list) option" where
  "sweep lc snapshot opens terminates own_pid names =
     map_option (\<lambda>processes. sweep_loop lc opens terminates own_pid (normalize lc ` set names) processes \<lparr>ko_killed = 0, ko_failed = 0\<rparr>)
       (snapshot_processes snapshot)"

definition targeted :: "(rstr \<Rightarrow> rstr) \<Rightarrow> u32 \<Rightarrow> rstr list \<Rightarrow> u32 \<times> rstr \<Rightarrow> bool" where
  "targeted lc own_pid names process \<longleftrightarrow> fst process \<noteq> own_pid \<and> normalize lc (snd process) \<in> normalize lc ` set names"

lemma sweep_loop_result:
  "sweep_loop lc opens terminates own_pid (normalize lc ` set names) processes outcome =
     (let matched = map fst (filter (targeted lc own_pid names) processes); killed = filter (\<lambda>pid. opens pid \<and> terminates pid) matched in
      (\<lparr>ko_killed = ko_killed outcome + of_nat (length killed), ko_failed = ko_failed outcome + of_nat (length matched - length killed)\<rparr>, killed))"
proof (induction processes arbitrary: outcome)
  case (Cons process processes)
  obtain pid img where p: "process = (pid, img)" by (cases process)
  let ?matched = "map fst (filter (targeted lc own_pid names) processes)"
  have "length (filter (\<lambda>pid. opens pid \<and> terminates pid) ?matched) \<le> length ?matched" by (rule length_filter_le)
  then have "Suc (length ?matched) - length (filter (\<lambda>pid. opens pid \<and> terminates pid) ?matched)
      = Suc (length ?matched - length (filter (\<lambda>pid. opens pid \<and> terminates pid) ?matched))" by simp
  then show ?case using Cons p by (auto simp: Let_def targeted_def add.assoc)
qed (simp add: Let_def)

text \<open>
  The cleanup ends exactly the processes with a configured name that let themselves be ended, compared
  without regard to case and to a trailing \<open>.exe\<close>, counts the others, and spares the agent.
\<close>

lemma sweep_spares_agent:
  assumes "sweep lc snapshot opens terminates own_pid names = Some (outcome, killed)" "snapshot_processes snapshot = Some processes"
  shows "killed = filter (\<lambda>pid. opens pid \<and> terminates pid) (map fst (filter (targeted lc own_pid names) processes))" "own_pid \<notin> set killed"
    "ko_killed outcome + ko_failed outcome = of_nat (length (filter (targeted lc own_pid names) processes))"
proof -
  let ?matched = "map fst (filter (targeted lc own_pid names) processes)"
  show killed: "killed = filter (\<lambda>pid. opens pid \<and> terminates pid) ?matched" using assms by (simp add: sweep_def sweep_loop_result Let_def)
  then show "own_pid \<notin> set killed" by (auto simp: targeted_def)
  have "length killed \<le> length ?matched" unfolding killed by (rule length_filter_le)
  then have "(of_nat (length ?matched) :: u32) = of_nat (length killed) + of_nat (length ?matched - length killed)" by (simp flip: of_nat_add)
  then show "ko_killed outcome + ko_failed outcome = of_nat (length (filter (targeted lc own_pid names) processes))"
    using assms by (auto simp: sweep_def sweep_loop_result Let_def)
qed

subsection \<open>Screen capture\<close>

datatype CaptureError = CaptureUnavailable | CaptureGdi | CaptureEncode rstr

datatype GdiAction = GetScreen | ReleaseScreen | CreateMemory | DeleteMemory | CreateBitmap | DeleteBitmap
  | SelectBitmap | SelectPrevious | BitBlt

text \<open>The answers: the size of the virtual screen, which calls yield an object, and the pixels of the bitmap.\<close>

record GdiAnswers =
  gd_width :: int
  gd_height :: int
  gd_screen :: bool
  gd_memory :: bool
  gd_bitmap :: bool
  gd_bits :: bool
  gd_blits :: bool
  gd_pixels :: "nat \<Rightarrow> u8 list"

text \<open>\<open>objects\<close> dropped: bitmap, memory context, screen context.\<close>

definition drop_objects :: "GdiAction list" where
  "drop_objects = [DeleteBitmap, DeleteMemory, ReleaseScreen]"

text \<open>\<open>encode\<close> is the JPEG library; the quality it gets is clamped. Dimensions that fit 16 bits cannot overflow the byte count.\<close>

definition encode_bgra_jpeg :: "(u8 list \<Rightarrow> u16 \<Rightarrow> u16 \<Rightarrow> u8 \<Rightarrow> rstr + u8 list) \<Rightarrow> u8 list \<Rightarrow> u16 \<Rightarrow> u16 \<Rightarrow> u8 \<Rightarrow> rstr + u8 list" where
  "encode_bgra_jpeg encode pixels width height quality = encode pixels width height (max 1 (min 100 quality))"

definition capture_blocking :: "(u8 list \<Rightarrow> u16 \<Rightarrow> u16 \<Rightarrow> u8 \<Rightarrow> rstr + u8 list) \<Rightarrow> u8 \<Rightarrow> GdiAnswers
    \<Rightarrow> (CaptureError + u8 list) \<times> GdiAction list" where
  "capture_blocking encode quality gd =
     (if gd_width gd \<le> 0 \<or> gd_height gd \<le> 0 then (Inl CaptureUnavailable, [])
      else if gd_width gd \<ge> 2 ^ 16 \<or> gd_height gd \<ge> 2 ^ 16 then (Inl CaptureGdi, [])
      else if \<not> gd_screen gd then (Inl CaptureGdi, [])
      else if \<not> gd_memory gd then (Inl CaptureGdi, [GetScreen, ReleaseScreen])
      else if \<not> (gd_bitmap gd \<and> gd_bits gd)
      then (Inl CaptureGdi, [GetScreen, CreateMemory] @ (if gd_bitmap gd then [CreateBitmap] else []) @ [DeleteMemory, ReleaseScreen])
      else let acts = [GetScreen, CreateMemory, CreateBitmap, SelectBitmap, BitBlt, SelectPrevious] @ drop_objects in
        if \<not> gd_blits gd then (Inl CaptureGdi, acts)
        else (case encode_bgra_jpeg encode (gd_pixels gd (nat (gd_width gd) * nat (gd_height gd) * 4))
                (of_int (gd_width gd)) (of_int (gd_height gd)) quality of
           Inl e \<Rightarrow> (Inl (CaptureEncode e), acts)
         | Inr jpeg \<Rightarrow> (Inr jpeg, acts)))"

definition balanced :: "GdiAction list \<Rightarrow> bool" where
  "balanced acts \<longleftrightarrow> count_list acts GetScreen = count_list acts ReleaseScreen \<and> count_list acts CreateMemory = count_list acts DeleteMemory
     \<and> count_list acts CreateBitmap = count_list acts DeleteBitmap \<and> count_list acts SelectBitmap = count_list acts SelectPrevious"

text \<open>
  Every path gives back what it took; a bitmap is lost only if the system hands one out without its
  memory. What the encoder gets is as many bytes as the dimensions it gets say.
\<close>

lemma capture_balanced:
  "(gd_bitmap gd \<longrightarrow> gd_bits gd) \<Longrightarrow> balanced (snd (capture_blocking encode quality gd))"
  by (auto simp: capture_blocking_def balanced_def drop_objects_def Let_def split: sum.splits)

lemma clamped_quality: "1 \<le> max 1 (min 100 (quality :: u8))" "max 1 (min 100 quality) \<le> (100 :: u8)"
  by (auto simp: max_def min_def)

lemma dimension_kept: "0 < i \<Longrightarrow> i < 2 ^ 16 \<Longrightarrow> uint (of_int i :: u16) = i" for i :: int
  by (simp add: uint_word_of_int_eq take_bit_int_eq_self)

lemma capture_encodes_whole_screen:
  assumes "fst (capture_blocking encode quality gd) = Inr jpeg"
  shows "\<exists>q. 1 \<le> q \<and> q \<le> 100
    \<and> encode (gd_pixels gd (nat (gd_width gd) * nat (gd_height gd) * 4)) (of_int (gd_width gd)) (of_int (gd_height gd)) q = Inr jpeg"
    and "uint (of_int (gd_width gd) :: u16) = gd_width gd" "uint (of_int (gd_height gd) :: u16) = gd_height gd"
proof -
  have e: "encode (gd_pixels gd (nat (gd_width gd) * nat (gd_height gd) * 4)) (of_int (gd_width gd)) (of_int (gd_height gd))
      (max 1 (min 100 quality)) = Inr jpeg"
    using assms unfolding capture_blocking_def encode_bgra_jpeg_def Let_def by (simp split: if_split_asm sum.split_asm)
  show "\<exists>q. 1 \<le> q \<and> q \<le> 100
      \<and> encode (gd_pixels gd (nat (gd_width gd) * nat (gd_height gd) * 4)) (of_int (gd_width gd)) (of_int (gd_height gd)) q = Inr jpeg"
    using clamped_quality [of quality] e by (intro exI conjI)
  have size: "\<not> (gd_width gd \<le> 0 \<or> gd_height gd \<le> 0)"
  proof
    assume "gd_width gd \<le> 0 \<or> gd_height gd \<le> 0"
    with assms show False unfolding capture_blocking_def by (simp only: if_P fst_conv sum.distinct)
  qed
  moreover have "\<not> (gd_width gd \<ge> 2 ^ 16 \<or> gd_height gd \<ge> 2 ^ 16)"
  proof
    assume "gd_width gd \<ge> 2 ^ 16 \<or> gd_height gd \<ge> 2 ^ 16"
    with assms show False unfolding capture_blocking_def if_not_P [OF size] by (simp only: if_P fst_conv sum.distinct)
  qed
  ultimately show "uint (of_int (gd_width gd) :: u16) = gd_width gd" "uint (of_int (gd_height gd) :: u16) = gd_height gd"
    using dimension_kept by (simp_all only: not_le de_Morgan_disj)
qed

end
