(* ===== verification/Driver_Run.thy ===== *)
theory Driver_Run
  imports Driver_Event_Source
begin

text \<open>
  The polling loop of the driver event source (\<open>run\<close> in \<^verbatim>\<open>crates/agent/src/adapters/driving/driver_event_source.rs\<close>): opening the
  device, one \<open>GET_DATA\<close> per tick, the drain of its batch, and the two ways out. What the device and the clock
  answer and when the source is cancelled are inputs, one entry per tick.
\<close>

definition DRAIN_BUFFER_SIZE :: nat where "DRAIN_BUFFER_SIZE = 2 ^ 20"

datatype SourceError = DeviceNotFound | GetDataFailed

text \<open>A tick: the buffer and the count \<open>GET_DATA\<close> leaves, unless it fails, the clock, and whether the source is cancelled by its end.\<close>

record Tick =
  tk_data :: "(u8 list \<times> u32) option"
  tk_now :: i64
  tk_cancelled :: bool

definition batch :: "u8 list \<times> u32 \<Rightarrow> u8 list" where
  "batch d = (case d of (written, returned) \<Rightarrow>
     let buffer = take DRAIN_BUFFER_SIZE (written @ replicate DRAIN_BUFFER_SIZE 0) in take (min (unat returned) (length buffer)) buffer)"

definition drain_open :: "bool \<Rightarrow> SourceError + DrainContext" where
  "drain_open device_opens = (if device_opens then Inr DrainContext_new else Inl DeviceNotFound)"

text \<open>The result is \<open>None\<close> while the loop still runs, after the ticks given.\<close>

fun run_ticks :: "Tick list \<Rightarrow> DrainContext \<Rightarrow> (SourceError + unit) option \<times> SandboxEvent list \<times> DrainContext" where
  "run_ticks [] ctx = (None, [], ctx)"
| "run_ticks (tick # ticks) ctx =
     (case tk_data tick of
        None \<Rightarrow> (Some (Inl GetDataFailed), [], ctx)
      | Some d \<Rightarrow>
          (case drain (tk_now tick) (batch d) ctx [] 0 0 of (evs, decoded, skipped, ctx) \<Rightarrow>
             if tk_cancelled tick then (Some (Inr ()), evs, ctx)
             else (case run_ticks ticks ctx of (r, more_evs, ctx) \<Rightarrow> (r, evs @ more_evs, ctx))))"

definition driver_run :: "bool \<Rightarrow> Tick list \<Rightarrow> (SourceError + unit) option \<times> SandboxEvent list" where
  "driver_run device_opens ticks =
     (case drain_open device_opens of
        Inl e \<Rightarrow> (Some (Inl e), [])
      | Inr ctx \<Rightarrow> (case run_ticks ticks ctx of (r, evs, _) \<Rightarrow> (r, evs)))"

subsection \<open>The clock is read once\<close>

lemma deliver_captures: "deliver now r ctx = (evs, ctx') \<Longrightarrow> dc_offset_captured ctx'"
  by (auto simp: deliver_def map_record_def remember_name_def Let_def split: if_splits WirePayload.splits prod.splits)

lemma deliver_captured: "dc_offset_captured ctx \<Longrightarrow> deliver now r ctx = deliver now' r ctx"
  by (simp add: deliver_def)

lemma deliver_all_captured: "dc_offset_captured ctx \<Longrightarrow> deliver_all now rs ctx = deliver_all now' rs ctx"
proof (induction rs arbitrary: ctx)
  case (Cons r rs)
  obtain evs ctx' where d: "deliver now r ctx = (evs, ctx')" by fastforce
  have d': "deliver now' r ctx = (evs, ctx')" using d deliver_captured [OF Cons.prems, of now r now'] by simp
  show ?case using Cons.IH [OF deliver_captures [OF d]] by (simp add: d d')
qed simp

lemma deliver_all_append:
  "deliver_all now (rs @ rs') ctx = (case deliver_all now rs ctx of (evs, ctx) \<Rightarrow> case deliver_all now rs' ctx of (evs', ctx) \<Rightarrow> (evs @ evs', ctx))"
  by (induction rs arbitrary: ctx) (auto split: prod.splits)

lemma deliver_all_then:
  assumes "deliver_all now rs ctx = (evs, ctx')" "rs \<noteq> []"
  shows "dc_offset_captured ctx'"
  using assms
proof (induction rs arbitrary: ctx evs)
  case (Cons r rs)
  then show ?case by (cases "rs = []") (auto split: prod.splits dest: deliver_captures)
qed simp

subsection \<open>Batches\<close>

text \<open>A batch the driver filled: chunks, and perhaps garbage behind them that has no usable size.\<close>

definition filled :: "u8 list list \<Rightarrow> u8 list \<Rightarrow> bool" where
  "filled fs b \<longleftrightarrow> list_all chunk fs \<and> (\<exists>rest. b = concat fs @ rest \<and> (rest = [] \<or> (\<exists>e. record_size rest = Inl e)))"

lemma drain_filled:
  assumes "filled fs b"
  obtains decoded skipped where "drain now b ctx [] 0 0
    = (fst (deliver_all now (good_records fs) ctx), decoded, skipped, snd (deliver_all now (good_records fs) ctx))"
  using assms drain_skips_only_bad_records unfolding filled_def by blast

text \<open>The clock the offset is taken from: that of the first tick that brings a record.\<close>

fun anchor :: "(Tick \<times> u8 list list) list \<Rightarrow> i64" where
  "anchor [] = 0"
| "anchor ((tick, fs) # rest) = (if good_records fs = [] then anchor rest else tk_now tick)"

definition runs_over :: "(Tick \<times> u8 list list) list \<Rightarrow> bool" where
  "runs_over tfs \<longleftrightarrow> list_all (\<lambda>(tick, fs). \<not> tk_cancelled tick \<and> (\<exists>d. tk_data tick = Some d \<and> filled fs (batch d))) tfs"

lemma run_ticks_batches:
  assumes "runs_over tfs"
  shows "run_ticks (map fst tfs @ ticks) ctx =
    (let rs = concat (map (\<lambda>(_, fs). good_records fs) tfs) in
     case deliver_all (anchor tfs) rs ctx of (evs, ctx) \<Rightarrow>
       (case run_ticks ticks ctx of (r, more_evs, ctx) \<Rightarrow> (r, evs @ more_evs, ctx)))"
  using assms
proof (induction tfs arbitrary: ctx)
  case Nil
  then show ?case by (simp split: prod.splits)
next
  case (Cons tf tfs)
  obtain tick fs where tf: "tf = (tick, fs)" by fastforce
  obtain d where d: "tk_data tick = Some d" "filled fs (batch d)" and go: "\<not> tk_cancelled tick" and rest: "runs_over tfs"
    using Cons.prems by (auto simp: runs_over_def tf)
  let ?rs = "concat (map (\<lambda>(_, fs). good_records fs) tfs)"
  obtain evs1 ctx1 where one: "deliver_all (tk_now tick) (good_records fs) ctx = (evs1, ctx1)" by fastforce
  obtain decoded skipped where drained: "drain (tk_now tick) (batch d) ctx [] 0 0 = (evs1, decoded, skipped, ctx1)"
    using drain_filled [OF d(2), of "tk_now tick" ctx] one by auto
  show ?case
  proof (cases "good_records fs = []")
    case True
    then have "evs1 = []" "ctx1 = ctx" using one by simp_all
    then show ?thesis using Cons.IH [OF rest, of ctx] True by (simp add: tf d go drained split: prod.splits)
  next
    case False
    have same: "deliver_all (anchor tfs) ?rs ctx1 = deliver_all (tk_now tick) ?rs ctx1"
      by (rule deliver_all_captured) (rule deliver_all_then [OF one False])
    show ?thesis using Cons.IH [OF rest, of ctx1] False
      by (simp add: tf d go drained deliver_all_append one same split: prod.splits)
  qed
qed

definition records_of :: "(Tick \<times> u8 list list) list \<Rightarrow> Record list" where
  "records_of tfs = concat (map (\<lambda>(_, fs). good_records fs) tfs)"

text \<open>
  C10. How the driver's records fall into batches makes no difference. Whatever the ticks bring, as long as
  their batches are chunks with right size headers (and perhaps garbage behind them), the events the
  source has handed to the agent are exactly those of all records that decode, in the driver's order,
  with one clock offset taken at the first of them and one cache of process names; no record is lost or repeated at a
  boundary. A \<open>GET_DATA\<close> that fails ends the source: what came before stays delivered, and nothing is read any more.
\<close>

theorem driver_run_ignores_batching:
  assumes "runs_over tfs"
  shows "driver_run True (map fst tfs) = (None, fst (deliver_all (anchor tfs) (records_of tfs) DrainContext_new))
    \<and> (\<forall>tick later. tk_data tick = None \<longrightarrow> driver_run True (map fst tfs @ tick # later)
        = (Some (Inl GetDataFailed), fst (deliver_all (anchor tfs) (records_of tfs) DrainContext_new)))"
  using run_ticks_batches [OF assms, of "[]" DrainContext_new] run_ticks_batches [OF assms, of "_ # _" DrainContext_new]
  by (auto simp: driver_run_def drain_open_def records_of_def Let_def split: prod.splits)

lemma fixture_chunk: "chunk minimal_rename_fixture"
  using is_frame_take [OF decode_minimal_rename_fixture]
  by (simp add: chunk_def decode_record_size [OF decode_minimal_rename_fixture])
    (simp add: minimal_rename_fixture_def declared_size_def from_le_bytes_def)

definition tick0 :: Tick where
  "tick0 = \<lparr>tk_data = Some (minimal_rename_fixture, of_nat (length minimal_rename_fixture)), tk_now = 5, tk_cancelled = False\<rparr>"

lemma tick0_filled: "filled [minimal_rename_fixture] (batch (minimal_rename_fixture, of_nat (length minimal_rename_fixture)))"
proof -
  let ?f = minimal_rename_fixture
  have len: "length ?f < 1000" by (simp add: minimal_rename_fixture_def)
  then have "unat (of_nat (length ?f) :: u32) = length ?f" by (simp add: unat_of_nat take_bit_nat_eq_self)
  moreover have "length ?f \<le> DRAIN_BUFFER_SIZE" using len by (simp add: DRAIN_BUFFER_SIZE_def)
  ultimately have "batch (?f, of_nat (length ?f)) = ?f" by (simp add: batch_def Let_def)
  then show ?thesis using fixture_chunk by (simp add: filled_def)
qed

theorem driver_run_ignores_batching_witness:
  "length (snd (driver_run True [tick0, tick0])) = 2"
proof -
  let ?tfs = "[(tick0, [minimal_rename_fixture]), (tick0, [minimal_rename_fixture])]"
  have "runs_over ?tfs" using tick0_filled by (simp add: runs_over_def tick0_def)
  from driver_run_ignores_batching [OF this] show ?thesis
    by (simp add: records_of_def decode_minimal_rename_fixture deliver_def map_record_def Let_def split: prod.splits)
qed

end
