(* ===== verification/Spec2Isabelle.thy ===== *)
theory Spec2Isabelle
  imports Kernel_Service Driver_Wire Ipc_Frame Path_Text Command_Line Events App_Event Config Scope Score
    Agent_World Session_Manager Scope_Tracker_Plugin Event_Reporter Drops_Collector Screenshot_Intake
    Driver_Event_Source Launchers Ipc_Server Scheduler Agent Runtime Driver_Control Driver_Stats User_Actor Ipc_Client
    Sensor_Ring Sensor_Handshake Job_Queue Scope_Store Etw_Source Agent_Host Sensor_Store Upload_Stream
    Clock_Shift Broker_Adapters Dummy_Broker Study Desktop_Input Process_Launch Effect_Log Sensor_Hooks Service_Host Envelope_Wire Focus_Pump Actor_Host Windows_Adapters Driver_Run
begin

text \<open>
  Verification of the SecOutfall sandbox agent (\<^verbatim>\<open>src/crates\<close>).

  \<^bold>\<open>The program.\<close> SecOutfall detonates a malware sample in a Windows virtual machine and reports what
  it does. The agent is a microkernel (\<^verbatim>\<open>crates/kernel\<close>) with nine plugins (\<^verbatim>\<open>crates/agent/src/plugins\<close>)
  around a shared scope state (the process tree of the sample, persisted over reboots), a bus for
  derived events and driven ports (broker, clock, file system, launcher). A study is a sequence of
  boots: each boot opens one session, tracks the sample's processes, collects the files it drops and
  the screenshots of the user-actor, scores its behaviour and finalizes by asking for a reboot or,
  when the planned sessions are used up, a shutdown. Telemetry arrives from a kernel driver as binary
  records or from ETW; it leaves as JSON envelopes on a broker. \<^verbatim>\<open>crates/protocol\<close> holds the wire
  formats and the configuration.

  \<^bold>\<open>Theories.\<close>
  \<^item> \<^verbatim>\<open>Prelude\<close>: machine integers, strings as lists of code points, little-endian bytes, results,
    list helpers, and the simplification collections \<open>wire_simps\<close>, \<open>scope_simps\<close> and \<open>effect_simps\<close>.
  \<^item> \<^verbatim>\<open>Kernel_Service\<close> (\<^verbatim>\<open>kernel/src/models.rs\<close>, \<^verbatim>\<open>plugin_ports\<close>, \<^verbatim>\<open>kernel_service.rs\<close>): \<open>boot\<close> with its
    rollback, \<open>shutdown\<close>, \<open>accept\<close>. Hooks are state transformers over an arbitrary world. Shown: the
    exact order of hook calls of successful and failing boots, equivalence of the two loops of
    \<open>accept\<close> with nested middleware; the locale \<open>pipeline_invariant\<close> lifts an invariant of the hooks to
    every accepted event.
  \<^item> \<^verbatim>\<open>Driver_Wire\<close> (\<^verbatim>\<open>protocol/src/driver_wire.rs\<close>): the record decoder, on byte lists and 8/16/32/64-bit
    words. Shown: no read past the bounds, a batch decodes iff it is a sequence of records, round
    trip.
  \<^item> \<^verbatim>\<open>Ipc_Frame\<close> (\<^verbatim>\<open>protocol/src/ipc\<close>, the frame reader and writer of \<^verbatim>\<open>ipc_server.rs\<close>): the locale
    \<open>fixed_codec\<close> states a fixed-size codec's laws and is interpreted on the header codec. Shown: round
    trips, the exact set of accepted headers, bounded reads.
  \<^item> \<^verbatim>\<open>Path_Text\<close>, \<^verbatim>\<open>Command_Line\<close> (\<^verbatim>\<open>agent/src/domain\<close>, \<^verbatim>\<open>launcher/token.rs\<close>, \<^verbatim>\<open>schedtask.rs\<close>): path and
    command-line text. Shown: safe copy names, injectivity, the drop filter's decision, quoting
    round trips.
  \<^item> \<^verbatim>\<open>Events\<close>, \<^verbatim>\<open>App_Event\<close> (\<^verbatim>\<open>protocol/src/events.rs\<close>, \<^verbatim>\<open>payload.rs\<close>, \<^verbatim>\<open>nats.rs\<close>, \<^verbatim>\<open>agent/src/app/event.rs\<close>,
    \<^verbatim>\<open>plugins/wire.rs\<close>): the event taxonomy, payload schemas, envelopes, and the agent's inbound and bus
    events.
  \<^item> \<^verbatim>\<open>Config\<close> (\<^verbatim>\<open>protocol/src/config.rs\<close>): sections, defaults, validation.
  \<^item> \<^verbatim>\<open>Scope\<close>, \<^verbatim>\<open>Score\<close> (\<^verbatim>\<open>agent/src/domain/scope.rs\<close>, \<^verbatim>\<open>score.rs\<close>, the consumer of \<^verbatim>\<open>plugins/scoring.rs\<close>):
    scope membership and the behaviour-chain detector, the latter refined against call histories.
  \<^item> \<^verbatim>\<open>Agent_World\<close>: what the plugins share. Ports are the outside: clock readings and the answers of
    fallible calls are arbitrary sequences, all calls are logged as effects. The locale \<open>publisher\<close> is
    the contract of everything that publishes: consecutive sequence numbers, payloads of the right
    type. It is interpreted on every plugin that publishes.
  \<^item> \<^verbatim>\<open>Session_Manager\<close>, \<^verbatim>\<open>Scope_Tracker_Plugin\<close>, \<^verbatim>\<open>Event_Reporter\<close>, \<^verbatim>\<open>Drops_Collector\<close>,
    \<^verbatim>\<open>Screenshot_Intake\<close>, \<^verbatim>\<open>Launchers\<close> (\<^verbatim>\<open>agent/src/plugins\<close>): one definition per hook, bus handler and
    job. Shown: the finalize sequence, that it happens once, the life of a study over boots, drop
    reporting, collection budgets, screenshot quota, one detonation per boot.
  \<^item> \<^verbatim>\<open>Driver_Event_Source\<close> (\<^verbatim>\<open>adapters/driving/driver_event_source.rs\<close>): mapping of driver records to
    events and the drain loop over one batch.
  \<^item> \<^verbatim>\<open>Ipc_Server\<close> (\<^verbatim>\<open>adapters/driving/ipc_server.rs\<close>): the session of one pipe client as a loop over the
    bytes it sends, with everything that happens outside (elapsed deadlines, failing writes, the
    client's process id) an arbitrary sequence of turns; the accept loop as a step relation. Shown:
    nothing but errors before a verified handshake, paired start and stop reports, the client cap.
  \<^item> \<^verbatim>\<open>Scheduler\<close>, \<^verbatim>\<open>Runtime\<close> (\<^verbatim>\<open>adapters/driving/scheduler.rs\<close>, \<^verbatim>\<open>app/runtime.rs\<close>): the timers second by
    second, and the host loop as a step relation over the interleavings of the host, the scheduler and
    the bus consumer with the finalization one of them runs. Shown: how often each timer fires, when
    an exit is complete and when it is not, that the host returns, and that the steps are what the
    assembled kernel does.
  \<^item> \<^verbatim>\<open>Driver_Control\<close>, \<^verbatim>\<open>Driver_Stats\<close> (\<^verbatim>\<open>ports/driven/driver_control.rs\<close>, \<^verbatim>\<open>driver_control_device.rs\<close>, and the
    handlers of the driver in \<^verbatim>\<open>src/driver/secoutfall\<close>): both sides of the control protocol. Shown: the
    driver ends up with the policies the agent pushed, and the agent reads the counters the driver
    wrote.
  \<^item> \<^verbatim>\<open>User_Actor\<close>, \<^verbatim>\<open>Ipc_Client\<close> (\<^verbatim>\<open>crates/user-actor\<close>): plugins, script loops and assembly of the user-actor
    on the same kernel, and its pipe client. Shown: the capture quota, the storm gate, that scripts
    stop, and the composition of client and server over the pipe.
  \<^item> \<^verbatim>\<open>Sensor_Ring\<close>, \<^verbatim>\<open>Sensor_Handshake\<close> (\<^verbatim>\<open>crates/injectee/src/sensor.rs\<close>, and the driver's \<^verbatim>\<open>Injection.cpp\<close>): the
    shared ring as a step relation over all interleavings of the threads that emit, field by field,
    with the driver's drain, and the handshake with the driver's gate. Shown: which events arrive and
    in which form, the books on them, and that an injected sensor gets its ring.
  \<^item> \<^verbatim>\<open>Job_Queue\<close> (\<^verbatim>\<open>agent/src/app/worker.rs\<close>): submitters and worker of the bounded queue as a step relation.
    Shown: what was accepted is done in order or counted, but for one gap.
  \<^item> \<^verbatim>\<open>Scope_Store\<close> (\<^verbatim>\<open>scope_store/json.rs\<close>): loading and saving over a file system with a volatile part.
    Shown: a crash at any point leaves the old state or the new.
  \<^item> \<^verbatim>\<open>Etw_Source\<close> (\<^verbatim>\<open>etw_mapping.rs\<close>, \<^verbatim>\<open>etw_adapter.rs\<close>): the opcode table and the parsing of every record
    family. Shown: exactly the records of the table with their fields become events, of the right type.
  \<^item> \<^verbatim>\<open>Agent_Host\<close>, \<^verbatim>\<open>Sensor_Store\<close> (\<^verbatim>\<open>bin/secoutfall-agent.rs\<close>, \<^verbatim>\<open>config_toml.rs\<close>, \<^verbatim>\<open>service_control.rs\<close>,
    \<^verbatim>\<open>sensor_store\<close>): the command line, the configurations of the local modes, the policy push and the
    materialized sensor. Shown: a local run leaves the machine alone, the driver ends up armed as
    configured, and only with a pinned copy of the sensor.
  \<^item> \<^verbatim>\<open>Upload_Stream\<close>, \<^verbatim>\<open>Clock_Shift\<close>, \<^verbatim>\<open>Broker_Adapters\<close> (\<^verbatim>\<open>upload/http.rs\<close>, \<^verbatim>\<open>clock/shift.rs\<close>, \<^verbatim>\<open>broker\<close>): the capped
    upload, the conversion to file times with checked arithmetic, subjects, retries and the fan-out.
  \<^item> \<^verbatim>\<open>Dummy_Broker\<close> (\<^verbatim>\<open>devtools/src/bin/dummy-broker.rs\<close>): the observer of both channels. Shown: what it
    reports of a run of the agent of which nothing was lost.
  \<^item> \<^verbatim>\<open>Study\<close> (\<^verbatim>\<open>devtools/src/bin/session-sim.rs\<close>, \<^verbatim>\<open>scope_store/memory.rs\<close>): the boots of a study over the assembled
    agent, each on what the earlier ones persisted. Shown: the requests of a study with and without
    power losses, and that the simulation of the developer tools passes for every number of sessions.
  \<^item> \<^verbatim>\<open>Desktop_Input\<close> (\<^verbatim>\<open>user-actor/src/adapters/driven/input\<close>, \<^verbatim>\<open>launcher/app.rs\<close>): keyboard events over a system
    that may take only some of them, and command lines. Shown: typed text arrives, what a failed chord
    leaves pressed, and that a child splits its command line into the arguments meant.
  \<^item> \<^verbatim>\<open>Process_Launch\<close> (\<^verbatim>\<open>agent/src/adapters/driven/launcher\<close>, the start of \<^verbatim>\<open>secoutfall-user-actor.rs\<close>): the token
    and the scheduled-task launcher. Shown: handles are closed, what a task launch leaves behind, and
    that the user-actor launched with the boot's nonce is admitted by the pipe server.
  \<^item> \<^verbatim>\<open>Effect_Log\<close>: the locale \<open>effect_contract\<close> on what a run of the agent may do to the outside, interpreted on the
    channel discipline here and on the harmlessness of local runs in \<^verbatim>\<open>Agent_Host\<close>.
  \<^item> \<^verbatim>\<open>Sensor_Hooks\<close> (\<^verbatim>\<open>injectee/src/hooks\<close>, \<^verbatim>\<open>hooking.rs\<close>): the detours over arbitrary originals and their installation.
    Shown: a detour is transparent, and how far a hooked call gets on its way through the ring, the
    driver and the agent to scoring.
  \<^item> \<^verbatim>\<open>Service_Host\<close> (\<^verbatim>\<open>secoutfall-agent.rs\<close>, \<^verbatim>\<open>service_control.rs\<close>): installation and removal of the service, the adapters a
    build selects, and the bodies of console, local mode and service as sequences of steps. Shown:
    removal returns, what the service reports, and which configuration an installed service runs with.
  \<^item> \<^verbatim>\<open>Envelope_Wire\<close> (\<^verbatim>\<open>protocol/src/nats.rs\<close>, \<^verbatim>\<open>payload.rs\<close>): the receiver's validation of envelopes over one codec per struct.
    Shown: everything any run of the agent publishes is accepted as it was sent.
  \<^item> \<^verbatim>\<open>Driver_Run\<close> (\<^verbatim>\<open>driver_event_source.rs\<close>): the polling loop. Shown: batch boundaries make no difference.
  \<^item> \<^verbatim>\<open>Focus_Pump\<close>, \<^verbatim>\<open>Actor_Host\<close> (\<^verbatim>\<open>focus_winevents.rs\<close>, \<^verbatim>\<open>focus_shared.rs\<close>, \<^verbatim>\<open>secoutfall-user-actor.rs\<close>, \<^verbatim>\<open>kernel/src/bus.rs\<close>): the message
    pump, its bridge and its owner as a step relation up to the end of the process; the adapters of a
    build, the watcher on the bus. Shown: exactly which states keep the process from ending, and
    which configuration starts the focus source.
  \<^item> \<^verbatim>\<open>Windows_Adapters\<close> (\<^verbatim>\<open>shell_association/registry.rs\<close>, \<^verbatim>\<open>killer/windows.rs\<close>, \<^verbatim>\<open>capture/screen.rs\<close>): registry strings and
    the lookup of commands, the cleanup of processes, the objects of a capture. Shown: a document is
    opened by its registered program, the agent is spared, every path gives back what it took.
  \<^item> \<^verbatim>\<open>Agent\<close> (\<^verbatim>\<open>agent/src/app/builder.rs\<close>): the nine plugins assembled in the order of the sources, the
    step relation of the running agent and its invariant, through the interpretation of
    \<open>pipeline_invariant\<close> on the assembled middleware.

  \<^bold>\<open>Conventions.\<close> A record field carries a short prefix of its struct; enum constructors keep the
  source's names and are written qualified (\<open>EventType.X\<close>, \<open>Payload.X\<close>) where several enums share them.
  Unicode lower-casing (\<open>to_lowercase\<close>), SHA-256, the shell association and the file system are
  parameters; nothing is assumed of them. \<open>usize\<close> values are natural numbers; wire and counter fields
  keep their width and wrap as in a release build. Every loop that ends by itself is
  structural or has a measure (the decoder and the drain loop consume at least 48 bytes per turn, the
  pipe session a frame header). Two loops do not end by themselves: the script loop of the user-actor
  gets a number of passes as fuel, and it is shown how many are enough once it is stopped; the host
  loop is a step relation, and it is shown that it returns. Log output is left out.

  \<^bold>\<open>Steps.\<close> In \<^verbatim>\<open>Agent\<close> a hook, a received bus event and a queued job are one step each. The sources run
  consumers and workers as tasks, so two of them may take their sequence numbers in one order and
  reach the broker in the other; what is shown about numbering is about the order in which numbers
  are taken.

  \<^bold>\<open>Not modelled.\<close> What calls of the Windows API do (their answers are inputs), the creation of the pipe
  and of ETW sessions, the NATS, HTTP, JPEG and JSON and TOML libraries; logging setup beyond the choice of the directory; the
  patching of code by the detour library, and a sample that tampers with its own ring; the driver
  beyond its policy, statistics and sensor handlers.
\<close>

end
